(* ===== verification/Prelude.thy ===== *)
theory Prelude
  imports Complex_Main
begin

text \<open>
  What every component of the development shares: the collections that its proofs draw
  on, insertion-ordered dictionaries (Python's \<^verbatim>\<open>dict\<close>), computations that
  may raise (\<open>'e + 'a\<close>) and computations that change a state and may raise, the
  contract of a keyed store, and the frame in which every state machine of the program
  proves its invariants.
\<close>

named_theorems effect_simps "how the raising and state-changing computations evaluate"
named_theorems dict_simps "lookups after the updates of an insertion-ordered dictionary"

section \<open>Computations that may raise\<close>

text \<open>\<open>Inl\<close> carries the exception, \<open>Inr\<close> the value returned.\<close>

definition bind_res :: "'e + 'a \<Rightarrow> ('a \<Rightarrow> 'e + 'b) \<Rightarrow> 'e + 'b" where
  "bind_res r f = (case r of Inl e \<Rightarrow> Inl e | Inr x \<Rightarrow> f x)"

lemma bind_res_simps [effect_simps, simp]:
  "bind_res (Inl e) f = Inl e" "bind_res (Inr x) f = f x"
  by (simp_all add: bind_res_def)

lemma bind_res_Inr_iff:
  "bind_res r f = Inr y \<longleftrightarrow> (\<exists>x. r = Inr x \<and> f x = Inr y)"
  by (cases r) simp_all

lemma bind_res_split:
  "P (bind_res r f) \<longleftrightarrow> (\<forall>e. r = Inl e \<longrightarrow> P (Inl e)) \<and> (\<forall>x. r = Inr x \<longrightarrow> P (f x))"
  by (cases r) simp_all

text \<open>A Python comprehension whose body may raise: the first exception ends it.\<close>

fun map_res :: "('a \<Rightarrow> 'e + 'b) \<Rightarrow> 'a list \<Rightarrow> 'e + 'b list" where
  "map_res f [] = Inr []"
| "map_res f (x # xs) =
     bind_res (f x) (\<lambda>y. bind_res (map_res f xs) (\<lambda>ys. Inr (y # ys)))"

lemma map_res_Inr_length: "map_res f xs = Inr ys \<Longrightarrow> length ys = length xs"
  by (induction xs arbitrary: ys) (auto simp: bind_res_Inr_iff)

section \<open>Computations that change a state and may raise\<close>

type_synonym ('s, 'e, 'a) act = "'s \<Rightarrow> ('e + 'a) \<times> 's"

definition ret :: "'a \<Rightarrow> ('s, 'e, 'a) act" where
  "ret x = (\<lambda>s. (Inr x, s))"

definition raise :: "'e \<Rightarrow> ('s, 'e, 'a) act" where
  "raise e = (\<lambda>s. (Inl e, s))"

definition bind_act :: "('s, 'e, 'a) act \<Rightarrow> ('a \<Rightarrow> ('s, 'e, 'b) act) \<Rightarrow> ('s, 'e, 'b) act" where
  "bind_act m f = (\<lambda>s. case m s of (Inl e, t) \<Rightarrow> (Inl e, t) | (Inr x, t) \<Rightarrow> f x t)"

definition gets :: "('s \<Rightarrow> 'a) \<Rightarrow> ('s, 'e, 'a) act" where
  "gets f = (\<lambda>s. (Inr (f s), s))"

definition modify :: "('s \<Rightarrow> 's) \<Rightarrow> ('s, 'e, unit) act" where
  "modify f = (\<lambda>s. (Inr (), f s))"

definition lift_res :: "'e + 'a \<Rightarrow> ('s, 'e, 'a) act" where
  "lift_res r = (\<lambda>s. (r, s))"

text \<open>
  \<^verbatim>\<open>try: m / except: handler\<close>, the handler choosing by the exception whether it
  catches (\<open>Some\<close>) or lets it through (\<open>None\<close>). State changes made before the
  exception stay.
\<close>

definition try_act :: "('s, 'e, 'a) act \<Rightarrow> ('e \<Rightarrow> ('s, 'e, 'a) act option) \<Rightarrow> ('s, 'e, 'a) act" where
  "try_act m h = (\<lambda>s. case m s of
      (Inl e, t) \<Rightarrow> (case h e of None \<Rightarrow> (Inl e, t) | Some k \<Rightarrow> k t)
    | (Inr x, t) \<Rightarrow> (Inr x, t))"

lemma act_apply [effect_simps]:
  "ret x s = (Inr x, s)"
  "raise e s = (Inl e, s)"
  "gets f s = (Inr (f s), s)"
  "modify g s = (Inr (), g s)"
  "lift_res r s = (r, s)"
  by (simp_all add: ret_def raise_def gets_def modify_def lift_res_def)

lemma bind_act_cases [effect_simps]:
  "m s = (Inl e, t) \<Longrightarrow> bind_act m f s = (Inl e, t)"
  "m s = (Inr x, t) \<Longrightarrow> bind_act m f s = f x t"
  by (simp_all add: bind_act_def)

lemma bind_act_ret [effect_simps, simp]: "bind_act (ret x) f s = f x s"
  by (simp add: bind_act_def ret_def)

lemma bind_act_raise [effect_simps, simp]: "bind_act (raise e) f s = (Inl e, s)"
  by (simp add: bind_act_def raise_def)

lemma bind_act_gets [effect_simps, simp]: "bind_act (gets g) f s = f (g s) s"
  by (simp add: bind_act_def gets_def)

lemma bind_act_modify [effect_simps, simp]: "bind_act (modify g) f s = f () (g s)"
  by (simp add: bind_act_def modify_def)

lemma bind_act_lift [effect_simps]:
  "bind_act (lift_res r) f s = (case r of Inl e \<Rightarrow> (Inl e, s) | Inr x \<Rightarrow> f x s)"
  by (cases r) (simp_all add: bind_act_def lift_res_def)

lemma bind_act_Inr_iff:
  "bind_act m f s = (Inr y, u) \<longleftrightarrow> (\<exists>x t. m s = (Inr x, t) \<and> f x t = (Inr y, u))"
  by (auto simp: bind_act_def split: sum.splits prod.splits)

lemma bind_act_Inl_iff:
  "bind_act m f s = (Inl e, u) \<longleftrightarrow>
     m s = (Inl e, u) \<or> (\<exists>x t. m s = (Inr x, t) \<and> f x t = (Inl e, u))"
  by (auto simp: bind_act_def split: sum.splits prod.splits)

lemma bind_act_at: "bind_act m f s = (case m s of (Inl e, t) \<Rightarrow> (Inl e, t) | (Inr x, t) \<Rightarrow> f x t)"
  by (simp add: bind_act_def)

lemma bind_act_assoc: "bind_act (bind_act m f) g = bind_act m (\<lambda>x. bind_act (f x) g)"
  by (rule ext) (simp add: bind_act_def split: prod.splits sum.splits)

text \<open>
  A property \<open>P\<close> of the state is \<^emph>\<open>kept\<close> by a computation when no run of it, whether
  it returns or raises, breaks the property. It composes along \<^const>\<open>bind_act\<close>.
\<close>

definition keeps :: "('s \<Rightarrow> bool) \<Rightarrow> ('s, 'e, 'a) act \<Rightarrow> bool" where
  "keeps P m \<longleftrightarrow> (\<forall>s. P s \<longrightarrow> P (snd (m s)))"

named_theorems keeps_intros "a computation keeps a property of the state"

lemma keeps_basic [keeps_intros]:
  "keeps P (ret x)" "keeps P (raise e)" "keeps P (gets f)" "keeps P (lift_res r)"
  by (simp_all add: keeps_def act_apply)

lemma keeps_bind [keeps_intros]:
  "keeps P m \<Longrightarrow> (\<And>x. keeps P (f x)) \<Longrightarrow> keeps P (bind_act m f)"
  unfolding keeps_def bind_act_def
  by (fastforce split: prod.splits sum.splits)

lemma keeps_modify [keeps_intros]: "(\<And>s. P s \<Longrightarrow> P (g s)) \<Longrightarrow> keeps P (modify g)"
  by (simp add: keeps_def act_apply)

lemma keeps_if [keeps_intros]:
  "(b \<Longrightarrow> keeps P m) \<Longrightarrow> (\<not> b \<Longrightarrow> keeps P n) \<Longrightarrow> keeps P (if b then m else n)"
  by simp

lemma keeps_option [keeps_intros]:
  "(x = None \<Longrightarrow> keeps P m) \<Longrightarrow> (\<And>y. x = Some y \<Longrightarrow> keeps P (f y)) \<Longrightarrow>
     keeps P (case x of None \<Rightarrow> m | Some y \<Rightarrow> f y)"
  by (cases x) simp_all

lemma keeps_try [keeps_intros]:
  "keeps P m \<Longrightarrow> (\<And>e n. h e = Some n \<Longrightarrow> keeps P n) \<Longrightarrow> keeps P (try_act m h)"
  unfolding keeps_def try_act_def
  by (fastforce split: prod.splits sum.splits option.splits)

lemma keepsD: "keeps P m \<Longrightarrow> P s \<Longrightarrow> m s = (r, t) \<Longrightarrow> P t"
  unfolding keeps_def by (metis snd_conv)

section \<open>Insertion-ordered dictionaries\<close>

text \<open>
  A Python \<^verbatim>\<open>dict\<close> is the list of its items in insertion order. Assigning to a
  present key keeps its place, assigning to a new key appends, popping removes.
\<close>

type_synonym ('k, 'v) dict = "('k \<times> 'v) list"

definition dict_get :: "('k, 'v) dict \<Rightarrow> 'k \<Rightarrow> 'v option" where
  "dict_get d k = map_of d k"

fun dict_set :: "'k \<Rightarrow> 'v \<Rightarrow> ('k, 'v) dict \<Rightarrow> ('k, 'v) dict" where
  "dict_set k v [] = [(k, v)]"
| "dict_set k v ((k', v') # d) = (if k = k' then (k, v) # d else (k', v') # dict_set k v d)"

definition dict_pop :: "'k \<Rightarrow> ('k, 'v) dict \<Rightarrow> ('k, 'v) dict" where
  "dict_pop k d = filter (\<lambda>(k', _). k' \<noteq> k) d"

abbreviation dict_keys :: "('k, 'v) dict \<Rightarrow> 'k list" where
  "dict_keys d \<equiv> map fst d"

definition dict_ok :: "('k, 'v) dict \<Rightarrow> bool" where
  "dict_ok d \<longleftrightarrow> distinct (dict_keys d)"

lemma dict_get_Nil [dict_simps, simp]: "dict_get [] k = None"
  by (simp add: dict_get_def)

lemma dict_get_Cons [simp]:
  "dict_get ((k', v) # d) k = (if k = k' then Some v else dict_get d k)"
  by (simp add: dict_get_def)

lemma dict_get_set [dict_simps, simp]:
  "dict_get (dict_set k v d) k' = (if k' = k then Some v else dict_get d k')"
  by (induction k v d rule: dict_set.induct) auto

lemma dict_get_pop [dict_simps, simp]:
  "dict_get (dict_pop k d) k' = (if k' = k then None else dict_get d k')"
  by (induction d) (auto simp: dict_pop_def)

lemma dict_get_None_iff: "dict_get d k = None \<longleftrightarrow> k \<notin> set (dict_keys d)"
  by (simp add: dict_get_def map_of_eq_None_iff)

lemma dict_get_SomeD: "dict_get d k = Some v \<Longrightarrow> (k, v) \<in> set d"
  by (simp add: dict_get_def map_of_SomeD)

lemma dict_get_item: "dict_ok d \<Longrightarrow> (k, v) \<in> set d \<Longrightarrow> dict_get d k = Some v"
  by (simp add: dict_get_def dict_ok_def)

lemma dict_get_Some_iff: "dict_ok d \<Longrightarrow> dict_get d k = Some v \<longleftrightarrow> (k, v) \<in> set d"
  by (auto dest: dict_get_SomeD dict_get_item)

lemma dict_keys_set: "set (dict_keys (dict_set k v d)) = insert k (set (dict_keys d))"
  by (induction k v d rule: dict_set.induct) auto

lemma dict_set_items: "x \<in> set (dict_set k v d) \<Longrightarrow> x = (k, v) \<or> x \<in> set d"
  by (induction k v d rule: dict_set.induct) (auto split: if_splits)

lemma dict_set_fresh: "k \<notin> set (dict_keys d) \<Longrightarrow> dict_set k v d = d @ [(k, v)]"
  by (induction k v d rule: dict_set.induct) auto

lemma dict_keys_pop: "set (dict_keys (dict_pop k d)) = set (dict_keys d) - {k}"
  by (auto simp: dict_pop_def)

lemma dict_ok_Nil [simp]: "dict_ok []"
  by (simp add: dict_ok_def)

lemma dict_ok_set [simp]: "dict_ok d \<Longrightarrow> dict_ok (dict_set k v d)"
  unfolding dict_ok_def
proof (induction k v d rule: dict_set.induct)
  case (2 k v k' v' d)
  then show ?case using dict_keys_set [of k v d] by auto
qed simp

lemma dict_ok_pop [simp]: "dict_ok d \<Longrightarrow> dict_ok (dict_pop k d)"
  by (simp add: dict_ok_def dict_pop_def distinct_map_filter)

lemma dict_pop_absent: "k \<notin> set (dict_keys d) \<Longrightarrow> dict_pop k d = d"
  unfolding dict_pop_def by (rule filter_True) force

text \<open>
  The contract the registries of the program rely on: what a lookup returns after an
  assignment or a removal. The facts derived once here are those the session registry
  and the artifact registry use.
\<close>

locale keyed_store =
  fixes look :: "'d \<Rightarrow> 'k \<Rightarrow> 'v option"
    and put :: "'k \<Rightarrow> 'v \<Rightarrow> 'd \<Rightarrow> 'd"
    and drop_key :: "'k \<Rightarrow> 'd \<Rightarrow> 'd"
  assumes look_put: "look (put k v d) k' = (if k' = k then Some v else look d k')"
    and look_drop: "look (drop_key k d) k' = (if k' = k then None else look d k')"
begin

lemma put_drop_other: "k' \<noteq> k \<Longrightarrow> look (drop_key k (put k v d)) k' = look d k'"
  by (simp add: look_put look_drop)

lemma drop_put: "look (drop_key k (put k v d)) k = None"
  by (simp add: look_drop)

lemma drop_all: "look (fold drop_key ks d) k = (if k \<in> set ks then None else look d k)"
  by (induction ks arbitrary: d) (auto simp: look_drop)

lemma drop_comm: "look (drop_key k (drop_key j d)) = look (drop_key j (drop_key k d))"
  by (rule ext) (simp add: look_drop)

end

interpretation dict: keyed_store dict_get dict_set dict_pop
  by unfold_locales simp_all

section \<open>State machines and their invariants\<close>

text \<open>
  A component driven by a sequence of events (callbacks, tool calls, chunks of a stream)
  is a step function. A run is valid when every event meets what is assumed of the
  environment at the state it finds. A property that holds at the start and that every
  such step keeps holds after every valid run.
\<close>

fun valid_run :: "('ev \<Rightarrow> 's \<Rightarrow> bool) \<Rightarrow> ('ev \<Rightarrow> 's \<Rightarrow> 's) \<Rightarrow> 'ev list \<Rightarrow> 's \<Rightarrow> bool" where
  "valid_run ok step [] s = True"
| "valid_run ok step (e # es) s = (ok e s \<and> valid_run ok step es (step e s))"

lemma valid_run_append:
  "valid_run ok step (es @ fs) s \<longleftrightarrow> valid_run ok step es s \<and> valid_run ok step fs (fold step es s)"
  by (induction es arbitrary: s) auto

lemma valid_run_always: "(\<And>e s. ok e s) \<Longrightarrow> valid_run ok step es s"
  by (induction es arbitrary: s) simp_all

locale machine =
  fixes step :: "'ev \<Rightarrow> 's \<Rightarrow> 's"
    and inv :: "'s \<Rightarrow> bool"
    and env :: "'ev \<Rightarrow> 's \<Rightarrow> bool"
  assumes step_inv: "inv s \<Longrightarrow> env e s \<Longrightarrow> inv (step e s)"
begin

lemma run_inv: "inv s \<Longrightarrow> valid_run env step es s \<Longrightarrow> inv (fold step es s)"
  by (induction es arbitrary: s) (simp_all add: step_inv)

lemma run_inv_prefix: "inv s \<Longrightarrow> valid_run env step (es @ fs) s \<Longrightarrow> inv (fold step es s)"
  by (rule run_inv) (simp_all add: valid_run_append)

end

text \<open>
  A machine with a measure of the state that no step lowers: what has been raised stays
  raised, however the run goes on.
\<close>

locale monotone_machine = machine step inv env
  for step :: "'ev \<Rightarrow> 's \<Rightarrow> 's" and inv :: "'s \<Rightarrow> bool" and env :: "'ev \<Rightarrow> 's \<Rightarrow> bool" +
  fixes level :: "'s \<Rightarrow> 'l::preorder"
  assumes step_level: "inv s \<Longrightarrow> env e s \<Longrightarrow> level s \<le> level (step e s)"
begin

lemma run_level: "inv s \<Longrightarrow> valid_run env step es s \<Longrightarrow> level s \<le> level (fold step es s)"
proof (induction es arbitrary: s)
  case (Cons e es)
  then have "level (step e s) \<le> level (fold step es (step e s))" by (simp add: step_inv)
  with Cons.prems show ?case by (auto intro: order_trans step_level)
qed simp

end

text \<open>
  A component that implements a specification: each operation answers as the specified
  one does on the abstract state, which it then leaves behind. Whole sessions of
  operations then answer alike.
\<close>

fun outputs :: "('op \<Rightarrow> 's \<Rightarrow> 'o \<times> 's) \<Rightarrow> 'op list \<Rightarrow> 's \<Rightarrow> 'o list" where
  "outputs f [] s = []"
| "outputs f (x # xs) s = fst (f x s) # outputs f xs (snd (f x s))"

locale simulation =
  fixes conc :: "'op \<Rightarrow> 's \<Rightarrow> 'o \<times> 's"
    and spec :: "'op \<Rightarrow> 'a \<Rightarrow> 'o \<times> 'a"
    and abs :: "'s \<Rightarrow> 'a"
    and inv :: "'s \<Rightarrow> bool"
    and env :: "'op \<Rightarrow> 's \<Rightarrow> bool"
  assumes sim_inv: "inv s \<Longrightarrow> env x s \<Longrightarrow> inv (snd (conc x s))"
    and sim_step: "inv s \<Longrightarrow> env x s \<Longrightarrow> spec x (abs s) = (fst (conc x s), abs (snd (conc x s)))"
begin

lemma session_sim:
  "inv s \<Longrightarrow> valid_run env (\<lambda>x s. snd (conc x s)) xs s \<Longrightarrow>
     outputs conc xs s = outputs spec xs (abs s) \<and>
     abs (fold (\<lambda>x s. snd (conc x s)) xs s) = fold (\<lambda>x a. snd (spec x a)) xs (abs s)"
  by (induction xs arbitrary: s) (simp_all add: sim_inv sim_step)

end

section \<open>Lists\<close>

lemma length_dropWhile_less [termination_simp]: "length (dropWhile P xs) < Suc (length xs)"
  by (simp add: le_imp_less_Suc length_dropWhile_le)

lemma takeWhile_not_in: "c \<notin> set (takeWhile (\<lambda>x. x \<noteq> c) xs)"
  by (induction xs) auto

lemma set_dropWhile_subset: "set (dropWhile P xs) \<subseteq> set xs"
  by (auto dest: set_dropWhileD)

lemma set_takeWhile_subset: "set (takeWhile P xs) \<subseteq> set xs"
  by (auto dest: set_takeWhileD)

lemma hd_dropWhile_not: "dropWhile P xs \<noteq> [] \<Longrightarrow> \<not> P (hd (dropWhile P xs))"
  by (rule hd_dropWhile)

end
