(* ===== verification/PyStr.thy ===== *)
theory PyStr
  imports Prelude "HOL-Library.Sublist" "HOL-Library.Char_ord"
begin

text \<open>
  The operations of Python's \<^verbatim>\<open>str\<close> that the program uses. A string is a list
  of characters with code points below 256; header values, environment variables, file
  names and identifiers of the program are of this kind, and each operation is the
  documented one on these code points.
\<close>

abbreviation code :: "char \<Rightarrow> nat" where
  "code c \<equiv> of_char c"

text \<open>
  A character here is a code point below 256. The one character of the program's texts beyond
  that, the em dash, stands as the three bytes of its UTF-8 encoding.
\<close>

definition dash :: string where
  "dash = [CHR 0xE2, CHR 0x80, CHR 0x94]"

section \<open>Character classes\<close>

text \<open>\<^verbatim>\<open>str.isspace\<close>, the set \<^verbatim>\<open>strip()\<close> and \<^verbatim>\<open>split()\<close> use.\<close>

definition is_space :: "char \<Rightarrow> bool" where
  "is_space c \<longleftrightarrow> (let n = code c in (9 \<le> n \<and> n \<le> 13) \<or> (28 \<le> n \<and> n \<le> 32) \<or> n = 133 \<or> n = 160)"

definition is_digit :: "char \<Rightarrow> bool" where
  "is_digit c \<longleftrightarrow> 48 \<le> code c \<and> code c \<le> 57"

definition is_alpha :: "char \<Rightarrow> bool" where
  "is_alpha c \<longleftrightarrow> (65 \<le> code c \<and> code c \<le> 90) \<or> (97 \<le> code c \<and> code c \<le> 122)"

definition is_hex_lower :: "char \<Rightarrow> bool" where
  "is_hex_lower c \<longleftrightarrow> is_digit c \<or> (97 \<le> code c \<and> code c \<le> 102)"

definition is_hex :: "char \<Rightarrow> bool" where
  "is_hex c \<longleftrightarrow> is_hex_lower c \<or> (65 \<le> code c \<and> code c \<le> 70)"

section \<open>Stripping\<close>

definition lstrip_if :: "(char \<Rightarrow> bool) \<Rightarrow> string \<Rightarrow> string" where
  "lstrip_if P s = dropWhile P s"

definition rstrip_if :: "(char \<Rightarrow> bool) \<Rightarrow> string \<Rightarrow> string" where
  "rstrip_if P s = rev (dropWhile P (rev s))"

definition strip_if :: "(char \<Rightarrow> bool) \<Rightarrow> string \<Rightarrow> string" where
  "strip_if P s = rstrip_if P (lstrip_if P s)"

abbreviation strip :: "string \<Rightarrow> string" where
  "strip \<equiv> strip_if is_space"

abbreviation rstrip_char :: "char \<Rightarrow> string \<Rightarrow> string" where
  "rstrip_char c \<equiv> rstrip_if (\<lambda>x. x = c)"

abbreviation lstrip_char :: "char \<Rightarrow> string \<Rightarrow> string" where
  "lstrip_char c \<equiv> lstrip_if (\<lambda>x. x = c)"

abbreviation strip_char :: "char \<Rightarrow> string \<Rightarrow> string" where
  "strip_char c \<equiv> strip_if (\<lambda>x. x = c)"

lemma set_lstrip_if: "set (lstrip_if P s) \<subseteq> set s"
  by (simp add: lstrip_if_def set_dropWhile_subset)

lemma set_rstrip_if: "set (rstrip_if P s) \<subseteq> set s"
  using set_dropWhile_subset [of P "rev s"] by (simp add: rstrip_if_def)

lemma set_strip_if: "set (strip_if P s) \<subseteq> set s"
  unfolding strip_if_def using set_lstrip_if set_rstrip_if by blast

lemma rstrip_if_last: "rstrip_if P s \<noteq> [] \<Longrightarrow> \<not> P (last (rstrip_if P s))"
  using hd_dropWhile [of P "rev s"] by (simp add: rstrip_if_def last_rev)

lemma rstrip_if_hd: "rstrip_if P s \<noteq> [] \<Longrightarrow> hd (rstrip_if P s) = hd s"
proof -
  assume ne: "rstrip_if P s \<noteq> []"
  obtain t where "rev s = t @ dropWhile P (rev s)" by (metis takeWhile_dropWhile_id)
  then have "s = rev (dropWhile P (rev s)) @ rev t" by (metis rev_append rev_rev_ident)
  then have "s = rstrip_if P s @ rev t" by (simp add: rstrip_if_def)
  with ne show ?thesis by (metis hd_append2)
qed

lemma lstrip_if_hd: "lstrip_if P s \<noteq> [] \<Longrightarrow> \<not> P (hd (lstrip_if P s))"
  by (simp add: lstrip_if_def hd_dropWhile)

lemma strip_if_ends:
  assumes "strip_if P s \<noteq> []"
  shows "\<not> P (hd (strip_if P s))" "\<not> P (last (strip_if P s))"
proof -
  have "lstrip_if P s \<noteq> []"
    using assms by (auto simp: strip_if_def rstrip_if_def)
  then show "\<not> P (hd (strip_if P s))"
    using assms lstrip_if_hd rstrip_if_hd unfolding strip_if_def by metis
  show "\<not> P (last (strip_if P s))"
    using assms rstrip_if_last unfolding strip_if_def by blast
qed

lemma rstrip_if_id: "(s = [] \<or> \<not> P (last s)) \<Longrightarrow> rstrip_if P s = s"
  by (cases s rule: rev_cases) (simp_all add: rstrip_if_def)

lemma lstrip_if_id: "(s = [] \<or> \<not> P (hd s)) \<Longrightarrow> lstrip_if P s = s"
  by (cases s) (simp_all add: lstrip_if_def)

lemma strip_if_id: "(s = [] \<or> \<not> P (hd s) \<and> \<not> P (last s)) \<Longrightarrow> strip_if P s = s"
  by (metis lstrip_if_id rstrip_if_id strip_if_def)

section \<open>Splitting and joining\<close>

text \<open>\<^verbatim>\<open>s.split(c)\<close> for a one-character separator: never the empty list.\<close>

fun split_char :: "char \<Rightarrow> string \<Rightarrow> string list" where
  "split_char c [] = [[]]"
| "split_char c (x # xs) =
     (if x = c then [] # split_char c xs
      else (case split_char c xs of [] \<Rightarrow> [[x]] | y # ys \<Rightarrow> (x # y) # ys))"

fun join_char :: "char \<Rightarrow> string list \<Rightarrow> string" where
  "join_char c [] = []"
| "join_char c [x] = x"
| "join_char c (x # y # ys) = x @ c # join_char c (y # ys)"

lemma split_char_ne [simp]: "split_char c s \<noteq> []"
  by (induction c s rule: split_char.induct) (auto split: list.splits)

lemma join_split_char: "join_char c (split_char c s) = s"
proof (induction c s rule: split_char.induct)
  case (2 c x xs)
  obtain y ys where s: "split_char c xs = y # ys" by (cases "split_char c xs") auto
  with 2 show ?case by (cases ys) auto
qed simp

lemma split_char_parts: "p \<in> set (split_char c s) \<Longrightarrow> c \<notin> set p"
proof (induction c s arbitrary: p rule: split_char.induct)
  case (2 c x xs)
  obtain y ys where s: "split_char c xs = y # ys" by (cases "split_char c xs") auto
  with 2 show ?case by (auto split: if_splits)
qed simp

lemma split_char_free: "c \<notin> set p \<Longrightarrow> split_char c p = [p]"
  by (induction p) auto

lemma split_char_append: "c \<notin> set p \<Longrightarrow> split_char c (p @ c # s) = p # split_char c s"
  by (induction p) auto

lemma split_join_char:
  "ps \<noteq> [] \<Longrightarrow> (\<forall>p \<in> set ps. c \<notin> set p) \<Longrightarrow> split_char c (join_char c ps) = ps"
  by (induction c ps rule: join_char.induct) (auto simp: split_char_free split_char_append)

text \<open>\<^verbatim>\<open>s.split(c, 1)[0]\<close>: what stands before the first \<open>c\<close>.\<close>

definition before_char :: "char \<Rightarrow> string \<Rightarrow> string" where
  "before_char c s = takeWhile (\<lambda>x. x \<noteq> c) s"

text \<open>\<^verbatim>\<open>s.rsplit(c, 1)[-1]\<close>, also \<^verbatim>\<open>os.path.basename\<close> with \<open>c\<close> the slash: what stands after the last \<open>c\<close>.\<close>

definition after_last :: "char \<Rightarrow> string \<Rightarrow> string" where
  "after_last c s = rev (takeWhile (\<lambda>x. x \<noteq> c) (rev s))"

lemma after_last_free: "c \<notin> set (after_last c s)"
  using takeWhile_not_in [of c "rev s"] by (simp add: after_last_def)

lemma before_char_free: "c \<notin> set (before_char c s)"
  by (simp add: before_char_def takeWhile_not_in)

lemma set_after_last: "set (after_last c s) \<subseteq> set s"
  using set_takeWhile_subset [of _ "rev s"] by (simp add: after_last_def)

text \<open>\<^verbatim>\<open>s.split()\<close>: the maximal runs of characters that are not spaces.\<close>

fun split_ws :: "string \<Rightarrow> string list" where
  "split_ws [] = []"
| "split_ws (c # cs) =
     (if is_space c then split_ws cs
      else (c # takeWhile (\<lambda>x. \<not> is_space x) cs) # split_ws (dropWhile (\<lambda>x. \<not> is_space x) cs))"

lemma split_ws_words: "w \<in> set (split_ws s) \<Longrightarrow> w \<noteq> [] \<and> (\<forall>c \<in> set w. \<not> is_space c)"
proof (induction s rule: split_ws.induct)
  case (2 c cs)
  have run: "\<forall>x \<in> set (takeWhile (\<lambda>x. \<not> is_space x) cs). \<not> is_space x"
    by (blast dest: set_takeWhileD)
  show ?case
  proof (cases "is_space c")
    case True
    with 2 show ?thesis by simp
  next
    case False
    then consider (first) "w = c # takeWhile (\<lambda>x. \<not> is_space x) cs"
      | (later) "w \<in> set (split_ws (dropWhile (\<lambda>x. \<not> is_space x) cs))"
      using "2.prems" by auto
    then show ?thesis
    proof cases
      case first
      with False run show ?thesis by simp
    next
      case later
      show ?thesis by (rule "2.IH" (2) [OF False later])
    qed
  qed
qed simp

lemma split_ws_word: "w \<noteq> [] \<Longrightarrow> \<forall>c \<in> set w. \<not> is_space c \<Longrightarrow> split_ws w = [w]"
  by (cases w) (simp_all add: takeWhile_eq_all_conv [THEN iffD2] dropWhile_eq_Nil_conv [THEN iffD2])

text \<open>
  \<^verbatim>\<open>s.split(None, 1)\<close>: at most one cut, at the first run of spaces, the rest
  keeping its own spaces to the right.
\<close>

definition split_ws_once :: "string \<Rightarrow> string list" where
  "split_ws_once s =
     (let t = dropWhile is_space s;
          w = takeWhile (\<lambda>x. \<not> is_space x) t;
          r = dropWhile is_space (dropWhile (\<lambda>x. \<not> is_space x) t)
      in if t = [] then [] else if r = [] then [w] else [w, r])"

text \<open>\<^verbatim>\<open>str.splitlines()\<close>: every line boundary ends a line, and a final one opens no other.\<close>

definition is_line_end :: "char \<Rightarrow> bool" where
  "is_line_end c \<longleftrightarrow> (let n = code c in (10 \<le> n \<and> n \<le> 13) \<or> (28 \<le> n \<and> n \<le> 30) \<or> n = 133)"

definition line_rest :: "char \<Rightarrow> string \<Rightarrow> string" where
  \<comment> \<open>what follows the line end \<open>d\<close>: carriage return and line feed are one boundary\<close>
  "line_rest d ds = (if d = CHR 0x0D \<and> ds \<noteq> [] \<and> hd ds = CHR 0x0A then tl ds else ds)"

lemma length_line_rest [termination_simp]: "length (line_rest d ds) \<le> length ds"
  by (simp add: line_rest_def)

fun line_after :: "string \<Rightarrow> string" where
  "line_after [] = []"
| "line_after (d # ds) = line_rest d ds"

lemma length_line_after: "length (line_after ds) \<le> length ds"
  by (cases ds) (simp_all add: le_SucI length_line_rest)

lemma length_line_after_dropWhile [termination_simp]:
  "length (line_after (dropWhile P cs)) < Suc (length cs)"
  using length_line_after [of "dropWhile P cs"] length_dropWhile_le [of P cs] by simp

fun splitlines :: "string \<Rightarrow> string list" where
  "splitlines [] = []"
| "splitlines (c # cs) =
     (if is_line_end c then [] # splitlines (line_rest c cs)
      else (c # takeWhile (\<lambda>x. \<not> is_line_end x) cs) #
           splitlines (line_after (dropWhile (\<lambda>x. \<not> is_line_end x) cs)))"

section \<open>Searching\<close>

abbreviation startswith :: "string \<Rightarrow> string \<Rightarrow> bool" where
  "startswith s p \<equiv> prefix p s"

definition endswith :: "string \<Rightarrow> string \<Rightarrow> bool" where
  "endswith s p \<longleftrightarrow> prefix (rev p) (rev s)"

text \<open>\<^verbatim>\<open>p in s\<close>.\<close>

fun contains :: "string \<Rightarrow> string \<Rightarrow> bool" where
  "contains p [] = (p = [])"
| "contains p (c # s) = (prefix p (c # s) \<or> contains p s)"

lemma contains_iff_sublist: "contains p s \<longleftrightarrow> sublist p s"
proof (induction s)
  case (Cons c s)
  then show ?case by (simp add: sublist_Cons_right)
qed simp

lemma contains_append_iff: "contains p s \<longleftrightarrow> (\<exists>u v. s = u @ p @ v)"
  by (simp add: contains_iff_sublist sublist_def)

text \<open>\<^verbatim>\<open>s.replace(old, new)\<close> for a one-character \<open>old\<close>.\<close>

definition replace_char :: "char \<Rightarrow> string \<Rightarrow> string \<Rightarrow> string" where
  "replace_char c new s = concat (map (\<lambda>x. if x = c then new else [x]) s)"

lemma replace_char_free: "c \<notin> set s \<Longrightarrow> replace_char c new s = s"
  by (induction s) (auto simp: replace_char_def)

section \<open>Case, numbers\<close>

definition lower_char :: "char \<Rightarrow> char" where
  "lower_char c = (let n = code c in
     if (65 \<le> n \<and> n \<le> 90) \<or> (192 \<le> n \<and> n \<le> 222 \<and> n \<noteq> 215) then char_of (n + 32) else c)"

definition lower :: "string \<Rightarrow> string" where
  "lower = map lower_char"

text \<open>\<^verbatim>\<open>str(n)\<close> of an integer.\<close>

fun str_nat :: "nat \<Rightarrow> string" where
  "str_nat n = (if n < 10 then [char_of (48 + n)] else str_nat (n div 10) @ [char_of (48 + n mod 10)])"

declare str_nat.simps [simp del]

definition str_int :: "int \<Rightarrow> string" where
  "str_int i = (if i < 0 then CHR ''-'' # str_nat (nat (- i)) else str_nat (nat i))"

definition digit_val :: "char \<Rightarrow> nat" where
  "digit_val c = code c - 48"

definition digits_val :: "string \<Rightarrow> nat" where
  "digits_val = foldl (\<lambda>n c. 10 * n + digit_val c) 0"

text \<open>
  \<^verbatim>\<open>int(s)\<close>: surrounding spaces, one sign, digits with single underscores between
  them; at most 4300 digits. \<open>None\<close> is \<^verbatim>\<open>ValueError\<close>.
\<close>

fun digits_us :: "string \<Rightarrow> string option" where
  "digits_us [] = None"
| "digits_us [c] = (if is_digit c then Some [c] else None)"
| "digits_us (c # d # cs) =
     (if is_digit c
      then map_option (\<lambda>ds. c # ds) (digits_us (if d = CHR ''_'' then cs else d # cs))
      else None)"

definition py_int :: "string \<Rightarrow> int option" where
  "py_int s =
     (let t = strip s;
          neg = (t \<noteq> [] \<and> hd t = CHR ''-'');
          body = (if t \<noteq> [] \<and> (hd t = CHR ''-'' \<or> hd t = CHR ''+'') then tl t else t)
      in case digits_us body of
           None \<Rightarrow> None
         | Some ds \<Rightarrow> if length ds > 4300 then None
                      else Some (if neg then - int (digits_val ds) else int (digits_val ds)))"

lemma code_digit: "(n::nat) < 10 \<Longrightarrow> code (char_of (48 + n) :: char) = 48 + n"
  by (simp add: of_char_of)

lemma is_digit_char_of: "(n::nat) < 10 \<Longrightarrow> is_digit (char_of (48 + n))"
  by (simp add: is_digit_def code_digit)

lemma str_nat_digits: "c \<in> set (str_nat n) \<Longrightarrow> is_digit c"
proof (induction n rule: str_nat.induct)
  case (1 n)
  show ?case
  proof (cases "n < 10")
    case True
    with "1.prems" show ?thesis by (simp add: str_nat.simps [of n] is_digit_char_of)
  next
    case False
    with 1 show ?thesis by (auto simp: str_nat.simps [of n] is_digit_char_of)
  qed
qed

lemma str_nat_ne [simp]: "str_nat n \<noteq> []"
  by (subst str_nat.simps) simp

lemma digits_val_snoc: "digits_val (s @ [c]) = 10 * digits_val s + digit_val c"
  by (simp add: digits_val_def)

lemma digits_val_str_nat: "digits_val (str_nat n) = n"
proof (induction n rule: str_nat.induct)
  case (1 n)
  show ?case
  proof (cases "n < 10")
    case True
    then show ?thesis
      by (simp add: str_nat.simps [of n] digits_val_def digit_val_def code_digit)
  next
    case False
    with 1 show ?thesis
      by (simp add: str_nat.simps [of n] digits_val_snoc digit_val_def code_digit)
  qed
qed

lemma str_nat_inj: "str_nat m = str_nat n \<longleftrightarrow> m = n"
  by (metis digits_val_str_nat)

lemma digit_not_space: "is_digit c \<Longrightarrow> \<not> is_space c"
  by (auto simp: is_digit_def is_space_def Let_def)

lemma digits_us_digits: "s \<noteq> [] \<Longrightarrow> \<forall>c \<in> set s. is_digit c \<Longrightarrow> digits_us s = Some s"
proof (induction s rule: digits_us.induct)
  case (3 c d cs)
  then have "d \<noteq> CHR ''_''" by (auto simp: is_digit_def)
  with 3 show ?case by simp
qed simp_all

lemma py_int_str_nat:
  assumes "length (str_nat n) \<le> 4300"
  shows "py_int (str_nat n) = Some (int n)"
proof -
  have dig: "\<forall>c \<in> set (str_nat n). is_digit c" by (simp add: str_nat_digits)
  then have ends: "is_digit (hd (str_nat n))" "is_digit (last (str_nat n))"
    using hd_in_set [OF str_nat_ne] last_in_set [OF str_nat_ne] by blast+
  then have str: "strip (str_nat n) = str_nat n"
    by (intro strip_if_id) (simp add: digit_not_space)
  have "hd (str_nat n) \<noteq> CHR ''-''" "hd (str_nat n) \<noteq> CHR ''+''"
    using ends by (auto simp: is_digit_def)
  with str assms dig show ?thesis
    by (simp add: py_int_def Let_def digits_us_digits digits_val_str_nat)
qed

lemma py_int_str_int: "length (str_nat (nat \<bar>i\<bar>)) \<le> 4300 \<Longrightarrow> py_int (str_int i) = Some i"
proof (cases "i < 0")
  case True
  let ?t = "str_nat (nat (- i))"
  assume len: "length (str_nat (nat \<bar>i\<bar>)) \<le> 4300"
  have dig: "\<forall>c \<in> set ?t. is_digit c" by (simp add: str_nat_digits)
  then have "\<not> is_space (last ?t)" using last_in_set [OF str_nat_ne] digit_not_space by blast
  then have "strip (CHR ''-'' # ?t) = CHR ''-'' # ?t"
    by (intro strip_if_id) (simp add: is_space_def)
  then show ?thesis
    using True len dig by (simp add: str_int_def py_int_def Let_def digits_us_digits digits_val_str_nat)
next
  case False
  then show "length (str_nat (nat \<bar>i\<bar>)) \<le> 4300 \<Longrightarrow> ?thesis" by (simp add: str_int_def py_int_str_nat)
qed

section \<open>Bytes\<close>

text \<open>\<^verbatim>\<open>s.encode()\<close>: UTF-8, one byte below 128 and two from 128 to 255.\<close>

definition utf8_char :: "char \<Rightarrow> char list" where
  "utf8_char c = (let n = code c in
     if n < 128 then [c] else [char_of (192 + n div 64), char_of (128 + n mod 64)])"

definition encode :: "string \<Rightarrow> char list" where
  "encode s = concat (map utf8_char s)"

lemma encode_ascii: "\<forall>c \<in> set s. code c < 128 \<Longrightarrow> encode s = s"
  by (induction s) (simp_all add: encode_def utf8_char_def)

text \<open>
  \<^verbatim>\<open>re.sub("[^...]+", "_", s)\<close>: every maximal run of characters outside the class
  becomes one underscore.
\<close>

fun sub_runs :: "(char \<Rightarrow> bool) \<Rightarrow> string \<Rightarrow> string" where
  "sub_runs ok [] = []"
| "sub_runs ok (c # cs) =
     (if ok c then c # sub_runs ok cs else CHR ''_'' # sub_runs ok (dropWhile (\<lambda>x. \<not> ok x) cs))"

lemma set_sub_runs: "c \<in> set (sub_runs ok s) \<Longrightarrow> ok c \<or> c = CHR ''_''"
  by (induction ok s rule: sub_runs.induct) (auto split: if_splits)

lemma sub_runs_id: "\<forall>c \<in> set s. ok c \<Longrightarrow> sub_runs ok s = s"
  by (induction s) simp_all

text \<open>The character class \<^verbatim>\<open>[A-Za-z0-9._-]\<close> that file names and labels are reduced to.\<close>

definition safe_char :: "char \<Rightarrow> bool" where
  "safe_char c \<longleftrightarrow> is_alpha c \<or> is_digit c \<or> c = CHR ''.'' \<or> c = CHR ''_'' \<or> c = CHR ''-''"

lemma safe_char_simps [simp]:
  "safe_char CHR ''_''" "safe_char CHR ''.''" "safe_char CHR ''-''" "\<not> safe_char CHR ''/''"
  by (simp_all add: safe_char_def is_alpha_def is_digit_def)

lemma safe_char_ascii: "safe_char c \<Longrightarrow> code c < 128"
  by (auto simp: safe_char_def is_alpha_def is_digit_def)

lemma safe_not_space: "safe_char c \<Longrightarrow> \<not> is_space c"
  by (auto simp: safe_char_def is_alpha_def is_digit_def is_space_def Let_def)

lemma strip_sub_safe: "c \<in> set (strip_char x (sub_runs safe_char s)) \<Longrightarrow> safe_char c"
proof -
  assume "c \<in> set (strip_char x (sub_runs safe_char s))"
  then have "c \<in> set (sub_runs safe_char s)" using set_strip_if by blast
  then show ?thesis using set_sub_runs [of c safe_char s] by auto
qed

text \<open>\<^verbatim>\<open>urllib.parse.quote\<close> with its default safe set.\<close>

definition hex_digit :: "nat \<Rightarrow> char" where
  "hex_digit n = (if n < 10 then char_of (48 + n) else char_of (55 + n))"

definition quote_byte :: "char \<Rightarrow> string" where
  "quote_byte b =
     (if safe_char b \<or> b = CHR ''~'' \<or> b = CHR ''/'' then [b]
      else [CHR ''%'', hex_digit (code b div 16), hex_digit (code b mod 16)])"

definition quote :: "string \<Rightarrow> string" where
  "quote s = concat (map quote_byte (encode s))"

lemma quote_safe:
  assumes "\<forall>c \<in> set s. safe_char c"
  shows "quote s = s"
proof -
  have "encode s = s" using assms by (intro encode_ascii) (simp add: safe_char_ascii)
  moreover have "concat (map quote_byte s) = s"
    using assms by (induction s) (simp_all add: quote_byte_def)
  ultimately show ?thesis by (simp add: quote_def)
qed

end
