(* ===== verification/PyVal.thy ===== *)
theory PyVal
  imports PyStr
begin

text \<open>
  Dynamically typed values: what \<^verbatim>\<open>json\<close> and \<^verbatim>\<open>yaml\<close> return and
  what the tools hand back. The accessors raise where Python raises, so that a malformed
  reply of the LAVA API or a malformed job definition is a case of the model. Floats are
  their exact rational values.
\<close>

datatype jval =
    JNull
  | JBool bool
  | JInt int
  | JFloat rat
  | JStr string
  | JList "jval list"
  | JDict "(jval \<times> jval) list"

text \<open>
  The exceptions of the program: its own classes, with what they carry, and the built-in
  ones its code meets.
\<close>

datatype exc =
    GatewayError string
  | ArtifactError string string "(string \<times> int) list"
  | LavaError string
  | PermissionError string
  | RequestException string
  | YAMLError
  | ValueError
  | TypeError
  | KeyError
  | AttributeError
  | FileNotFoundError
  | OSError string
  | StreamError

section \<open>Truth, attributes, membership\<close>

fun truthy :: "jval \<Rightarrow> bool" where
  "truthy JNull = False"
| "truthy (JBool b) = b"
| "truthy (JInt i) = (i \<noteq> 0)"
| "truthy (JFloat x) = (x \<noteq> 0)"
| "truthy (JStr s) = (s \<noteq> [])"
| "truthy (JList xs) = (xs \<noteq> [])"
| "truthy (JDict d) = (d \<noteq> [])"

definition py_or :: "jval \<Rightarrow> jval \<Rightarrow> jval" where
  "py_or a b = (if truthy a then a else b)"

fun is_dict :: "jval \<Rightarrow> bool" where
  "is_dict (JDict d) = True"
| "is_dict _ = False"

definition item_of :: "(jval \<times> jval) list \<Rightarrow> string \<Rightarrow> jval option" where
  "item_of d k = dict_get d (JStr k)"

text \<open>\<^verbatim>\<open>v.get(k, default)\<close>: only dictionaries have the method.\<close>

definition py_get :: "jval \<Rightarrow> string \<Rightarrow> jval \<Rightarrow> exc + jval" where
  "py_get v k dflt = (case v of
      JDict d \<Rightarrow> Inr (case item_of d k of None \<Rightarrow> dflt | Some x \<Rightarrow> x)
    | _ \<Rightarrow> Inl AttributeError)"

text \<open>\<^verbatim>\<open>k in v\<close> for a string \<open>k\<close>.\<close>

definition py_in :: "string \<Rightarrow> jval \<Rightarrow> exc + bool" where
  "py_in k v = (case v of
      JDict d \<Rightarrow> Inr (item_of d k \<noteq> None)
    | JList xs \<Rightarrow> Inr (JStr k \<in> set xs)
    | JStr s \<Rightarrow> Inr (contains k s)
    | _ \<Rightarrow> Inl TypeError)"

text \<open>\<^verbatim>\<open>for x in v\<close>.\<close>

definition py_iter :: "jval \<Rightarrow> exc + jval list" where
  "py_iter v = (case v of
      JList xs \<Rightarrow> Inr xs
    | JDict d \<Rightarrow> Inr (map fst d)
    | JStr s \<Rightarrow> Inr (map (\<lambda>c. JStr [c]) s)
    | _ \<Rightarrow> Inl TypeError)"

text \<open>\<^verbatim>\<open>v.values()\<close> and \<^verbatim>\<open>v.keys()\<close>.\<close>

definition py_values :: "jval \<Rightarrow> exc + jval list" where
  "py_values v = (case v of JDict d \<Rightarrow> Inr (map snd d) | _ \<Rightarrow> Inl AttributeError)"

definition py_keys :: "jval \<Rightarrow> exc + jval list" where
  "py_keys v = (case v of JDict d \<Rightarrow> Inr (map fst d) | _ \<Rightarrow> Inl AttributeError)"

definition py_len :: "jval \<Rightarrow> exc + int" where
  "py_len v = (case v of
      JList xs \<Rightarrow> Inr (int (length xs))
    | JDict d \<Rightarrow> Inr (int (length d))
    | JStr s \<Rightarrow> Inr (int (length s))
    | _ \<Rightarrow> Inl TypeError)"

lemma truthy_py_or: "truthy (py_or a b) \<longleftrightarrow> truthy a \<or> truthy b"
  by (simp add: py_or_def)

lemma is_dict_iff: "is_dict v \<longleftrightarrow> (\<exists>d. v = JDict d)"
  by (cases v) simp_all

lemma py_get_dict [simp]:
  "py_get (JDict d) k v = Inr (case item_of d k of None \<Rightarrow> v | Some x \<Rightarrow> x)"
  by (simp add: py_get_def)

lemma py_get_Inl_iff: "py_get v k dflt = Inl e \<longleftrightarrow> \<not> is_dict v \<and> e = AttributeError"
  by (cases v) (auto simp: py_get_def)

lemma item_of_Cons [simp]:
  "item_of ((JStr k', v) # d) k = (if k = k' then Some v else item_of d k)"
  by (simp add: item_of_def)

lemma item_of_Nil [simp]: "item_of [] k = None"
  by (simp add: item_of_def)

section \<open>Dictionaries with string keys\<close>

text \<open>The literal \<^verbatim>\<open>{"k": v, ...}\<close>.\<close>

definition obj :: "(string \<times> jval) list \<Rightarrow> jval" where
  "obj kvs = JDict (map (\<lambda>(k, v). (JStr k, v)) kvs)"

definition jopt :: "('a \<Rightarrow> jval) \<Rightarrow> 'a option \<Rightarrow> jval" where
  "jopt f x = (case x of None \<Rightarrow> JNull | Some y \<Rightarrow> f y)"

lemma jopt_simps [simp]: "jopt f None = JNull" "jopt f (Some y) = f y"
  by (simp_all add: jopt_def)

lemma item_of_obj: "item_of (map (\<lambda>(k, v). (JStr k, v)) kvs) k = map_of kvs k"
  by (induction kvs) (auto simp: item_of_def)

lemma py_get_obj [simp]:
  "py_get (obj kvs) k dflt = Inr (case map_of kvs k of None \<Rightarrow> dflt | Some x \<Rightarrow> x)"
  by (simp add: obj_def item_of_obj)

section \<open>Printing\<close>

text \<open>
  \<^verbatim>\<open>repr\<close> of a string: single quotes unless the string has one and no double
  quote; backslash, the quote and control characters escaped.
\<close>

definition hex_low :: "nat \<Rightarrow> char" where
  "hex_low n = (if n < 10 then char_of (48 + n) else char_of (87 + n))"

definition repr_char :: "char \<Rightarrow> char \<Rightarrow> string" where
  "repr_char q c = (let n = code c in
     if c = q \<or> n = 92 then [char_of (92::nat), c]
     else if n = 9 then [char_of (92::nat), CHR ''t'']
     else if n = 10 then [char_of (92::nat), CHR ''n'']
     else if n = 13 then [char_of (92::nat), CHR ''r'']
     else if n < 32 \<or> (127 \<le> n \<and> n \<le> 160) \<or> n = 173
       then [char_of (92::nat), CHR ''x'', hex_low (n div 16), hex_low (n mod 16)]
     else [c])"

definition repr_str :: "string \<Rightarrow> string" where
  "repr_str s =
     (let q = (if char_of (39::nat) \<in> set s \<and> char_of (34::nat) \<notin> set s
               then char_of (34::nat) else char_of (39::nat))
      in [q] @ concat (map (repr_char q) s) @ [q])"

text \<open>
  \<^verbatim>\<open>str(v)\<close> of any value. How the interpreter prints a float is the argument
  \<open>fr\<close>.
\<close>

definition comma_sep :: "string list \<Rightarrow> string" where
  "comma_sep ss = concat (map (\<lambda>(i, s). (if i = (0::nat) then s else '', '' @ s)) (enumerate 0 ss))"

fun py_repr :: "(rat \<Rightarrow> string) \<Rightarrow> jval \<Rightarrow> string" where
  "py_repr fr JNull = ''None''"
| "py_repr fr (JBool b) = (if b then ''True'' else ''False'')"
| "py_repr fr (JInt i) = str_int i"
| "py_repr fr (JFloat x) = fr x"
| "py_repr fr (JStr s) = repr_str s"
| "py_repr fr (JList xs) = ''['' @ comma_sep (map (py_repr fr) xs) @ '']''"
| "py_repr fr (JDict d) =
     CHR 0x7B # comma_sep (map (\<lambda>(k, v). py_repr fr k @ '': '' @ py_repr fr v) d) @ [CHR 0x7D]"

definition py_str :: "(rat \<Rightarrow> string) \<Rightarrow> jval \<Rightarrow> string" where
  "py_str fr v = (case v of JStr s \<Rightarrow> s | _ \<Rightarrow> py_repr fr v)"

section \<open>Sorting keys\<close>

text \<open>
  \<^verbatim>\<open>sorted(keys)\<close>: strings by code points, a single key is already sorted,
  anything else among several keys has no order with strings and raises.
\<close>

fun str_le :: "string \<Rightarrow> string \<Rightarrow> bool" where
  "str_le [] t = True"
| "str_le (c # s) [] = False"
| "str_le (c # s) (d # t) = (code c < (code d :: nat) \<or> (c = d \<and> str_le s t))"

fun insert_sorted :: "string \<Rightarrow> string list \<Rightarrow> string list" where
  "insert_sorted x [] = [x]"
| "insert_sorted x (y # ys) = (if str_le x y then x # y # ys else y # insert_sorted x ys)"

definition sort_strs :: "string list \<Rightarrow> string list" where
  "sort_strs xs = foldr insert_sorted xs []"

lemma str_le_refl: "str_le s s"
  by (induction s) simp_all

lemma code_inj: "code c = (code d :: nat) \<longleftrightarrow> c = d"
  by (simp add: inj_of_char [THEN inj_eq])

lemma str_le_total: "str_le s t \<or> str_le t s"
proof (induction s t rule: str_le.induct)
  case (3 c s d t)
  then show ?case
    using code_inj [of c d] by (cases "code c" "code d :: nat" rule: linorder_cases) auto
qed simp_all

lemma str_le_trans: "str_le s t \<Longrightarrow> str_le t u \<Longrightarrow> str_le s u"
proof (induction s t arbitrary: u rule: str_le.induct)
  case (3 c s d t)
  then show ?case by (cases u) auto
qed simp_all

lemma str_le_antisym: "str_le s t \<Longrightarrow> str_le t s \<Longrightarrow> s = t"
proof (induction s t rule: str_le.induct)
  case (1 t)
  then show ?case by (cases t) simp_all
qed auto

lemma set_insert_sorted: "set (insert_sorted x ys) = insert x (set ys)"
  by (induction ys) auto

lemma sorted_insert_sorted: "sorted_wrt str_le ys \<Longrightarrow> sorted_wrt str_le (insert_sorted x ys)"
proof (induction ys)
  case (Cons y ys)
  then show ?case
    using str_le_total [of x y] by (auto simp: set_insert_sorted intro: str_le_trans)
qed simp

lemma sort_strs_correct: "sorted_wrt str_le (sort_strs xs) \<and> set (sort_strs xs) = set xs"
  by (induction xs) (auto simp: sort_strs_def sorted_insert_sorted set_insert_sorted)

lemma length_sort_strs: "length (sort_strs xs) = length xs"
proof -
  have ins: "length (insert_sorted x ys) = Suc (length ys)" for x ys
    by (induction ys) simp_all
  show ?thesis by (induction xs) (simp_all add: sort_strs_def ins)
qed

end
