(* ===== verification/Sha256.thy ===== *)
theory Sha256
  imports PyStr "HOL-Library.Word"
begin

text \<open>
  \<^verbatim>\<open>hashlib.sha256(data).hexdigest()\<close>, which the artifact store keeps in place of
  a token: the SHA-256 function on a list of bytes (characters), in 32-bit words, and its
  lower-case hexadecimal rendering.
\<close>

unbundle bit_operations_syntax

type_synonym w32 = "32 word"

section \<open>The compression function\<close>

definition k256 :: "w32 list" where
  "k256 =
  [0x428A2F98, 0x71374491, 0xB5C0FBCF, 0xE9B5DBA5, 0x3956C25B, 0x59F111F1, 0x923F82A4, 0xAB1C5ED5,
   0xD807AA98, 0x12835B01, 0x243185BE, 0x550C7DC3, 0x72BE5D74, 0x80DEB1FE, 0x9BDC06A7, 0xC19BF174,
   0xE49B69C1, 0xEFBE4786, 0x0FC19DC6, 0x240CA1CC, 0x2DE92C6F, 0x4A7484AA, 0x5CB0A9DC, 0x76F988DA,
   0x983E5152, 0xA831C66D, 0xB00327C8, 0xBF597FC7, 0xC6E00BF3, 0xD5A79147, 0x06CA6351, 0x14292967,
   0x27B70A85, 0x2E1B2138, 0x4D2C6DFC, 0x53380D13, 0x650A7354, 0x766A0ABB, 0x81C2C92E, 0x92722C85,
   0xA2BFE8A1, 0xA81A664B, 0xC24B8B70, 0xC76C51A3, 0xD192E819, 0xD6990624, 0xF40E3585, 0x106AA070,
   0x19A4C116, 0x1E376C08, 0x2748774C, 0x34B0BCB5, 0x391C0CB3, 0x4ED8AA4A, 0x5B9CCA4F, 0x682E6FF3,
   0x748F82EE, 0x78A5636F, 0x84C87814, 0x8CC70208, 0x90BEFFFA, 0xA4506CEB, 0xBEF9A3F7, 0xC67178F2]"

definition init256 :: "w32 list" where
  "init256 =
  [0x6A09E667, 0xBB67AE85, 0x3C6EF372, 0xA54FF53A, 0x510E527F, 0x9B05688C, 0x1F83D9AB, 0x5BE0CD19]"

definition ssig0 :: "w32 \<Rightarrow> w32" where
  "ssig0 x = word_rotr 7 x XOR word_rotr 18 x XOR drop_bit 3 x"

definition ssig1 :: "w32 \<Rightarrow> w32" where
  "ssig1 x = word_rotr 17 x XOR word_rotr 19 x XOR drop_bit 10 x"

definition bsig0 :: "w32 \<Rightarrow> w32" where
  "bsig0 x = word_rotr 2 x XOR word_rotr 13 x XOR word_rotr 22 x"

definition bsig1 :: "w32 \<Rightarrow> w32" where
  "bsig1 x = word_rotr 6 x XOR word_rotr 11 x XOR word_rotr 25 x"

text \<open>
  The message schedule, latest word first: the word for round \<open>t\<close> comes from those of
  rounds \<open>t - 2\<close>, \<open>t - 7\<close>, \<open>t - 15\<close> and \<open>t - 16\<close>.
\<close>

fun extend_schedule :: "nat \<Rightarrow> w32 list \<Rightarrow> w32 list" where
  "extend_schedule 0 ws = ws"
| "extend_schedule (Suc n) ws =
     extend_schedule n ((ssig1 (ws ! 1) + ws ! 6 + ssig0 (ws ! 14) + ws ! 15) # ws)"

definition schedule :: "w32 list \<Rightarrow> w32 list" where
  "schedule block = rev (extend_schedule 48 (rev block))"

type_synonym hash_state = "w32 \<times> w32 \<times> w32 \<times> w32 \<times> w32 \<times> w32 \<times> w32 \<times> w32"

fun round256 :: "w32 \<times> w32 \<Rightarrow> hash_state \<Rightarrow> hash_state" where
  "round256 (k, w) (a, b, c, d, e, f, g, h) =
     (let t1 = h + bsig1 e + ((e AND f) XOR (NOT e AND g)) + k + w;
          t2 = bsig0 a + ((a AND b) XOR (a AND c) XOR (b AND c))
      in (t1 + t2, a, b, c, d + t1, e, f, g))"

definition compress :: "w32 list \<Rightarrow> w32 list \<Rightarrow> w32 list" where
  "compress h block =
     (case fold round256 (zip k256 (schedule block))
             (h ! 0, h ! 1, h ! 2, h ! 3, h ! 4, h ! 5, h ! 6, h ! 7) of
        (a, b, c, d, e, f, g, x) \<Rightarrow>
          [h ! 0 + a, h ! 1 + b, h ! 2 + c, h ! 3 + d, h ! 4 + e, h ! 5 + f, h ! 6 + g, h ! 7 + x])"

section \<open>Padding and blocks\<close>

fun be_bytes :: "nat \<Rightarrow> nat \<Rightarrow> nat list" where
  "be_bytes 0 n = []"
| "be_bytes (Suc k) n = be_bytes k (n div 256) @ [n mod 256]"

definition pad :: "nat list \<Rightarrow> nat list" where
  "pad m = m @ [128] @ replicate ((119 - length m mod 64) mod 64) 0 @ be_bytes 8 (8 * length m)"

fun words_of :: "nat list \<Rightarrow> w32 list" where
  "words_of (a # b # c # d # xs) =
     (push_bit 24 (of_nat a) OR push_bit 16 (of_nat b) OR push_bit 8 (of_nat c) OR of_nat d) # words_of xs"
| "words_of _ = []"

fun blocks_of :: "w32 list \<Rightarrow> w32 list list" where
  "blocks_of [] = []"
| "blocks_of (w # ws) = take 16 (w # ws) # blocks_of (drop 15 ws)"

definition sha256 :: "nat list \<Rightarrow> w32 list" where
  "sha256 m = foldl compress init256 (blocks_of (words_of (pad m)))"

definition hex_word :: "w32 \<Rightarrow> string" where
  "hex_word w = map (\<lambda>i. let d = unat (drop_bit (4 * i) w) mod 16
                         in char_of (if d < 10 then 48 + d else 87 + d)) (rev [0..<8])"

text \<open>\<^verbatim>\<open>hashlib.sha256(bytes).hexdigest()\<close>\<close>

definition sha256_hex :: "char list \<Rightarrow> string" where
  "sha256_hex bytes = concat (map hex_word (sha256 (map of_char bytes)))"

section \<open>The shape of a digest\<close>

lemma length_hex_word [simp]: "length (hex_word w) = 8"
  by (simp add: hex_word_def)

lemma hex_char: "(d::nat) < 16 \<Longrightarrow> is_hex_lower (char_of (if d < 10 then 48 + d else 87 + d))"
  by (simp add: is_hex_lower_def is_digit_def of_char_of)

lemma hex_word_hex: "c \<in> set (hex_word w) \<Longrightarrow> is_hex_lower c"
  by (auto simp: hex_word_def Let_def intro!: hex_char)

lemma length_compress [simp]: "length (compress h b) = 8"
  by (simp add: compress_def split: prod.splits)

lemma length_foldl_compress: "length h = 8 \<Longrightarrow> length (foldl compress h bs) = 8"
  by (induction bs arbitrary: h) simp_all

lemma length_sha256 [simp]: "length (sha256 m) = 8"
  unfolding sha256_def by (rule length_foldl_compress) (simp add: init256_def)

lemma length_concat_const: "\<forall>x \<in> set xs. length x = n \<Longrightarrow> length (concat xs) = n * length xs"
  by (induction xs) simp_all

lemma length_sha256_hex [simp]: "length (sha256_hex bs) = 64"
  by (simp add: sha256_hex_def length_concat_const [where n = 8])

lemma sha256_hex_chars: "c \<in> set (sha256_hex bs) \<Longrightarrow> is_hex_lower c"
  by (auto simp: sha256_hex_def dest: hex_word_hex)

lemma length_be_bytes [simp]: "length (be_bytes k n) = k"
  by (induction k n rule: be_bytes.induct) simp_all

lemma pad_arith: "r < 64 \<Longrightarrow> l = 64 * q + r \<Longrightarrow> l + 9 + (119 - r) = 64 * (q + 2)" for l :: nat
  by simp

lemma length_pad: "length (pad m) mod 64 = 0"
proof -
  have "length (pad m) = length m + 9 + (119 - length m mod 64) mod 64"
    by (simp add: pad_def)
  also have "\<dots> mod 64 = (length m + 9 + (119 - length m mod 64)) mod 64"
    by (rule mod_add_right_eq)
  also have "length m + 9 + (119 - length m mod 64) = 64 * (length m div 64 + 2)"
    by (rule pad_arith) simp_all
  finally show ?thesis by simp
qed

end
