(* ===== verification/Artifacts.thy ===== *)
theory Artifacts
  imports PyVal Sha256
begin

text \<open>
  The temporary artifact store, \<^verbatim>\<open>lava_mcp/artifacts.py\<close>: its metadata records
  and their JSON sidecars, the files under its root, admission, the life cycle
  (create, get, delete, reap), and the queue of LAVA tokens awaiting deletion. Times are
  exact numbers of seconds, the clock, the disk usage and the random identifiers are
  arguments. Streaming uploads are in the theory \<open>Uploads\<close>.
\<close>

section \<open>File names\<close>

definition safe_filename :: "string \<Rightarrow> string" where
  "safe_filename name =
     (let base = lstrip_char CHR ''.'' (after_last CHR ''/'' (strip name));
          cleaned = strip_char CHR ''_'' (sub_runs safe_char base)
      in if cleaned = [] then ''artifact'' else cleaned)"

lemma safe_artifact: "\<forall>c \<in> set ''artifact''. safe_char c"
  by (simp add: safe_char_def is_alpha_def)

lemma safe_filename_chars: "c \<in> set (safe_filename name) \<Longrightarrow> safe_char c"
  using safe_artifact strip_sub_safe
  by (auto simp only: safe_filename_def Let_def split: if_splits)

lemma safe_filename_ne: "safe_filename name \<noteq> []"
  by (simp add: safe_filename_def Let_def)

section \<open>Metadata\<close>

record artifact =
  artifact_id :: string
  filename :: string
  a_owner :: string
  token_hash :: string
  size_declared :: int
  created :: rat
  expires :: rat
  a_state :: string
  size_actual :: "int option"
  bind_job_id :: "int option"
  lava_token_name :: "string option"

definition expired :: "rat \<Rightarrow> artifact \<Rightarrow> bool" where
  "expired now a \<longleftrightarrow> now \<ge> expires a"

definition artifact_view :: "artifact \<Rightarrow> jval" where
  "artifact_view a = obj [
     (''artifact_id'', JStr (artifact_id a)),
     (''filename'', JStr (filename a)),
     (''state'', JStr (a_state a)),
     (''size_declared'', JInt (size_declared a)),
     (''size_actual'', jopt JInt (size_actual a)),
     (''created'', JFloat (created a)),
     (''expires'', JFloat (expires a)),
     (''bind_job_id'', jopt JInt (bind_job_id a))]"

text \<open>\<^verbatim>\<open>dataclasses.asdict\<close>: the fields in their order.\<close>

definition asdict :: "artifact \<Rightarrow> jval" where
  "asdict a = obj [
     (''artifact_id'', JStr (artifact_id a)),
     (''filename'', JStr (filename a)),
     (''owner'', JStr (a_owner a)),
     (''token_hash'', JStr (token_hash a)),
     (''size_declared'', JInt (size_declared a)),
     (''created'', JFloat (created a)),
     (''expires'', JFloat (expires a)),
     (''state'', JStr (a_state a)),
     (''size_actual'', jopt JInt (size_actual a)),
     (''bind_job_id'', jopt JInt (bind_job_id a)),
     (''lava_token_name'', jopt JStr (lava_token_name a))]"

text \<open>
  \<^verbatim>\<open>Artifact(**data)\<close>: the seven fields without default must be there, the four
  others default, an unknown key raises. (The dataclass itself does not look at the types
  of the values; a sidecar with a value of another type, which the store never writes, is
  read as unusable here.)
\<close>

definition art_fields :: "string list" where
  "art_fields = [''artifact_id'', ''filename'', ''owner'', ''token_hash'', ''size_declared'',
     ''created'', ''expires'', ''state'', ''size_actual'', ''bind_job_id'', ''lava_token_name'']"

fun as_str :: "jval \<Rightarrow> exc + string" where
  "as_str (JStr s) = Inr s"
| "as_str _ = Inl TypeError"

fun as_int :: "jval \<Rightarrow> exc + int" where
  "as_int (JInt i) = Inr i"
| "as_int _ = Inl TypeError"

fun as_time :: "jval \<Rightarrow> exc + rat" where
  "as_time (JFloat x) = Inr x"
| "as_time (JInt i) = Inr (of_int i)"
| "as_time _ = Inl TypeError"

fun as_opt :: "(jval \<Rightarrow> exc + 'a) \<Rightarrow> jval \<Rightarrow> exc + 'a option" where
  "as_opt f JNull = Inr None"
| "as_opt f v = bind_res (f v) (\<lambda>x. Inr (Some x))"

definition field :: "(jval \<times> jval) list \<Rightarrow> string \<Rightarrow> exc + jval" where
  "field d k = (case item_of d k of None \<Rightarrow> Inl TypeError | Some v \<Rightarrow> Inr v)"

definition field_or :: "(jval \<times> jval) list \<Rightarrow> string \<Rightarrow> jval \<Rightarrow> jval" where
  "field_or d k v = (case item_of d k of None \<Rightarrow> v | Some x \<Rightarrow> x)"

definition artifact_of_json :: "jval \<Rightarrow> exc + artifact" where
  "artifact_of_json v = (case v of
      JDict d \<Rightarrow>
        if \<not> set (map fst d) \<subseteq> set (map JStr art_fields) then Inl TypeError
        else bind_res (bind_res (field d ''artifact_id'') as_str) (\<lambda>i.
             bind_res (bind_res (field d ''filename'') as_str) (\<lambda>f.
             bind_res (bind_res (field d ''owner'') as_str) (\<lambda>own.
             bind_res (bind_res (field d ''token_hash'') as_str) (\<lambda>h.
             bind_res (bind_res (field d ''size_declared'') as_int) (\<lambda>n.
             bind_res (bind_res (field d ''created'') as_time) (\<lambda>c.
             bind_res (bind_res (field d ''expires'') as_time) (\<lambda>x.
             bind_res (as_str (field_or d ''state'' (JStr ''await_upload''))) (\<lambda>st.
             bind_res (as_opt as_int (field_or d ''size_actual'' JNull)) (\<lambda>sz.
             bind_res (as_opt as_int (field_or d ''bind_job_id'' JNull)) (\<lambda>j.
             bind_res (as_opt as_str (field_or d ''lava_token_name'' JNull)) (\<lambda>t.
               Inr \<lparr>artifact_id = i, filename = f, a_owner = own, token_hash = h,
                    size_declared = n, created = c, expires = x, a_state = st,
                    size_actual = sz, bind_job_id = j, lava_token_name = t\<rparr>)))))))))))
    | _ \<Rightarrow> Inl TypeError)"

lemma as_opt_jopt [simp]:
  "as_opt as_int (jopt JInt x) = Inr x" "as_opt as_str (jopt JStr y) = Inr y"
  by (cases x; simp) (cases y; simp)

lemma artifact_of_asdict: "artifact_of_json (asdict a) = Inr a"
  by (simp add: artifact_of_json_def asdict_def obj_def field_def field_or_def art_fields_def)

section \<open>Files under the root\<close>

text \<open>
  A name is one of the three paths of an artifact; it points to an inode, so that a file
  renamed while it is open stays the file its handle writes to. A sidecar is the JSON
  value its text denotes.
\<close>

datatype fname = MetaPath string | BlobPath string | PartPath string

datatype content = Doc jval | Junk | Bytes "char list"

record fs =
  fdir :: "fname \<Rightarrow> nat option"
  fdata :: "nat \<Rightarrow> content"
  fnext :: nat

definition fs_empty :: fs where
  "fs_empty = \<lparr>fdir = (\<lambda>_. None), fdata = (\<lambda>_. Bytes []), fnext = 0\<rparr>"

definition fs_read :: "fs \<Rightarrow> fname \<Rightarrow> content option" where
  "fs_read f n = map_option (fdata f) (fdir f n)"

text \<open>Opening for writing truncates the file that is there, or makes a new one.\<close>

definition fs_put :: "fname \<Rightarrow> content \<Rightarrow> fs \<Rightarrow> fs" where
  "fs_put n c f = (case fdir f n of
      Some i \<Rightarrow> f\<lparr>fdata := (fdata f)(i := c)\<rparr>
    | None \<Rightarrow> f\<lparr>fdir := (fdir f)(n := Some (fnext f)), fdata := (fdata f)(fnext f := c),
               fnext := Suc (fnext f)\<rparr>)"

definition fs_unlink :: "fname \<Rightarrow> fs \<Rightarrow> fs" where
  "fs_unlink n f = f\<lparr>fdir := (fdir f)(n := None)\<rparr>"

definition fs_rename :: "fname \<Rightarrow> fname \<Rightarrow> fs \<Rightarrow> fs option" where
  "fs_rename a b f = (case fdir f a of
      None \<Rightarrow> None
    | Some i \<Rightarrow> Some (f\<lparr>fdir := (fdir f)(b := Some i, a := None)\<rparr>))"

text \<open>Every name points to an inode that was handed out, and no two names share one.\<close>

definition fs_ok :: "fs \<Rightarrow> bool" where
  "fs_ok f \<longleftrightarrow> (\<forall>n i. fdir f n = Some i \<longrightarrow> i < fnext f) \<and>
     (\<forall>n m i. fdir f n = Some i \<longrightarrow> fdir f m = Some i \<longrightarrow> n = m)"

lemma fs_ok_empty [simp]: "fs_ok fs_empty"
  by (simp add: fs_ok_def fs_empty_def)

lemma fs_ok_put [simp]: "fs_ok f \<Longrightarrow> fs_ok (fs_put n c f)"
  by (force simp: fs_ok_def fs_put_def less_SucI split: option.splits)

lemma fs_ok_unlink [simp]: "fs_ok f \<Longrightarrow> fs_ok (fs_unlink n f)"
  unfolding fs_ok_def fs_unlink_def by (auto split: if_splits)

lemma fs_ok_rename: "fs_ok f \<Longrightarrow> fs_rename a b f = Some g \<Longrightarrow> fs_ok g"
  unfolding fs_ok_def fs_rename_def by (auto split: option.splits if_splits)

lemma fs_read_put:
  "fs_ok f \<Longrightarrow> fs_read (fs_put n c f) m = (if m = n then Some c else fs_read f m)"
proof -
  assume ok: "fs_ok f"
  show ?thesis
  proof (cases "fdir f n")
    case None
    from ok have fresh: "fdir f m = Some i \<Longrightarrow> i \<noteq> fnext f" for i by (auto simp: fs_ok_def)
    show ?thesis
    proof (cases "fdir f m")
      case None
      with \<open>fdir f n = None\<close> show ?thesis by (simp add: fs_read_def fs_put_def)
    next
      case (Some i)
      with fresh [OF Some] \<open>fdir f n = None\<close> show ?thesis
        by (auto simp: fs_read_def fs_put_def)
    qed
  next
    case (Some i)
    from ok Some have only: "fdir f m = Some i \<Longrightarrow> m = n" by (auto simp: fs_ok_def)
    with Some show ?thesis
      by (cases "fdir f m") (auto simp: fs_read_def fs_put_def)
  qed
qed

lemma fs_read_unlink [simp]:
  "fs_read (fs_unlink n f) m = (if m = n then None else fs_read f m)"
  by (simp add: fs_read_def fs_unlink_def)

lemma fs_read_rename:
  "fs_rename a b f = Some g \<Longrightarrow>
     fs_read g m = (if m = a then None else if m = b then fs_read f a else fs_read f m)"
  by (auto simp: fs_rename_def fs_read_def split: option.splits)

lemma fs_rename_None_iff: "fs_rename a b f = None \<longleftrightarrow> fs_read f a = None"
  by (simp add: fs_rename_def fs_read_def split: option.splits)

section \<open>The store\<close>

text \<open>The settings, the registry of metadata objects, the queue, the files.\<close>

record store_cfg =
  base_url :: string
  ttl_default :: rat
  ttl_max :: rat
  max_bytes :: int
  min_free_fraction :: rat

record disk =
  disk_total :: int
  disk_free :: int

text \<open>
  Metadata objects are shared and mutable: \<open>objs\<close> holds every object made, the registry
  \<open>arts\<close> (\<^verbatim>\<open>self._artifacts\<close>) maps an id to its object, and an upload keeps
  the object it was given even when the registry drops it. \<open>pending\<close> is the set of
  \<^verbatim>\<open>(owner, lava_token_name)\<close> pairs, as a list without duplicates.
\<close>

record store =
  objs :: "artifact list"
  arts :: "(string, nat) dict"
  pending :: "(string \<times> string) list"
  files :: fs

definition obj_at :: "store \<Rightarrow> nat \<Rightarrow> artifact" where
  "obj_at s r = objs s ! r"

definition live :: "store \<Rightarrow> string \<Rightarrow> artifact option" where
  "live s i = map_option (obj_at s) (dict_get (arts s) i)"

definition persist :: "artifact \<Rightarrow> store \<Rightarrow> store" where
  "persist a s = s\<lparr>files := fs_put (MetaPath (artifact_id a)) (Doc (asdict a)) (files s)\<rparr>"

definition remove_files :: "string \<Rightarrow> fs \<Rightarrow> fs" where
  "remove_files i f = fs_unlink (PartPath i) (fs_unlink (BlobPath i) (fs_unlink (MetaPath i) f))"

subsection \<open>Loading\<close>

text \<open>
  \<^verbatim>\<open>_load\<close> walks the sidecars \<open>ids\<close> of the root in the order the file system
  gives them. An unreadable one is skipped.
\<close>

fun load_one :: "fs \<Rightarrow> string \<Rightarrow> store \<Rightarrow> store" where
  "load_one f i s = (case fs_read f (MetaPath i) of
      Some (Doc v) \<Rightarrow> (case artifact_of_json v of
          Inl e \<Rightarrow> s
        | Inr a \<Rightarrow> s\<lparr>objs := objs s @ [a], arts := dict_set (artifact_id a) (length (objs s)) (arts s)\<rparr>)
    | _ \<Rightarrow> s)"

definition load :: "string list \<Rightarrow> fs \<Rightarrow> store" where
  "load ids f = fold (load_one f) ids \<lparr>objs = [], arts = [], pending = [], files = f\<rparr>"

subsection \<open>Disk accounting and admission\<close>

text \<open>\<^verbatim>\<open>int(x)\<close> of a float drops the fraction.\<close>

definition trunc :: "rat \<Rightarrow> int" where
  "trunc x = (if 0 \<le> x then \<lfloor>x\<rfloor> else \<lceil>x\<rceil>)"

definition headroom_bytes :: "store_cfg \<Rightarrow> disk \<Rightarrow> int" where
  "headroom_bytes cfg d =
     (let fl = trunc (min_free_fraction cfg * of_int (disk_total d)) in max (disk_free d - fl) 0)"

definition check_admission :: "store_cfg \<Rightarrow> disk \<Rightarrow> int \<Rightarrow> exc + unit" where
  "check_admission cfg d size_bytes =
     (if size_bytes < 0 then Inl (ArtifactError ''size must be non-negative'' ''negative_size'' [])
      else if size_bytes > max_bytes cfg then
        Inl (ArtifactError
          (''artifact too large: '' @ str_int size_bytes @ '' bytes exceeds the '' @
           str_int (max_bytes cfg) @ ''-byte per-artifact cap'')
          ''exceeds_cap''
          [(''needed_bytes'', size_bytes), (''max_artifact_bytes'', max_bytes cfg)])
      else (let headroom = headroom_bytes cfg d in
        if size_bytes > headroom then
          Inl (ArtifactError
            (''insufficient disk: this upload would leave less than '' @
             str_int (trunc (min_free_fraction cfg * 100)) @ ''% free on the artifact volume'')
            ''insufficient_disk''
            [(''needed_bytes'', size_bytes), (''acceptable_bytes_now'', headroom)])
        else Inr ()))"

lemma check_admission_ok_iff:
  "check_admission cfg d n = Inr () \<longleftrightarrow> 0 \<le> n \<and> n \<le> max_bytes cfg \<and> n \<le> headroom_bytes cfg d"
  by (simp add: check_admission_def Let_def)

lemma check_admission_error:
  "check_admission cfg d n = Inl e \<Longrightarrow> \<exists>m r ds. e = ArtifactError m r ds \<and>
     r \<in> {''negative_size'', ''exceeds_cap'', ''insufficient_disk''}"
  by (auto simp: check_admission_def Let_def split: if_splits)

lemma headroom_nonneg: "0 \<le> headroom_bytes cfg d"
  by (simp add: headroom_bytes_def Let_def)

subsection \<open>Retention\<close>

definition queue_token :: "artifact \<Rightarrow> (string \<times> string) list \<Rightarrow> (string \<times> string) list" where
  "queue_token a q = (case lava_token_name a of
      None \<Rightarrow> q
    | Some n \<Rightarrow> if n = [] \<or> (a_owner a, n) \<in> set q then q else q @ [(a_owner a, n)])"

definition reap_one :: "artifact \<Rightarrow> store \<Rightarrow> store" where
  "reap_one a s = s\<lparr>arts := dict_pop (artifact_id a) (arts s),
     files := remove_files (artifact_id a) (files s),
     pending := queue_token a (pending s)\<rparr>"

definition expired_refs :: "rat \<Rightarrow> store \<Rightarrow> nat list" where
  "expired_refs now s = filter (\<lambda>r. expired now (obj_at s r)) (map snd (arts s))"

definition reap :: "rat \<Rightarrow> store \<Rightarrow> nat list \<times> store" where
  "reap now s = (let dead = expired_refs now s in (dead, fold (\<lambda>r. reap_one (obj_at s r)) dead s))"

definition take_pending :: "string \<Rightarrow> store \<Rightarrow> string list \<times> store" where
  "take_pending own s =
     (let taken = [n. (o1, n) \<leftarrow> pending s, o1 = own]
      in (taken, s\<lparr>pending := filter (\<lambda>p. p \<notin> set (map (\<lambda>n. (own, n)) taken)) (pending s)\<rparr>))"

subsection \<open>Life cycle\<close>

definition hash_token :: "string \<Rightarrow> string" where
  "hash_token token = sha256_hex (encode token)"

definition clamp_ttl :: "store_cfg \<Rightarrow> rat option \<Rightarrow> rat" where
  "clamp_ttl cfg ttl_seconds =
     (let ttl = (case ttl_seconds of None \<Rightarrow> ttl_default cfg | Some t \<Rightarrow> t)
      in max 1 (min ttl (ttl_max cfg)))"

text \<open>
  \<open>now0\<close> is the clock when the store is reaped, \<open>now\<close> when the artifact is made;
  \<open>rid\<close> and \<open>token\<close> are the two random strings drawn.
\<close>

definition create_art :: "store_cfg \<Rightarrow> disk \<Rightarrow> rat \<Rightarrow> rat \<Rightarrow> string \<Rightarrow> string \<Rightarrow> string \<Rightarrow> int \<Rightarrow> string \<Rightarrow>
    rat option \<Rightarrow> int option \<Rightarrow> (store, exc, nat \<times> string) act" where
  "create_art cfg d now0 now rid token fname size_bytes own ttl_seconds bind_job =
     bind_act (modify (\<lambda>s. snd (reap now0 s))) (\<lambda>_.
     bind_act (lift_res (check_admission cfg d size_bytes)) (\<lambda>_.
     (let a = \<lparr>artifact_id = rid, filename = safe_filename fname, a_owner = own,
               token_hash = hash_token token, size_declared = size_bytes,
               created = now, expires = now + clamp_ttl cfg ttl_seconds,
               a_state = ''await_upload'', size_actual = None,
               bind_job_id = bind_job, lava_token_name = None\<rparr>
      in bind_act (gets (\<lambda>s. length (objs s))) (\<lambda>r.
         bind_act (modify (\<lambda>s. persist a (s\<lparr>objs := objs s @ [a], arts := dict_set rid r (arts s)\<rparr>))) (\<lambda>_.
         ret (r, token))))))"

definition get_art :: "rat \<Rightarrow> string \<Rightarrow> store \<Rightarrow> nat option \<times> store" where
  "get_art now i s = (case dict_get (arts s) i of
      None \<Rightarrow> (None, s)
    | Some r \<Rightarrow> if expired now (obj_at s r) then (None, reap_one (obj_at s r) s) else (Some r, s))"

definition verify_token :: "artifact \<Rightarrow> string option \<Rightarrow> bool" where
  "verify_token a presented = (case presented of
      None \<Rightarrow> False
    | Some p \<Rightarrow> if p = [] then False else token_hash a = hash_token p)"

definition get_url :: "store_cfg \<Rightarrow> artifact \<Rightarrow> string" where
  "get_url cfg a = base_url cfg @ ''/'' @ artifact_id a @ ''/'' @ quote (filename a)"

definition delete_art :: "string \<Rightarrow> string option \<Rightarrow> store \<Rightarrow> nat option \<times> store" where
  "delete_art i own s = (case dict_get (arts s) i of
      None \<Rightarrow> (None, s)
    | Some r \<Rightarrow>
        if own \<noteq> None \<and> Some (a_owner (obj_at s r)) \<noteq> own then (None, s)
        else (Some r, s\<lparr>arts := dict_pop i (arts s), files := remove_files i (files s),
                        pending := queue_token (obj_at s r) (pending s)\<rparr>))"

definition list_for :: "rat \<Rightarrow> string \<Rightarrow> store \<Rightarrow> nat list \<times> store" where
  "list_for now own s =
     (let t = snd (reap now s)
      in (filter (\<lambda>r. a_owner (obj_at t r) = own) (map snd (arts t)), t))"

definition set_obj :: "nat \<Rightarrow> artifact \<Rightarrow> store \<Rightarrow> store" where
  "set_obj r a s = s\<lparr>objs := (objs s)[r := a]\<rparr>"

definition set_lava_token_name :: "string \<Rightarrow> string \<Rightarrow> store \<Rightarrow> store" where
  "set_lava_token_name i name s = (case dict_get (arts s) i of
      None \<Rightarrow> s
    | Some r \<Rightarrow> (let a = (obj_at s r)\<lparr>lava_token_name := Some name\<rparr> in persist a (set_obj r a s)))"

text \<open>\<^verbatim>\<open>store_bytes\<close>, the synchronous helper.\<close>

definition store_bytes :: "store_cfg \<Rightarrow> disk \<Rightarrow> nat \<Rightarrow> char list \<Rightarrow> (store, exc, nat) act" where
  "store_bytes cfg d r data = (\<lambda>s.
     if a_state (obj_at s r) \<noteq> ''await_upload''
     then (Inl (ArtifactError ''artifact already uploaded'' '''' []), s)
     else (case check_admission cfg d (int (length data)) of
         Inl e \<Rightarrow> (Inl e, s)
       | Inr _ \<Rightarrow>
          (let a = (obj_at s r)\<lparr>a_state := ''stored'', size_actual := Some (int (length data))\<rparr>
           in (Inr r, persist a (set_obj r a
                 (s\<lparr>files := fs_put (BlobPath (artifact_id a)) (Bytes data) (files s)\<rparr>))))))"

end
