(* ===== verification/Uploads.thy ===== *)
theory Uploads
  imports Artifacts
begin

text \<open>
  Streaming uploads, \<^verbatim>\<open>ArtifactStore.write_stream\<close>: first its steps, cut where the
  coroutine waits for the next chunk, then the whole upload over one stream, then the
  store as a state machine in which any number of uploads and store operations interleave.
\<close>

section \<open>The steps of an upload\<close>

text \<open>
  What the coroutine holds between two chunks: the metadata object it was given, the file
  it opened, the position in it, and its two counters. A write reaches the file at once.
\<close>

record upload =
  up_ref :: nat
  up_ino :: nat
  up_pos :: nat
  up_written :: int
  up_checkpoint :: int

definition write_at :: "nat \<Rightarrow> char list \<Rightarrow> char list \<Rightarrow> char list" where
  "write_at pos chunk old =
     take pos old @ replicate (pos - length old) CHR 0x00 @ chunk @ drop (pos + length chunk) old"

fun bytes_of :: "content \<Rightarrow> char list" where
  "bytes_of (Bytes b) = b"
| "bytes_of _ = []"

definition fs_write_ino :: "nat \<Rightarrow> nat \<Rightarrow> char list \<Rightarrow> fs \<Rightarrow> fs" where
  "fs_write_ino i pos chunk f = f\<lparr>fdata := (fdata f)(i := Bytes (write_at pos chunk (bytes_of (fdata f i))))\<rparr>"

text \<open>Up to the first chunk: the state and \<^verbatim>\<open>Content-Length\<close> checks, and the open.\<close>

definition ws_begin :: "store_cfg \<Rightarrow> disk \<Rightarrow> nat \<Rightarrow> int option \<Rightarrow> (store, exc, upload) act" where
  "ws_begin cfg d r content_length = (\<lambda>s.
     let a = obj_at s r in
     if a_state a \<noteq> ''await_upload''
     then (Inl (ArtifactError ''artifact already uploaded'' ''bad_state'' []), s)
     else (case (case content_length of None \<Rightarrow> Inr () | Some n \<Rightarrow> check_admission cfg d n) of
         Inl e \<Rightarrow> (Inl e, s)
       | Inr _ \<Rightarrow>
          (let f = fs_put (PartPath (artifact_id a)) (Bytes []) (files s);
               i = the (fdir f (PartPath (artifact_id a)))
           in (Inr \<lparr>up_ref = r, up_ino = i, up_pos = 0, up_written = 0, up_checkpoint = 0\<rparr>,
               s\<lparr>files := f\<rparr>))))"

definition recheck_bytes :: int where
  "recheck_bytes = 64 * 1024 * 1024"

definition ws_chunk :: "store_cfg \<Rightarrow> disk \<Rightarrow> char list \<Rightarrow> upload \<Rightarrow> (store, exc, upload) act" where
  "ws_chunk cfg d chunk u =
     (if chunk = [] then ret u
      else (let written = up_written u + int (length chunk) in
        if written > max_bytes cfg then
          raise (ArtifactError ''upload exceeds the per-artifact cap'' ''exceeds_cap''
            [(''received_bytes'', written), (''max_artifact_bytes'', max_bytes cfg)])
        else (let due = (written - up_checkpoint u \<ge> recheck_bytes) in
          if due \<and> headroom_bytes cfg d \<le> 0 then
            raise (ArtifactError ''disk floor reached during upload'' ''insufficient_disk''
              [(''received_bytes'', written)])
          else bind_act (modify (\<lambda>s. s\<lparr>files := fs_write_ino (up_ino u) (up_pos u) chunk (files s)\<rparr>))
            (\<lambda>_. ret (u\<lparr>up_pos := up_pos u + length chunk, up_written := written,
                        up_checkpoint := (if due then written else up_checkpoint u)\<rparr>)))))"

definition ws_replace :: "upload \<Rightarrow> (store, exc, unit) act" where
  "ws_replace u = (\<lambda>s.
     let i = artifact_id (obj_at s (up_ref u)) in
     case fs_rename (PartPath i) (BlobPath i) (files s) of
       None \<Rightarrow> (Inl FileNotFoundError, s)
     | Some f \<Rightarrow> (Inr (), s\<lparr>files := f\<rparr>))"

text \<open>The two exception handlers discard the partial file, if it is there, and re-raise.\<close>

definition ws_discard :: "nat \<Rightarrow> store \<Rightarrow> store" where
  "ws_discard r s = s\<lparr>files := fs_unlink (PartPath (artifact_id (obj_at s r))) (files s)\<rparr>"

definition ws_commit :: "upload \<Rightarrow> store \<Rightarrow> store" where
  "ws_commit u s =
     (let a = (obj_at s (up_ref u))\<lparr>a_state := ''stored'', size_actual := Some (up_written u)\<rparr>
      in persist a (set_obj (up_ref u) a s))"

section \<open>A whole upload\<close>

text \<open>
  The stream gives chunks, each met with the disk usage of that moment, and may break
  (the client disconnects, the write fails) with an exception.
\<close>

datatype stream_item = Chunk disk "char list" | Broken exc

fun ws_feed :: "store_cfg \<Rightarrow> stream_item list \<Rightarrow> upload \<Rightarrow> (store, exc, upload) act" where
  "ws_feed cfg [] u = ret u"
| "ws_feed cfg (Broken e # items) u = raise e"
| "ws_feed cfg (Chunk d c # items) u = bind_act (ws_chunk cfg d c u) (ws_feed cfg items)"

definition write_stream :: "store_cfg \<Rightarrow> disk \<Rightarrow> nat \<Rightarrow> int option \<Rightarrow> stream_item list \<Rightarrow> (store, exc, nat) act" where
  "write_stream cfg d r content_length items =
     bind_act (ws_begin cfg d r content_length) (\<lambda>u0.
     bind_act (try_act
         (bind_act (ws_feed cfg items u0) (\<lambda>u. bind_act (ws_replace u) (\<lambda>_. ret u)))
         (\<lambda>e. Some (bind_act (modify (ws_discard r)) (\<lambda>_. raise e)))) (\<lambda>u.
     bind_act (modify (ws_commit u)) (\<lambda>_. ret r)))"

text \<open>The bytes a stream carries.\<close>

fun stream_bytes :: "stream_item list \<Rightarrow> char list" where
  "stream_bytes [] = []"
| "stream_bytes (Chunk d c # items) = c @ stream_bytes items"
| "stream_bytes (Broken e # items) = []"

section \<open>Interleaved uploads and store operations\<close>

text \<open>
  The event loop runs other requests whenever an upload waits for its next chunk. An
  event is one uninterrupted stretch: an operation of the store, the start of an upload
  (the lookup of the artifact and everything up to the first wait), one chunk, the end of
  the stream, or the stream breaking.
\<close>

record store_sys =
  sys_store :: store
  sys_uploads :: "upload list"

datatype store_event =
    EvCreate disk rat rat string string string int string "rat option" "int option"
  | EvGet rat string
  | EvDelete string "string option"
  | EvReap rat
  | EvTokenName string string
  | EvTakePending string
  | EvBegin rat string disk "int option"
  | EvChunk nat disk "char list"
  | EvFinish nat
  | EvBreak nat

definition drop_nth :: "nat \<Rightarrow> 'a list \<Rightarrow> 'a list" where
  "drop_nth k xs = take k xs @ drop (Suc k) xs"

text \<open>A step of upload \<open>k\<close> that raised: the partial file is discarded, the upload is over.\<close>

definition fail_upload :: "nat \<Rightarrow> store_sys \<Rightarrow> store_sys" where
  "fail_upload k y = y\<lparr>sys_store := ws_discard (up_ref (sys_uploads y ! k)) (sys_store y),
                       sys_uploads := drop_nth k (sys_uploads y)\<rparr>"

fun store_step :: "store_cfg \<Rightarrow> store_event \<Rightarrow> store_sys \<Rightarrow> store_sys" where
  "store_step cfg (EvCreate d now0 now rid tok fn n own ttl bj) y =
     y\<lparr>sys_store := snd (create_art cfg d now0 now rid tok fn n own ttl bj (sys_store y))\<rparr>"
| "store_step cfg (EvGet now i) y = y\<lparr>sys_store := snd (get_art now i (sys_store y))\<rparr>"
| "store_step cfg (EvDelete i own) y = y\<lparr>sys_store := snd (delete_art i own (sys_store y))\<rparr>"
| "store_step cfg (EvReap now) y = y\<lparr>sys_store := snd (reap now (sys_store y))\<rparr>"
| "store_step cfg (EvTokenName i n) y = y\<lparr>sys_store := set_lava_token_name i n (sys_store y)\<rparr>"
| "store_step cfg (EvTakePending own) y = y\<lparr>sys_store := snd (take_pending own (sys_store y))\<rparr>"
| "store_step cfg (EvBegin now i d cl) y =
     (case get_art now i (sys_store y) of
        (None, s) \<Rightarrow> y\<lparr>sys_store := s\<rparr>
      | (Some r, s) \<Rightarrow> (case ws_begin cfg d r cl s of
            (Inl e, t) \<Rightarrow> y\<lparr>sys_store := t\<rparr>
          | (Inr u, t) \<Rightarrow> y\<lparr>sys_store := t, sys_uploads := sys_uploads y @ [u]\<rparr>))"
| "store_step cfg (EvChunk k d c) y =
     (if k < length (sys_uploads y)
      then (case ws_chunk cfg d c (sys_uploads y ! k) (sys_store y) of
          (Inl e, t) \<Rightarrow> fail_upload k (y\<lparr>sys_store := t\<rparr>)
        | (Inr u, t) \<Rightarrow> y\<lparr>sys_store := t, sys_uploads := (sys_uploads y)[k := u]\<rparr>)
      else y)"
| "store_step cfg (EvFinish k) y =
     (if k < length (sys_uploads y)
      then (let u = sys_uploads y ! k in
        case ws_replace u (sys_store y) of
          (Inl e, t) \<Rightarrow> fail_upload k (y\<lparr>sys_store := t\<rparr>)
        | (Inr _, t) \<Rightarrow> y\<lparr>sys_store := ws_commit u t, sys_uploads := drop_nth k (sys_uploads y)\<rparr>)
      else y)"
| "store_step cfg (EvBreak k) y = (if k < length (sys_uploads y) then fail_upload k y else y)"

definition empty_store :: store where
  "empty_store = \<lparr>objs = [], arts = [], pending = [], files = fs_empty\<rparr>"

definition init_sys :: store_sys where
  "init_sys = \<lparr>sys_store = empty_store, sys_uploads = []\<rparr>"

lemma set_drop_nth: "set (drop_nth k xs) \<subseteq> set xs"
  using set_take_subset [of k xs] set_drop_subset [of "Suc k" xs] by (auto simp: drop_nth_def)

lemma length_write_at: "length (write_at pos c old) = max (pos + length c) (length old)"
  by (auto simp: write_at_def max_def min_def)

lemma write_at_end: "pos = length old \<Longrightarrow> write_at pos c old = old @ c"
  by (simp add: write_at_def)

end
