(* ===== verification/StoreInv.thy ===== *)
theory StoreInv
  imports Uploads
begin

text \<open>
  The invariant of the artifact store and its preservation by every operation and by
  every step of every interleaved upload. It has three parts: the registry points to the
  objects it should, the files under the root are those the registry calls for, and no
  file an upload writes exceeds the cap.
\<close>

section \<open>The invariant\<close>

definition awaiting :: "artifact \<Rightarrow> bool" where
  "awaiting a \<longleftrightarrow> a_state a = ''await_upload''"

definition stored :: "artifact \<Rightarrow> bool" where
  "stored a \<longleftrightarrow> a_state a = ''stored''"

definition art_ok :: "store_cfg \<Rightarrow> artifact \<Rightarrow> bool" where
  "art_ok cfg a \<longleftrightarrow>
     (awaiting a \<and> size_actual a = None \<or>
      stored a \<and> (\<exists>n. size_actual a = Some n \<and> 0 \<le> n \<and> n \<le> max_bytes cfg)) \<and>
     expires a \<le> created a + max 1 (ttl_max cfg) \<and> length (token_hash a) = 64"

definition registry_ok :: "store_cfg \<Rightarrow> store \<Rightarrow> bool" where
  "registry_ok cfg s \<longleftrightarrow>
     distinct (map artifact_id (objs s)) \<and> dict_ok (arts s) \<and> distinct (pending s) \<and>
     (\<forall>i r. dict_get (arts s) i = Some r \<longrightarrow> r < length (objs s) \<and> artifact_id (obj_at s r) = i) \<and>
     (\<forall>a \<in> set (objs s). art_ok cfg a)"

definition files_ok :: "store \<Rightarrow> bool" where
  "files_ok s \<longleftrightarrow> fs_ok (files s) \<and>
     (\<forall>i. fs_read (files s) (MetaPath i) = map_option (\<lambda>a. Doc (asdict a)) (live s i)) \<and>
     (\<forall>i. fs_read (files s) (PartPath i) \<noteq> None \<longrightarrow> (\<exists>a. live s i = Some a \<and> awaiting a)) \<and>
     (\<forall>i. fs_read (files s) (BlobPath i) \<noteq> None \<longleftrightarrow> (\<exists>a. live s i = Some a \<and> stored a))"

definition within_cap :: "store_cfg \<Rightarrow> content \<Rightarrow> bool" where
  "within_cap cfg c \<longleftrightarrow> (\<exists>b. c = Bytes b \<and> int (length b) \<le> max_bytes cfg)"

definition is_meta :: "fname \<Rightarrow> bool" where
  "is_meta n \<longleftrightarrow> (\<exists>i. n = MetaPath i)"

definition bytes_ok :: "store_cfg \<Rightarrow> fs \<Rightarrow> bool" where
  "bytes_ok cfg f \<longleftrightarrow> (\<forall>n i. fdir f n = Some i \<longrightarrow> is_meta n \<or> within_cap cfg (fdata f i))"

definition upload_ok :: "store_cfg \<Rightarrow> store \<Rightarrow> upload \<Rightarrow> bool" where
  "upload_ok cfg s u \<longleftrightarrow>
     up_ref u < length (objs s) \<and> up_ino u < fnext (files s) \<and>
     (\<forall>n. fdir (files s) n = Some (up_ino u) \<longrightarrow> \<not> is_meta n) \<and>
     int (up_pos u) = up_written u \<and> up_written u \<le> max_bytes cfg \<and>
     within_cap cfg (fdata (files s) (up_ino u))"

definition store_ok :: "store_cfg \<Rightarrow> store \<Rightarrow> bool" where
  "store_ok cfg s \<longleftrightarrow> registry_ok cfg s \<and> files_ok s \<and> bytes_ok cfg (files s)"

definition sys_ok :: "store_cfg \<Rightarrow> store_sys \<Rightarrow> bool" where
  "sys_ok cfg y \<longleftrightarrow> 0 \<le> max_bytes cfg \<and> store_ok cfg (sys_store y) \<and>
     (\<forall>u \<in> set (sys_uploads y). upload_ok cfg (sys_store y) u)"

text \<open>
  What is assumed of the environment: the 128-bit identifier drawn for a new artifact was
  never drawn before.
\<close>

fun store_env :: "store_event \<Rightarrow> store_sys \<Rightarrow> bool" where
  "store_env (EvCreate d now0 now rid tok fn n own ttl bj) y =
     (rid \<notin> artifact_id ` set (objs (sys_store y)))"
| "store_env _ y = True"

lemma files_okD:
  assumes "files_ok s"
  shows "fs_ok (files s)"
    and "fs_read (files s) (MetaPath i) = map_option (\<lambda>a. Doc (asdict a)) (live s i)"
    and "fs_read (files s) (PartPath i) \<noteq> None \<Longrightarrow> \<exists>a. live s i = Some a \<and> awaiting a"
    and "fs_read (files s) (BlobPath i) \<noteq> None \<longleftrightarrow> (\<exists>a. live s i = Some a \<and> stored a)"
  using assms unfolding files_ok_def by blast+

lemma registry_okD:
  assumes "registry_ok cfg s"
  shows "dict_get (arts s) i = Some r \<Longrightarrow> r < length (objs s)"
    and "dict_get (arts s) i = Some r \<Longrightarrow> artifact_id (obj_at s r) = i"
  using assms unfolding registry_ok_def by blast+

lemma store_okD:
  assumes "store_ok cfg s"
  shows "registry_ok cfg s" "files_ok s" "fs_ok (files s)" "bytes_ok cfg (files s)"
  using assms by (simp_all add: store_ok_def files_ok_def)

lemma awaiting_not_stored: "awaiting a \<Longrightarrow> \<not> stored a"
  by (simp add: awaiting_def stored_def)

section \<open>The registry view after the primitive updates\<close>

text \<open>Forgetting an artifact, whatever queues its token: deletion and both reapers.\<close>

definition forget :: "string \<Rightarrow> (string \<times> string) list \<Rightarrow> store \<Rightarrow> store" where
  "forget i q s = s\<lparr>arts := dict_pop i (arts s), files := remove_files i (files s), pending := q\<rparr>"

lemma reap_one_forget: "reap_one a s = forget (artifact_id a) (queue_token a (pending s)) s"
  by (simp add: reap_one_def forget_def)

lemma distinct_queue_token: "distinct q \<Longrightarrow> distinct (queue_token a q)"
  by (simp add: queue_token_def split: option.splits)

lemma obj_at_simps [simp]:
  "obj_at (s\<lparr>arts := x\<rparr>) = obj_at s" "obj_at (s\<lparr>files := f\<rparr>) = obj_at s"
  "obj_at (s\<lparr>pending := q\<rparr>) = obj_at s"
  by (simp_all add: obj_at_def fun_eq_iff)

lemma live_files [simp]: "live (s\<lparr>files := f\<rparr>) = live s"
  by (rule ext) (simp add: live_def)

lemma live_pending [simp]: "live (s\<lparr>pending := q\<rparr>) = live s"
  by (rule ext) (simp add: live_def)

lemma live_forget: "live (forget i q s) j = (if j = i then None else live s j)"
  by (simp add: live_def forget_def)

lemma live_persist [simp]: "live (persist a s) = live s"
  by (simp add: persist_def)

lemma live_set_obj:
  assumes "r < length (objs s)"
  shows "live (set_obj r a s) j = (if dict_get (arts s) j = Some r then Some a else live s j)"
  using assms by (cases "dict_get (arts s) j") (auto simp: live_def set_obj_def obj_at_def)

lemma live_ref: "registry_ok cfg s \<Longrightarrow> live s i = Some a \<Longrightarrow>
    \<exists>r. dict_get (arts s) i = Some r \<and> r < length (objs s) \<and> obj_at s r = a \<and> artifact_id a = i"
  by (auto simp: live_def registry_ok_def)

text \<open>One object per identifier: an upload's object is the registered one while its id is live.\<close>

lemma ref_unique:
  assumes "registry_ok cfg s" "r < length (objs s)" "dict_get (arts s) (artifact_id (obj_at s r)) = Some q"
  shows "q = r"
proof -
  have "q < length (objs s)" "artifact_id (objs s ! q) = artifact_id (objs s ! r)"
    using assms by (auto simp: registry_ok_def obj_at_def)
  moreover have "distinct (map artifact_id (objs s))" using assms by (simp add: registry_ok_def)
  ultimately show ?thesis using assms(2) by (simp add: distinct_conv_nth) (metis nth_map)
qed

lemma live_own:
  assumes "registry_ok cfg s" "r < length (objs s)" "live s (artifact_id (obj_at s r)) = Some a"
  shows "a = obj_at s r"
  using assms ref_unique live_ref by blast

lemma art_ok_obj: "registry_ok cfg s \<Longrightarrow> r < length (objs s) \<Longrightarrow> art_ok cfg (obj_at s r)"
  by (simp add: registry_ok_def obj_at_def)

section \<open>Preservation by the operations\<close>

text \<open>
  A step from \<open>s\<close> to \<open>t\<close> is \<^emph>\<open>sound\<close> when it keeps the invariant of the store and of
  every upload in flight. Sound steps compose.
\<close>

definition sound_step :: "store_cfg \<Rightarrow> store \<Rightarrow> store \<Rightarrow> bool" where
  "sound_step cfg s t \<longleftrightarrow>
     (store_ok cfg s \<longrightarrow> store_ok cfg t \<and> (\<forall>u. upload_ok cfg s u \<longrightarrow> upload_ok cfg t u))"

named_theorems sound_intros "operations that keep the store's invariant"

lemma sound_refl [sound_intros]: "sound_step cfg s s"
  by (simp add: sound_step_def)

lemma sound_trans: "sound_step cfg s t \<Longrightarrow> sound_step cfg t u \<Longrightarrow> sound_step cfg s u"
  by (simp add: sound_step_def)

lemma sound_fold: "(\<And>x t. sound_step cfg t (f x t)) \<Longrightarrow> sound_step cfg s (fold f xs s)"
  by (induction xs arbitrary: s) (auto intro: sound_intros sound_trans)

lemma remove_files_read:
  "fs_read (remove_files i f) n =
     (if n = MetaPath i \<or> n = BlobPath i \<or> n = PartPath i then None else fs_read f n)"
  by (auto simp: remove_files_def)

lemma remove_files_data [simp]:
  "fdata (remove_files i f) = fdata f" "fnext (remove_files i f) = fnext f"
  by (simp_all add: remove_files_def fs_unlink_def)

lemma remove_files_dir: "fdir (remove_files i f) n = Some k \<Longrightarrow> fdir f n = Some k"
  by (auto simp: remove_files_def fs_unlink_def split: if_splits)

lemma fs_ok_remove_files [simp]: "fs_ok f \<Longrightarrow> fs_ok (remove_files i f)"
  by (simp add: remove_files_def)

lemma sound_forget [sound_intros]:
  assumes q: "distinct (pending s) \<Longrightarrow> distinct q"
  shows "sound_step cfg s (forget i q s)"
  unfolding sound_step_def
proof (intro impI conjI allI)
  assume ok: "store_ok cfg s"
  have reg: "registry_ok cfg (forget i q s)"
    using ok q unfolding store_ok_def registry_ok_def forget_def by simp
  have fil: "files_ok (forget i q s)"
    using ok unfolding store_ok_def files_ok_def live_forget
    by (simp add: forget_def remove_files_read)
  have "bytes_ok cfg (files (forget i q s))"
    using ok unfolding store_ok_def bytes_ok_def forget_def
    by (auto dest: remove_files_dir)
  with reg fil show "store_ok cfg (forget i q s)" by (simp add: store_ok_def)
next
  fix u assume "upload_ok cfg s u"
  then show "upload_ok cfg (forget i q s) u"
    unfolding upload_ok_def forget_def by (auto dest: remove_files_dir)
qed

lemma sound_reap_one [sound_intros]: "sound_step cfg s (reap_one a s)"
  unfolding reap_one_forget by (rule sound_forget) (rule distinct_queue_token)

lemma sound_reap [sound_intros]: "sound_step cfg s (snd (reap now s))"
  unfolding reap_def Let_def snd_conv
proof (rule sound_fold)
  show "sound_step cfg t (reap_one (obj_at s r) t)" for r t by (rule sound_reap_one)
qed

lemma sound_get [sound_intros]: "sound_step cfg s (snd (get_art now i s))"
  by (auto simp: get_art_def intro: sound_intros split: option.splits)

lemma sound_delete [sound_intros]: "sound_step cfg s (snd (delete_art i own s))"
proof (cases "dict_get (arts s) i")
  case (Some r)
  have "sound_step cfg s (forget i (queue_token (obj_at s r) (pending s)) s)"
    by (rule sound_forget) (rule distinct_queue_token)
  with Some show ?thesis by (simp add: delete_art_def forget_def sound_refl)
qed (simp add: delete_art_def sound_refl)

lemma sound_take_pending [sound_intros]: "sound_step cfg s (snd (take_pending own s))"
  unfolding sound_step_def take_pending_def Let_def snd_conv
  by (simp add: store_ok_def registry_ok_def files_ok_def upload_ok_def)

text \<open>Writing a sidecar touches no blob and no file an upload holds open.\<close>

lemma fs_put_dir:
  "fdir (fs_put n c f) m = (if m = n then Some (case fdir f n of Some i \<Rightarrow> i | None \<Rightarrow> fnext f) else fdir f m)"
  by (auto simp: fs_put_def split: option.splits)

lemma fs_put_data:
  "fdata (fs_put n c f) i =
     (if i = (case fdir f n of Some j \<Rightarrow> j | None \<Rightarrow> fnext f) then c else fdata f i)"
  by (auto simp: fs_put_def split: option.splits)

lemma fs_put_next: "fnext f \<le> fnext (fs_put n c f)"
  by (auto simp: fs_put_def split: option.splits)

lemma put_meta_bytes:
  assumes "fs_ok f" "bytes_ok cfg f"
  shows "bytes_ok cfg (fs_put (MetaPath i) c f)"
  unfolding bytes_ok_def
proof (intro allI impI)
  fix n k assume "fdir (fs_put (MetaPath i) c f) n = Some k"
  then have "n = MetaPath i \<or> fdir f n = Some k \<and> n \<noteq> MetaPath i"
    by (auto simp: fs_put_dir split: if_splits)
  then show "is_meta n \<or> within_cap cfg (fdata (fs_put (MetaPath i) c f) k)"
  proof
    assume nk: "fdir f n = Some k \<and> n \<noteq> MetaPath i"
    then have "k \<noteq> (case fdir f (MetaPath i) of Some j \<Rightarrow> j | None \<Rightarrow> fnext f)"
      using assms(1) by (auto simp: fs_ok_def split: option.splits)
    with nk assms(2) show ?thesis by (auto simp: bytes_ok_def fs_put_data)
  qed (auto simp: is_meta_def)
qed

lemma put_meta_upload:
  assumes "fs_ok (files s)" "upload_ok cfg s u" "length (objs s) \<le> length (objs t)"
    and t: "files t = fs_put (MetaPath i) c (files s)"
  shows "upload_ok cfg t u"
proof -
  let ?k = "case fdir (files s) (MetaPath i) of Some j \<Rightarrow> j | None \<Rightarrow> fnext (files s)"
  have ne: "up_ino u \<noteq> ?k"
    using assms(2) by (auto simp: upload_ok_def is_meta_def split: option.splits)
  moreover have "up_ino u < fnext (fs_put (MetaPath i) c (files s))"
    using assms(2) fs_put_next [of "files s" "MetaPath i" c] by (simp add: upload_ok_def)
  moreover have "\<forall>n. fdir (fs_put (MetaPath i) c (files s)) n = Some (up_ino u) \<longrightarrow> \<not> is_meta n"
    using assms(2) ne by (auto simp: upload_ok_def fs_put_dir)
  ultimately show ?thesis
    using assms(2,3) t by (auto simp: upload_ok_def fs_put_data)
qed

text \<open>Replacing an object by one with the same id, and writing its sidecar.\<close>

lemma obj_at_set_obj: "r < length (objs s) \<Longrightarrow> obj_at (set_obj r a s) k = (if k = r then a else obj_at s k)"
  by (simp add: obj_at_def set_obj_def)

lemma registry_set_obj:
  assumes reg: "registry_ok cfg s" and r: "r < length (objs s)"
    and a: "artifact_id a = artifact_id (obj_at s r)" "art_ok cfg a"
  shows "registry_ok cfg (set_obj r a s)"
proof -
  have "map artifact_id ((objs s)[r := a]) = map artifact_id (objs s)"
    using a(1) r by (simp add: map_update obj_at_def) (metis list_update_id nth_map)
  moreover have "\<forall>x \<in> set ((objs s)[r := a]). art_ok cfg x"
    using reg a(2) set_update_subset_insert [of "objs s" r a] by (auto simp: registry_ok_def)
  moreover have "artifact_id (obj_at (set_obj r a s) k) = artifact_id (obj_at s k)" for k
    using a(1) r by (simp add: obj_at_set_obj)
  ultimately show ?thesis
    using reg by (simp add: registry_ok_def) (simp add: set_obj_def)
qed

lemma registry_files [simp]: "registry_ok cfg (s\<lparr>files := f\<rparr>) = registry_ok cfg s"
  by (simp add: registry_ok_def)

lemma live_update:
  assumes reg: "registry_ok cfg s" and r: "dict_get (arts s) i = Some r"
  shows "live (set_obj r a s) j = (if j = i then Some a else live s j)"
proof -
  have "r < length (objs s)" by (rule registry_okD [OF reg r])
  moreover have "dict_get (arts s) j = Some r \<longleftrightarrow> j = i"
    using registry_okD(2) [OF reg, of j r] registry_okD(2) [OF reg r] r by auto
  ultimately show ?thesis by (simp add: live_set_obj)
qed

lemma files_persist:
  assumes f: "fs_ok (files s)"
    and meta: "\<And>j. j \<noteq> artifact_id a \<Longrightarrow>
        fs_read (files s) (MetaPath j) = map_option (\<lambda>a. Doc (asdict a)) (live s j)"
    and self: "live s (artifact_id a) = Some a"
    and part: "\<And>j. fs_read (files s) (PartPath j) \<noteq> None \<Longrightarrow> \<exists>x. live s j = Some x \<and> awaiting x"
    and blob: "\<And>j. fs_read (files s) (BlobPath j) \<noteq> None \<longleftrightarrow> (\<exists>x. live s j = Some x \<and> stored x)"
  shows "files_ok (persist a s)"
  unfolding files_ok_def live_persist
proof (intro conjI allI)
  show "fs_ok (files (persist a s))" using f by (simp add: persist_def)
  show "fs_read (files (persist a s)) (MetaPath i) = map_option (\<lambda>a. Doc (asdict a)) (live s i)" for i
    using f meta self by (simp add: persist_def fs_read_put)
  show "fs_read (files (persist a s)) (PartPath i) \<noteq> None \<longrightarrow> (\<exists>x. live s i = Some x \<and> awaiting x)" for i
    using f part [of i] by (auto simp: persist_def fs_read_put)
  show "fs_read (files (persist a s)) (BlobPath i) \<noteq> None \<longleftrightarrow> (\<exists>x. live s i = Some x \<and> stored x)" for i
    using f blob [of i] by (simp add: persist_def fs_read_put)
qed

lemma sound_persist_gen:
  assumes up: "\<And>u. store_ok cfg s \<Longrightarrow> upload_ok cfg s u \<Longrightarrow> upload_ok cfg t u"
    and ok: "store_ok cfg s \<Longrightarrow> registry_ok cfg t \<and> files_ok (persist a t) \<and>
        fs_ok (files t) \<and> bytes_ok cfg (files t)"
  shows "sound_step cfg s (persist a t)"
  unfolding sound_step_def
proof (intro impI conjI allI)
  assume s: "store_ok cfg s"
  note t = ok [OF s]
  show "store_ok cfg (persist a t)"
    using t put_meta_bytes [of "files t" cfg] by (simp add: store_ok_def persist_def)
  fix u assume "upload_ok cfg s u"
  then show "upload_ok cfg (persist a t) u"
    using t up [OF s] put_meta_upload [of t cfg u "persist a t"] by (simp add: persist_def)
qed

lemma sound_persist:
  assumes len: "length (objs s) \<le> length (objs t)" and fil: "files t = files s"
    and ok: "store_ok cfg s \<Longrightarrow> registry_ok cfg t \<and> files_ok (persist a t)"
  shows "sound_step cfg s (persist a t)"
proof (rule sound_persist_gen)
  show "upload_ok cfg t u" if "upload_ok cfg s u" for u
    using that len by (simp add: upload_ok_def fil)
  show "registry_ok cfg t \<and> files_ok (persist a t) \<and> fs_ok (files t) \<and> bytes_ok cfg (files t)"
    if "store_ok cfg s"
    using ok [OF that] store_okD(3,4) [OF that] by (simp add: fil)
qed

lemma awaiting_token [simp]:
  "awaiting (a\<lparr>lava_token_name := x\<rparr>) = awaiting a" "stored (a\<lparr>lava_token_name := x\<rparr>) = stored a"
  "art_ok cfg (a\<lparr>lava_token_name := x\<rparr>) = art_ok cfg a"
  by (simp_all add: awaiting_def stored_def art_ok_def)

lemma sound_token_name [sound_intros]: "sound_step cfg s (set_lava_token_name i n s)"
proof (cases "dict_get (arts s) i")
  case (Some r)
  let ?a = "(obj_at s r)\<lparr>lava_token_name := Some n\<rparr>"
  have "sound_step cfg s (persist ?a (set_obj r ?a s))"
  proof (rule sound_persist)
    assume ok: "store_ok cfg s"
    then have reg: "registry_ok cfg s" by (simp add: store_ok_def)
    with Some have r: "r < length (objs s)" "artifact_id (obj_at s r) = i"
      by (auto simp: registry_ok_def)
    have lv: "live s i = Some (obj_at s r)" using Some by (simp add: live_def)
    note upd = live_update [OF reg Some, of ?a]
    show "registry_ok cfg (set_obj r ?a s) \<and> files_ok (persist ?a (set_obj r ?a s))"
    proof
      show "registry_ok cfg (set_obj r ?a s)"
        using reg r by (intro registry_set_obj) (simp_all add: art_ok_obj)
      have fil: "files (set_obj r ?a s) = files s" by (simp add: set_obj_def)
      show "files_ok (persist ?a (set_obj r ?a s))"
      proof (rule files_persist)
        show "fs_ok (files (set_obj r ?a s))" using store_okD(3) [OF ok] fil by simp
        show "fs_read (files (set_obj r ?a s)) (MetaPath j) =
            map_option (\<lambda>a. Doc (asdict a)) (live (set_obj r ?a s) j)"
          if "j \<noteq> artifact_id ?a" for j
          using that r(2) files_okD(2) [OF store_okD(2) [OF ok]] by (simp add: upd fil)
        show "live (set_obj r ?a s) (artifact_id ?a) = Some ?a" using r(2) by (simp add: upd)
        show "\<exists>x. live (set_obj r ?a s) j = Some x \<and> awaiting x"
          if "fs_read (files (set_obj r ?a s)) (PartPath j) \<noteq> None" for j
          using files_okD(3) [OF store_okD(2) [OF ok], of j] that lv by (auto simp: upd fil)
        show "fs_read (files (set_obj r ?a s)) (BlobPath j) \<noteq> None \<longleftrightarrow>
            (\<exists>x. live (set_obj r ?a s) j = Some x \<and> stored x)" for j
          using files_okD(4) [OF store_okD(2) [OF ok], of j] lv by (simp add: upd fil)
      qed
    qed
  qed (simp_all add: set_obj_def)
  with Some show ?thesis by (simp add: set_lava_token_name_def Let_def)
qed (simp add: set_lava_token_name_def sound_refl)

section \<open>Creation\<close>

lemma clamp_ttl_bounds: "1 \<le> clamp_ttl cfg t" "clamp_ttl cfg t \<le> max 1 (ttl_max cfg)"
  by (auto simp: clamp_ttl_def Let_def)

definition new_artifact :: "store_cfg \<Rightarrow> rat \<Rightarrow> string \<Rightarrow> string \<Rightarrow> string \<Rightarrow> int \<Rightarrow> string \<Rightarrow>
    rat option \<Rightarrow> int option \<Rightarrow> artifact" where
  "new_artifact cfg now rid token fname n own ttl bj =
     \<lparr>artifact_id = rid, filename = safe_filename fname, a_owner = own,
      token_hash = hash_token token, size_declared = n,
      created = now, expires = now + clamp_ttl cfg ttl,
      a_state = ''await_upload'', size_actual = None,
      bind_job_id = bj, lava_token_name = None\<rparr>"

definition enlist :: "artifact \<Rightarrow> store \<Rightarrow> store" where
  "enlist a s = s\<lparr>objs := objs s @ [a], arts := dict_set (artifact_id a) (length (objs s)) (arts s)\<rparr>"

lemma create_art_eq:
  "create_art cfg d now0 now rid token fname n own ttl bj s =
     (let t = snd (reap now0 s) in
      case check_admission cfg d n of
        Inl e \<Rightarrow> (Inl e, t)
      | Inr _ \<Rightarrow> (Inr (length (objs t), token),
          persist (new_artifact cfg now rid token fname n own ttl bj)
            (enlist (new_artifact cfg now rid token fname n own ttl bj) t)))"
  by (simp add: create_art_def bind_act_lift act_apply Let_def new_artifact_def enlist_def
      split: sum.splits)

lemma new_artifact_ok: "art_ok cfg (new_artifact cfg now rid token fname n own ttl bj)"
  using clamp_ttl_bounds [of cfg ttl]
  by (simp add: art_ok_def new_artifact_def awaiting_def hash_token_def)

lemma sound_enlist:
  assumes fresh: "artifact_id a \<notin> artifact_id ` set (objs s)"
    and a: "art_ok cfg a" "awaiting a"
  shows "sound_step cfg s (persist a (enlist a s))"
proof (rule sound_persist)
  assume ok: "store_ok cfg s"
  then have reg: "registry_ok cfg s" by (simp add: store_ok_def)
  have absent: "dict_get (arts s) (artifact_id a) = None"
  proof (rule ccontr)
    assume "dict_get (arts s) (artifact_id a) \<noteq> None"
    then obtain r where "dict_get (arts s) (artifact_id a) = Some r" by auto
    with reg have "r < length (objs s)" "artifact_id (objs s ! r) = artifact_id a"
      by (auto simp: registry_ok_def obj_at_def)
    then show False using fresh by (metis image_eqI nth_mem)
  qed
  have old: "obj_at (enlist a s) r = obj_at s r" if "r < length (objs s)" for r
    using that by (simp add: obj_at_def enlist_def nth_append)
  have new: "obj_at (enlist a s) (length (objs s)) = a"
    by (simp add: obj_at_def enlist_def)
  have refs: "\<And>i r. dict_get (arts s) i = Some r \<Longrightarrow> r < length (objs s)"
    using reg by (auto simp: registry_ok_def)
  have lv: "live (enlist a s) j = (if j = artifact_id a then Some a else live s j)" for j
    using new old refs
    by (cases "dict_get (arts s) j") (auto simp: live_def enlist_def)
  have none: "live s (artifact_id a) = None" using absent by (simp add: live_def)
  have reg': "registry_ok cfg (enlist a s)"
    unfolding registry_ok_def
  proof (intro conjI allI impI)
    fix i r assume g: "dict_get (arts (enlist a s)) i = Some r"
    show "r < length (objs (enlist a s))"
      using g refs by (auto simp: enlist_def less_SucI split: if_splits)
    show "artifact_id (obj_at (enlist a s) r) = i"
      using g refs old new reg by (auto simp: enlist_def registry_ok_def split: if_splits)
  qed (use reg fresh a in \<open>auto simp: registry_ok_def enlist_def\<close>)
  have fil: "files (enlist a s) = files s" by (simp add: enlist_def)
  note fo = files_okD [OF store_okD(2) [OF ok]]
  have nofile: "fs_read (files s) (PartPath (artifact_id a)) = None"
    using fo(3) [of "artifact_id a"] none by fastforce
  have noblob: "fs_read (files s) (BlobPath (artifact_id a)) = None"
    using fo(4) [of "artifact_id a"] none by fastforce
  have "files_ok (persist a (enlist a s))"
  proof (rule files_persist)
    show "fs_ok (files (enlist a s))" using fo(1) fil by simp
    show "fs_read (files (enlist a s)) (MetaPath j) =
        map_option (\<lambda>a. Doc (asdict a)) (live (enlist a s) j)" if "j \<noteq> artifact_id a" for j
      using that fo(2) by (simp add: lv fil)
    show "live (enlist a s) (artifact_id a) = Some a" by (simp add: lv)
    show "\<exists>x. live (enlist a s) j = Some x \<and> awaiting x"
      if "fs_read (files (enlist a s)) (PartPath j) \<noteq> None" for j
      using that fo(3) [of j] a(2) by (auto simp: lv fil)
    show "fs_read (files (enlist a s)) (BlobPath j) \<noteq> None \<longleftrightarrow>
        (\<exists>x. live (enlist a s) j = Some x \<and> stored x)" for j
      using fo(4) [of j] noblob none awaiting_not_stored [OF a(2)] by (simp add: lv fil)
  qed
  with reg' show "registry_ok cfg (enlist a s) \<and> files_ok (persist a (enlist a s))" ..
qed (simp_all add: enlist_def)

lemma objs_reap_one [simp]: "objs (reap_one a s) = objs s"
  by (simp add: reap_one_def)

lemma objs_reap [simp]: "objs (snd (reap now s)) = objs s"
proof -
  have "objs (fold (\<lambda>r. reap_one (obj_at s r)) rs t) = objs t" for rs t
    by (induction rs arbitrary: t) simp_all
  then show ?thesis by (simp add: reap_def Let_def)
qed

lemma sound_create:
  assumes "rid \<notin> artifact_id ` set (objs s)"
  shows "sound_step cfg s (snd (create_art cfg d now0 now rid token fname n own ttl bj s))"
proof (cases "check_admission cfg d n")
  case (Inl e)
  then show ?thesis by (simp add: create_art_eq Let_def sound_reap)
next
  case (Inr x)
  have "sound_step cfg (snd (reap now0 s)) (persist (new_artifact cfg now rid token fname n own ttl bj)
          (enlist (new_artifact cfg now rid token fname n own ttl bj) (snd (reap now0 s))))"
    using assms new_artifact_ok
    by (intro sound_enlist) (simp_all add: new_artifact_def awaiting_def)
  with Inr show ?thesis
    by (simp add: create_art_eq Let_def) (rule sound_trans [OF sound_reap])
qed

section \<open>Uploads\<close>

lemma upload_okD:
  assumes "upload_ok cfg s u"
  shows "up_ref u < length (objs s)" "up_ino u < fnext (files s)"
    "fdir (files s) n = Some (up_ino u) \<Longrightarrow> \<not> is_meta n"
    "int (up_pos u) = up_written u" "up_written u \<le> max_bytes cfg"
    "within_cap cfg (fdata (files s) (up_ino u))"
  using assms unfolding upload_ok_def by blast+

lemma sound_discard [sound_intros]: "sound_step cfg s (ws_discard r s)"
  unfolding sound_step_def
proof (intro impI conjI allI)
  assume ok: "store_ok cfg s"
  have "files_ok (ws_discard r s)"
    using ok unfolding store_ok_def files_ok_def by (simp add: ws_discard_def)
  moreover have "bytes_ok cfg (files (ws_discard r s))"
    using ok unfolding store_ok_def bytes_ok_def
    by (auto simp: ws_discard_def fs_unlink_def split: if_splits)
  ultimately show "store_ok cfg (ws_discard r s)"
    using ok by (simp add: store_ok_def ws_discard_def)
next
  fix u assume "upload_ok cfg s u"
  then show "upload_ok cfg (ws_discard r s) u"
    unfolding upload_ok_def by (auto simp: ws_discard_def fs_unlink_def split: if_splits)
qed

text \<open>Opening the partial file: its inode is no sidecar's, and it is empty.\<close>

definition open_part :: "string \<Rightarrow> store \<Rightarrow> store" where
  "open_part i s = s\<lparr>files := fs_put (PartPath i) (Bytes []) (files s)\<rparr>"

lemma sound_open_part:
  assumes cap: "0 \<le> max_bytes cfg" and lv: "live s i = Some a" "awaiting a"
  shows "sound_step cfg s (open_part i s)"
  unfolding sound_step_def
proof (intro impI conjI allI)
  assume ok: "store_ok cfg s"
  note fo = files_okD [OF store_okD(2) [OF ok]]
  have reg: "registry_ok cfg (open_part i s)"
    using store_okD(1) [OF ok] by (simp add: open_part_def)
  have rd: "fs_read (files (open_part i s)) n =
      (if n = PartPath i then Some (Bytes []) else fs_read (files s) n)" for n
    using fo(1) by (simp add: open_part_def fs_read_put)
  have lvs: "live (open_part i s) = live s" by (simp add: open_part_def)
  have "files_ok (open_part i s)"
    unfolding files_ok_def lvs rd
    using fo lv by (auto simp: open_part_def)
  moreover have "bytes_ok cfg (files (open_part i s))"
    using store_okD(4) [OF ok] cap unfolding bytes_ok_def open_part_def
    by (auto simp: fs_put_dir fs_put_data within_cap_def split: if_splits)
  ultimately show "store_ok cfg (open_part i s)" using reg by (simp add: store_ok_def)
next
  fix u assume u: "store_ok cfg s" "upload_ok cfg s u"
  have "up_ino u < fnext (files (open_part i s))"
    using upload_okD(2) [OF u(2)] fs_put_next [of "files s" "PartPath i" "Bytes []"]
    by (simp add: open_part_def)
  then show "upload_ok cfg (open_part i s) u"
    using u(2) cap unfolding upload_ok_def
    by (auto simp: open_part_def fs_put_dir fs_put_data within_cap_def is_meta_def split: if_splits)
qed

lemma ws_begin_eq:
  "ws_begin cfg d r cl s =
     (let a = obj_at s r in
      if \<not> awaiting a then (Inl (ArtifactError ''artifact already uploaded'' ''bad_state'' []), s)
      else (case (case cl of None \<Rightarrow> Inr () | Some n \<Rightarrow> check_admission cfg d n) of
          Inl e \<Rightarrow> (Inl e, s)
        | Inr _ \<Rightarrow> (Inr \<lparr>up_ref = r, up_ino = the (fdir (files (open_part (artifact_id a) s)) (PartPath (artifact_id a))),
                          up_pos = 0, up_written = 0, up_checkpoint = 0\<rparr>,
                    open_part (artifact_id a) s)))"
  by (simp add: ws_begin_def awaiting_def open_part_def Let_def split: sum.splits)

lemma ws_begin_upload:
  assumes ok: "store_ok cfg s" and cap: "0 \<le> max_bytes cfg"
    and r: "dict_get (arts s) i = Some r"
    and b: "ws_begin cfg d r cl s = (Inr u, t)"
  shows "sound_step cfg s t" "upload_ok cfg t u"
proof -
  let ?a = "obj_at s r"
  have id: "artifact_id ?a = i" by (rule registry_okD(2) [OF store_okD(1) [OF ok] r])
  have len: "r < length (objs s)" by (rule registry_okD(1) [OF store_okD(1) [OF ok] r])
  have aw: "awaiting ?a" and t: "t = open_part i s"
    and u: "up_ref u = r" "up_ino u = the (fdir (files (open_part i s)) (PartPath i))"
      "up_pos u = 0" "up_written u = 0"
    using b id by (auto simp: ws_begin_eq Let_def split: if_splits sum.splits option.splits)
  have lv: "live s i = Some ?a" using r by (simp add: live_def)
  show snd: "sound_step cfg s t" unfolding t by (rule sound_open_part [OF cap lv aw])
  have fo: "fs_ok (files t)" using snd ok store_okD(3) unfolding sound_step_def by blast
  have dir: "fdir (files t) (PartPath i) = Some (up_ino u)"
    by (simp add: t u open_part_def fs_put_dir)
  have only: "n = PartPath i" if "fdir (files t) n = Some (up_ino u)" for n
    using fo dir that unfolding fs_ok_def by blast
  have "up_ino u < fnext (files t)" using fo dir unfolding fs_ok_def by blast
  moreover have "fdata (files t) (up_ino u) = Bytes []"
    by (simp add: t u open_part_def fs_put_dir fs_put_data)
  moreover have "\<not> is_meta n" if "fdir (files t) n = Some (up_ino u)" for n
    using only [OF that] by (simp add: is_meta_def)
  moreover have "objs t = objs s" by (simp add: t open_part_def)
  ultimately show "upload_ok cfg t u"
    unfolding upload_ok_def using len u(1,3,4) cap by (simp add: within_cap_def)
qed

text \<open>Writing a chunk into an open file: the length never passes the cap.\<close>

lemma within_cap_write:
  assumes "within_cap cfg c" "int pos + int (length chunk) \<le> max_bytes cfg"
  shows "within_cap cfg (Bytes (write_at pos chunk (bytes_of c)))"
  using assms by (auto simp: within_cap_def length_write_at)

definition feed_chunk :: "upload \<Rightarrow> char list \<Rightarrow> store \<Rightarrow> store" where
  "feed_chunk u chunk s = s\<lparr>files := fs_write_ino (up_ino u) (up_pos u) chunk (files s)\<rparr>"

lemma fs_write_simps [simp]:
  "fdir (fs_write_ino i p c f) = fdir f" "fnext (fs_write_ino i p c f) = fnext f"
  "fdata (fs_write_ino i p c f) j =
     (if j = i then Bytes (write_at p c (bytes_of (fdata f i))) else fdata f j)"
  by (simp_all add: fs_write_ino_def)

lemma fs_ok_write [simp]: "fs_ok (fs_write_ino i p c f) = fs_ok f"
  by (simp add: fs_ok_def)

lemma sound_feed_chunk:
  assumes u: "upload_ok cfg s u" and w: "up_written u + int (length chunk) \<le> max_bytes cfg"
  shows "sound_step cfg s (feed_chunk u chunk s)"
  unfolding sound_step_def
proof (intro impI conjI allI)
  let ?t = "feed_chunk u chunk s"
  have new: "within_cap cfg (Bytes (write_at (up_pos u) chunk (bytes_of (fdata (files s) (up_ino u)))))"
    using upload_okD(4,6) [OF u] w by (intro within_cap_write) simp_all
  have meta: "fdir (files s) (MetaPath i) \<noteq> Some (up_ino u)" for i
    using upload_okD(3) [OF u, of "MetaPath i"] by (auto simp: is_meta_def)
  {
    assume ok: "store_ok cfg s"
    note fo = files_okD [OF store_okD(2) [OF ok]]
    have rdm: "fs_read (files ?t) (MetaPath i) = fs_read (files s) (MetaPath i)" for i
      using meta [of i] by (cases "fdir (files s) (MetaPath i)") (auto simp: feed_chunk_def fs_read_def)
    have rdo: "fs_read (files ?t) n \<noteq> None \<longleftrightarrow> fs_read (files s) n \<noteq> None" for n
      by (simp add: feed_chunk_def fs_read_def)
    have lvs: "live ?t = live s" by (simp add: feed_chunk_def)
    have "files_ok ?t"
      unfolding files_ok_def lvs rdm rdo using fo by (auto simp: feed_chunk_def)
    moreover have "bytes_ok cfg (files ?t)"
      using store_okD(4) [OF ok] new by (auto simp: bytes_ok_def feed_chunk_def)
    ultimately show "store_ok cfg ?t"
      using store_okD(1) [OF ok] by (simp add: store_ok_def feed_chunk_def)
  }
  fix v assume "upload_ok cfg s v"
  then show "upload_ok cfg ?t v"
    using new by (auto simp: upload_ok_def feed_chunk_def)
qed

lemma ws_chunk_Inr:
  assumes "ws_chunk cfg d chunk u s = (Inr v, t)"
  shows "t = (if chunk = [] then s else feed_chunk u chunk s) \<and>
     up_ref v = up_ref u \<and> up_ino v = up_ino u \<and> up_pos v = up_pos u + length chunk \<and>
     up_written v = up_written u + int (length chunk) \<and>
     (chunk = [] \<or> up_written v \<le> max_bytes cfg)"
  using assms
  by (auto simp: ws_chunk_def Let_def act_apply feed_chunk_def split: if_splits)

lemma ws_chunk_Inl: "ws_chunk cfg d chunk u s = (Inl e, t) \<Longrightarrow> t = s"
  by (auto simp: ws_chunk_def Let_def act_apply split: if_splits)

lemma ws_chunk_upload:
  assumes u: "upload_ok cfg s u" and ok: "store_ok cfg s"
    and c: "ws_chunk cfg d chunk u s = (Inr v, t)"
  shows "sound_step cfg s t" "upload_ok cfg t v"
proof -
  note r = ws_chunk_Inr [OF c]
  show snd: "sound_step cfg s t"
  proof (cases "chunk = []")
    case False
    with r have "up_written u + int (length chunk) \<le> max_bytes cfg" by simp
    with False r show ?thesis using sound_feed_chunk [OF u] by simp
  qed (use r in \<open>simp add: sound_refl\<close>)
  then have "upload_ok cfg t u" using u ok by (simp add: sound_step_def)
  then show "upload_ok cfg t v"
    using r upload_okD(5) [OF u] by (auto simp: upload_ok_def)
qed

text \<open>
  Finishing: the partial file is still there only if the artifact is live and awaits its
  bytes, and then its object is the upload's.
\<close>

definition commit_obj :: "upload \<Rightarrow> store \<Rightarrow> artifact" where
  "commit_obj u s = (obj_at s (up_ref u))\<lparr>a_state := ''stored'', size_actual := Some (up_written u)\<rparr>"

lemma fs_rename_dir:
  "fs_rename a b f = Some g \<Longrightarrow> fdir g n = Some k \<Longrightarrow> fdir f n = Some k \<or> n = b \<and> fdir f a = Some k"
  by (auto simp: fs_rename_def split: option.splits if_splits)

lemma fs_rename_data:
  "fs_rename a b f = Some g \<Longrightarrow> fdata g = fdata f \<and> fnext g = fnext f"
  by (auto simp: fs_rename_def split: option.splits)

lemma rename_bytes:
  assumes "bytes_ok cfg f" "fs_rename (PartPath i) b f = Some g"
  shows "bytes_ok cfg g"
  using assms fs_rename_dir [OF assms(2)] fs_rename_data [OF assms(2)]
  unfolding bytes_ok_def is_meta_def by (metis fname.distinct(3))

lemma rename_upload:
  assumes "upload_ok cfg s u" "fs_rename (PartPath i) (BlobPath j) (files s) = Some g"
  shows "upload_ok cfg (s\<lparr>files := g\<rparr>) u"
proof -
  have "\<not> is_meta n" if "fdir g n = Some (up_ino u)" for n
    using fs_rename_dir [OF assms(2) that] upload_okD(3) [OF assms(1)] by (auto simp: is_meta_def)
  then show ?thesis
    using assms(1) fs_rename_data [OF assms(2)] by (simp add: upload_ok_def)
qed

lemma finish_live:
  assumes ok: "store_ok cfg s" and r: "r < length (objs s)"
    and part: "fs_read (files s) (PartPath (artifact_id (obj_at s r))) \<noteq> None"
  shows "dict_get (arts s) (artifact_id (obj_at s r)) = Some r" "awaiting (obj_at s r)"
proof -
  obtain a where a: "live s (artifact_id (obj_at s r)) = Some a" "awaiting a"
    using files_okD(3) [OF store_okD(2) [OF ok] part] by blast
  have "a = obj_at s r" by (rule live_own [OF store_okD(1) [OF ok] r a(1)])
  then show "awaiting (obj_at s r)" using a(2) by simp
  obtain q where q: "dict_get (arts s) (artifact_id (obj_at s r)) = Some q"
    using a(1) by (auto simp: live_def)
  then show "dict_get (arts s) (artifact_id (obj_at s r)) = Some r"
    using ref_unique [OF store_okD(1) [OF ok] r q] by simp
qed

lemma sound_finish:
  assumes u: "upload_ok cfg s u" and rp: "ws_replace u s = (Inr x, t)"
  shows "sound_step cfg s (ws_commit u t)"
proof -
  let ?r = "up_ref u" and ?i = "artifact_id (obj_at s (up_ref u))"
  obtain g where g: "fs_rename (PartPath ?i) (BlobPath ?i) (files s) = Some g"
      and t: "t = s\<lparr>files := g\<rparr>"
    using rp by (auto simp: ws_replace_def Let_def split: option.splits)
  let ?a = "commit_obj u s"
  have com: "ws_commit u t = persist ?a (set_obj ?r ?a t)"
    by (simp add: ws_commit_def commit_obj_def t Let_def)
  have r: "?r < length (objs s)" by (rule upload_okD(1) [OF u])
  have part: "fs_read (files s) (PartPath ?i) \<noteq> None"
    using g fs_rename_None_iff [of "PartPath ?i" "BlobPath ?i" "files s"] by simp
  show ?thesis
    unfolding com
  proof (rule sound_persist_gen)
    fix v assume "upload_ok cfg s v"
    then have "upload_ok cfg t v" using rename_upload [OF _ g] t by simp
    then show "upload_ok cfg (set_obj ?r ?a t) v" by (simp add: upload_ok_def set_obj_def)
  next
    assume ok: "store_ok cfg s"
    note fl = finish_live [OF ok r part] and fo = files_okD [OF store_okD(2) [OF ok]]
    have reg: "registry_ok cfg t" using store_okD(1) [OF ok] t by simp
    have ido: "artifact_id ?a = ?i" by (simp add: commit_obj_def)
    have st: "stored ?a" by (simp add: stored_def commit_obj_def)
    have aok: "art_ok cfg ?a"
      using art_ok_obj [OF store_okD(1) [OF ok] r] upload_okD(4,5) [OF u] st
      by (auto simp: art_ok_def commit_obj_def)
    have lv: "live (set_obj ?r ?a t) j = (if j = ?i then Some ?a else live s j)" for j
      using live_update [OF reg, of ?i ?r ?a j] fl(1) t by simp
    have fil: "files (set_obj ?r ?a t) = g" by (simp add: set_obj_def t)
    note rd = fs_read_rename [OF g]
    have "registry_ok cfg (set_obj ?r ?a t)"
      using reg r aok t by (intro registry_set_obj) (simp_all add: ido)
    moreover have "files_ok (persist ?a (set_obj ?r ?a t))"
    proof (rule files_persist)
      show "fs_ok (files (set_obj ?r ?a t))" using fs_ok_rename [OF fo(1) g] fil by simp
      show "fs_read (files (set_obj ?r ?a t)) (MetaPath j) =
          map_option (\<lambda>a. Doc (asdict a)) (live (set_obj ?r ?a t) j)" if "j \<noteq> artifact_id ?a" for j
        using that fo(2) [of j] by (simp add: lv fil rd ido)
      show "live (set_obj ?r ?a t) (artifact_id ?a) = Some ?a" by (simp add: lv ido)
      show "\<exists>x. live (set_obj ?r ?a t) j = Some x \<and> awaiting x"
        if "fs_read (files (set_obj ?r ?a t)) (PartPath j) \<noteq> None" for j
        using that fo(3) [of j] by (auto simp: lv fil rd split: if_splits)
      show "fs_read (files (set_obj ?r ?a t)) (BlobPath j) \<noteq> None \<longleftrightarrow>
          (\<exists>x. live (set_obj ?r ?a t) j = Some x \<and> stored x)" for j
        using fo(4) [of j] part st by (simp add: lv fil rd)
    qed
    ultimately show "registry_ok cfg (set_obj ?r ?a t) \<and> files_ok (persist ?a (set_obj ?r ?a t)) \<and>
        fs_ok (files (set_obj ?r ?a t)) \<and> bytes_ok cfg (files (set_obj ?r ?a t))"
      using fs_ok_rename [OF fo(1) g] rename_bytes [OF store_okD(4) [OF ok] g] fil by simp
  qed
qed

section \<open>The store as a machine\<close>

lemma sound_stepD:
  assumes "sound_step cfg (sys_store y) t" "sys_ok cfg y"
    and "set us \<subseteq> set (sys_uploads y)"
  shows "sys_ok cfg (y\<lparr>sys_store := t, sys_uploads := us\<rparr>)"
  using assms unfolding sys_ok_def sound_step_def by auto

lemma sound_stepD_store:
  "sound_step cfg (sys_store y) t \<Longrightarrow> sys_ok cfg y \<Longrightarrow> sys_ok cfg (y\<lparr>sys_store := t\<rparr>)"
  unfolding sys_ok_def sound_step_def by auto

lemma sys_ok_fail: "sys_ok cfg y \<Longrightarrow> sys_ok cfg (fail_upload k y)"
  unfolding fail_upload_def by (rule sound_stepD [OF sound_discard _ set_drop_nth])

lemma sys_ok_begin:
  assumes y: "sys_ok cfg y" shows "sys_ok cfg (store_step cfg (EvBegin now i d cl) y)"
proof (cases "get_art now i (sys_store y)")
  case (Pair ro s)
  have snd: "sound_step cfg (sys_store y) s" using sound_get [of cfg "sys_store y" now i] Pair by simp
  show ?thesis
  proof (cases ro)
    case None
    then show ?thesis using Pair sound_stepD_store [OF snd y] by simp
  next
    case (Some r)
    then have s: "s = sys_store y" and r: "dict_get (arts s) i = Some r"
      using Pair by (auto simp: get_art_def split: option.splits if_splits)
    have ok: "store_ok cfg s" "0 \<le> max_bytes cfg" using y s by (simp_all add: sys_ok_def)
    show ?thesis
    proof (cases "ws_begin cfg d r cl s")
      case (Pair res t)
      show ?thesis
      proof (cases res)
        case (Inl e)
        then have "t = s"
          using Pair by (auto simp: ws_begin_eq Let_def split: if_splits sum.splits)
        with Inl Pair \<open>get_art now i (sys_store y) = (ro, s)\<close> Some s y show ?thesis by simp
      next
        case (Inr u)
        with Pair have b: "ws_begin cfg d r cl s = (Inr u, t)" by simp
        note up = ws_begin_upload [OF ok r b]
        have "sys_ok cfg (y\<lparr>sys_store := t, sys_uploads := sys_uploads y @ [u]\<rparr>)"
          using y up s unfolding sys_ok_def sound_step_def by auto
        then show ?thesis
          using Inr Pair \<open>get_art now i (sys_store y) = (ro, s)\<close> Some by simp
      qed
    qed
  qed
qed

lemma sys_ok_chunk:
  assumes y: "sys_ok cfg y" shows "sys_ok cfg (store_step cfg (EvChunk k d c) y)"
proof (cases "k < length (sys_uploads y)")
  case True
  let ?u = "sys_uploads y ! k"
  have u: "upload_ok cfg (sys_store y) ?u" and ok: "store_ok cfg (sys_store y)"
    using y True by (auto simp: sys_ok_def)
  show ?thesis
  proof (cases "ws_chunk cfg d c ?u (sys_store y)")
    case (Pair res t)
    show ?thesis
    proof (cases res)
      case (Inl e)
      then have t: "t = sys_store y" using Pair ws_chunk_Inl by blast
      have "sys_ok cfg (fail_upload k (y\<lparr>sys_store := t\<rparr>))"
        using sys_ok_fail [OF y, of k] t by simp
      with True Inl Pair show ?thesis by simp
    next
      case (Inr v)
      with Pair have c: "ws_chunk cfg d c ?u (sys_store y) = (Inr v, t)" by simp
      note up = ws_chunk_upload [OF u ok c]
      have "set ((sys_uploads y)[k := v]) \<subseteq> insert v (set (sys_uploads y))"
        by (rule set_update_subset_insert)
      then have "sys_ok cfg (y\<lparr>sys_store := t, sys_uploads := (sys_uploads y)[k := v]\<rparr>)"
        using y up unfolding sys_ok_def sound_step_def by auto
      then show ?thesis using True Inr Pair by simp
    qed
  qed
qed (simp add: y)

lemma sys_ok_finish:
  assumes y: "sys_ok cfg y" shows "sys_ok cfg (store_step cfg (EvFinish k) y)"
proof (cases "k < length (sys_uploads y)")
  case True
  let ?u = "sys_uploads y ! k"
  have u: "upload_ok cfg (sys_store y) ?u" using y True by (auto simp: sys_ok_def)
  show ?thesis
  proof (cases "ws_replace ?u (sys_store y)")
    case (Pair res t)
    show ?thesis
    proof (cases res)
      case (Inl e)
      then have "t = sys_store y"
        using Pair by (auto simp: ws_replace_def Let_def split: option.splits)
      then show ?thesis using True Inl Pair sys_ok_fail [OF y, of k] by simp
    next
      case (Inr x)
      with Pair have "sound_step cfg (sys_store y) (ws_commit ?u t)"
        using sound_finish [OF u] by blast
      then have "sys_ok cfg (y\<lparr>sys_store := ws_commit ?u t, sys_uploads := drop_nth k (sys_uploads y)\<rparr>)"
        by (rule sound_stepD [OF _ y set_drop_nth])
      then show ?thesis using True Inr Pair by (simp add: Let_def)
    qed
  qed
qed (simp add: y)

lemma store_step_ok:
  assumes y: "sys_ok cfg y" and e: "store_env e y"
  shows "sys_ok cfg (store_step cfg e y)"
proof (cases e)
  case (EvCreate d now0 now rid tok fn n own ttl bj)
  then have "sound_step cfg (sys_store y) (snd (create_art cfg d now0 now rid tok fn n own ttl bj (sys_store y)))"
    using e by (intro sound_create) simp
  then show ?thesis using EvCreate sound_stepD_store [OF _ y] by simp
next
  case (EvBegin now i d cl)
  then show ?thesis using sys_ok_begin [OF y] by simp
next
  case (EvChunk k d c)
  then show ?thesis using sys_ok_chunk [OF y] by simp
next
  case (EvFinish k)
  then show ?thesis using sys_ok_finish [OF y] by simp
next
  case (EvBreak k)
  then show ?thesis using y sys_ok_fail [OF y] by simp
qed (use sound_stepD_store [OF _ y] in \<open>simp_all add: sound_intros\<close>)

interpretation store: machine "store_step cfg" "sys_ok cfg" store_env for cfg
  by unfold_locales (rule store_step_ok)

lemma init_sys_ok: "0 \<le> max_bytes cfg \<Longrightarrow> sys_ok cfg init_sys"
  by (simp add: sys_ok_def init_sys_def empty_store_def store_ok_def registry_ok_def files_ok_def
      bytes_ok_def live_def fs_empty_def fs_ok_def fs_read_def)

end
