(* ===== verification/StoreProps.thy ===== *)
theory StoreProps
  imports StoreInv
begin

text \<open>
  What the artifact store promises: an accepted upload is stored byte for byte, a refused
  one leaves nothing, no interleaving of uploads writes past the cap, the files under the
  root are those the registry calls for and reload to the same registry, an artifact that
  is gone stays gone, and what the identifiers and file names look like.
\<close>

section \<open>One upload at a time\<close>

definition set_inode :: "nat \<Rightarrow> content \<Rightarrow> store \<Rightarrow> store" where
  "set_inode i c s = s\<lparr>files := (files s)\<lparr>fdata := (fdata (files s))(i := c)\<rparr>\<rparr>"

lemma set_inode_simps [simp]:
  "fdata (files (set_inode i c s)) j = (if j = i then c else fdata (files s) j)"
  "fdir (files (set_inode i c s)) = fdir (files s)"
  "objs (set_inode i c s) = objs s" "arts (set_inode i c s) = arts s"
  "pending (set_inode i c s) = pending s"
  "set_inode i c (set_inode i c' s) = set_inode i c s"
  "fnext (files (set_inode i c s)) = fnext (files s)"
  "obj_at (set_inode i c s) = obj_at s" "live (set_inode i c s) = live s"
  by (simp_all add: set_inode_def)

lemma set_inode_same: "fdata (files s) i = c \<Longrightarrow> set_inode i c s = s"
  by (simp add: set_inode_def fun_upd_idem)

lemma feed_chunk_inode:
  "fdata (files s) (up_ino u) = Bytes b \<Longrightarrow> up_pos u = length b \<Longrightarrow>
     feed_chunk u c s = set_inode (up_ino u) (Bytes (b @ c)) s"
  by (simp add: feed_chunk_def set_inode_def fs_write_ino_def write_at_end)

lemma ws_feed_Inr:
  assumes "ws_feed cfg items u s = (Inr v, t)"
    and "fdata (files s) (up_ino u) = Bytes b" "up_pos u = length b"
  shows "t = set_inode (up_ino u) (Bytes (b @ stream_bytes items)) s \<and>
     up_ref v = up_ref u \<and> up_written v = up_written u + int (length (stream_bytes items))"
  using assms
proof (induction cfg items u arbitrary: s b rule: ws_feed.induct)
  case (1 cfg u)
  then show ?case by (simp add: act_apply set_inode_same)
next
  case (2 cfg e items u)
  then show ?case by (simp add: act_apply)
next
  case (3 cfg d c items u)
  obtain w s1 where w: "ws_chunk cfg d c u s = (Inr w, s1)"
      and rest: "ws_feed cfg items w s1 = (Inr v, t)"
    using "3.prems"(1) by (auto simp: bind_act_Inr_iff)
  note r = ws_chunk_Inr [OF w]
  have s1: "s1 = set_inode (up_ino u) (Bytes (b @ c)) s"
    using r "3.prems"(2,3) by (cases "c = []") (simp_all add: set_inode_same feed_chunk_inode)
  have w_eqs: "up_ino w = up_ino u" "up_ref w = up_ref u" "up_pos w = up_pos u + length c"
      "up_written w = up_written u + int (length c)"
    using r by simp_all
  have "t = set_inode (up_ino w) (Bytes ((b @ c) @ stream_bytes items)) s1 \<and>
      up_ref v = up_ref w \<and> up_written v = up_written w + int (length (stream_bytes items))"
    by (rule "3.IH" [OF rest]) (simp_all add: s1 w_eqs "3.prems"(3))
  then show ?case by (simp add: s1 w_eqs)
qed

lemma ws_feed_Inl:
  assumes "ws_feed cfg items u s = (Inl e, t)"
  shows "\<exists>c. t = set_inode (up_ino u) c s"
  using assms
proof (induction cfg items u arbitrary: s rule: ws_feed.induct)
  case (2 cfg e' items u)
  then show ?case by (intro exI [of _ "fdata (files s) (up_ino u)"]) (simp add: act_apply set_inode_same)
next
  case (3 cfg d c items u)
  consider (now) "ws_chunk cfg d c u s = (Inl e, t)"
    | (later) w s1 where "ws_chunk cfg d c u s = (Inr w, s1)" "ws_feed cfg items w s1 = (Inl e, t)"
    using "3.prems" by (auto simp: bind_act_Inl_iff)
  then show ?case
  proof cases
    case now
    then have "t = s" by (rule ws_chunk_Inl)
    then show ?thesis by (intro exI [of _ "fdata (files s) (up_ino u)"]) (simp add: set_inode_same)
  next
    case later
    note r = ws_chunk_Inr [OF later(1)]
    obtain x where x: "t = set_inode (up_ino w) x s1" using "3.IH" [OF later(2)] by blast
    have "\<exists>y. s1 = set_inode (up_ino u) y s"
    proof (cases "c = []")
      case True
      then show ?thesis using r
        by (intro exI [of _ "fdata (files s) (up_ino u)"]) (simp add: set_inode_same)
    next
      case False
      then show ?thesis using r by (auto simp: feed_chunk_def set_inode_def fs_write_ino_def)
    qed
    then show ?thesis using x r by auto
  qed
qed (simp add: act_apply)

text \<open>
  A stream that never breaks, that stays within the cap, and that always finds some
  headroom when the free space is checked again, is taken to its end.
\<close>

fun steady :: "store_cfg \<Rightarrow> stream_item list \<Rightarrow> bool" where
  "steady cfg [] = True"
| "steady cfg (Chunk d c # items) = (0 < headroom_bytes cfg d \<and> steady cfg items)"
| "steady cfg (Broken e # items) = False"

lemma ws_feed_accepts:
  "steady cfg items \<Longrightarrow> up_written u + int (length (stream_bytes items)) \<le> max_bytes cfg \<Longrightarrow>
     \<exists>v t. ws_feed cfg items u s = (Inr v, t)"
proof (induction cfg items u arbitrary: s rule: ws_feed.induct)
  case (3 cfg d c items u)
  then have "\<exists>w s1. ws_chunk cfg d c u s = (Inr w, s1)"
    by (auto simp: ws_chunk_def Let_def act_apply)
  then obtain w s1 where w: "ws_chunk cfg d c u s = (Inr w, s1)" by blast
  have "up_written w + int (length (stream_bytes items)) \<le> max_bytes cfg"
    using ws_chunk_Inr [OF w] "3.prems"(2) by simp
  then obtain v t where "ws_feed cfg items w s1 = (Inr v, t)"
    using "3.IH" [of w s1] "3.prems"(1) by auto
  with w show ?case by (auto simp: bind_act_cases(2))
qed (simp_all add: act_apply)

text \<open>The upload of a stream, once its first step has been taken.\<close>

lemma ws_begin_Inr:
  assumes "ws_begin cfg d r cl s = (Inr u, t)"
  shows "awaiting (obj_at s r) \<and> t = open_part (artifact_id (obj_at s r)) s \<and>
    up_ref u = r \<and> up_pos u = 0 \<and> up_written u = 0 \<and>
    fdir (files t) (PartPath (artifact_id (obj_at s r))) = Some (up_ino u) \<and>
    fdata (files t) (up_ino u) = Bytes []"
  using assms
  by (auto simp: ws_begin_eq Let_def open_part_def fs_put_dir fs_put_data
      split: if_splits sum.splits option.splits)

definition stored_as :: "artifact \<Rightarrow> int \<Rightarrow> artifact" where
  "stored_as a n = a\<lparr>a_state := ''stored'', size_actual := Some n\<rparr>"

lemma write_stream_unfold:
  assumes b: "ws_begin cfg d r cl s = (Inr u, s1)"
  shows "write_stream cfg d r cl items s =
    (case ws_feed cfg items u s1 of
       (Inl e, s2) \<Rightarrow> (Inl e, ws_discard r s2)
     | (Inr v, s2) \<Rightarrow> (case ws_replace v s2 of
           (Inl e, s3) \<Rightarrow> (Inl e, ws_discard r s3)
         | (Inr _, s3) \<Rightarrow> (Inr r, ws_commit v s3)))"
  using b unfolding write_stream_def
  by (simp add: bind_act_def try_act_def act_apply split: prod.splits sum.splits)

text \<open>The result of a successful upload, computed from the state it started in.\<close>

lemma write_stream_run:
  assumes ok: "store_ok cfg s" and r: "dict_get (arts s) i = Some r"
    and b: "ws_begin cfg d r cl s = (Inr u, s1)"
    and f: "ws_feed cfg items u s1 = (Inr v, s2)"
  shows "\<exists>t. write_stream cfg d r cl items s = (Inr r, t) \<and>
     (let n = int (length (stream_bytes items)) in
      fs_read (files t) (BlobPath i) = Some (Bytes (stream_bytes items)) \<and>
      fs_read (files t) (PartPath i) = None \<and>
      live t i = Some (stored_as (obj_at s r) n) \<and>
      fs_read (files t) (MetaPath i) = Some (Doc (asdict (stored_as (obj_at s r) n))) \<and>
      (\<forall>j. j \<noteq> i \<longrightarrow> live t j = live s j \<and>
        (\<forall>p \<in> {MetaPath, BlobPath, PartPath}. fs_read (files t) (p j) = fs_read (files s) (p j))))"
proof -
  have reg: "registry_ok cfg s" and fo: "fs_ok (files s)"
    using store_okD [OF ok] by simp_all
  have id: "artifact_id (obj_at s r) = i" by (rule registry_okD(2) [OF reg r])
  have len: "r < length (objs s)" by (rule registry_okD(1) [OF reg r])
  note bg = ws_begin_Inr [OF b, unfolded id]
  have fed: "s2 = set_inode (up_ino u) (Bytes (stream_bytes items)) s1"
      "up_ref v = r" "up_written v = int (length (stream_bytes items))"
    using ws_feed_Inr [OF f] bg by auto
  have fo1: "fs_ok (files s1)" using bg fo by (simp add: open_part_def)
  have rd1: "fs_read (files s1) n = (if n = PartPath i then Some (Bytes []) else fs_read (files s) n)" for n
    using bg fo by (simp add: open_part_def fs_read_put)
  have rd2: "fs_read (files s2) n =
      (if n = PartPath i then Some (Bytes (stream_bytes items)) else fs_read (files s) n)" for n
  proof -
    have "fdir (files s1) n = Some (up_ino u) \<longleftrightarrow> n = PartPath i"
      using bg fo1 unfolding fs_ok_def by metis
    then show ?thesis
      using rd1 [of n] bg fed(1) by (cases "fdir (files s1) n") (auto simp: fs_read_def)
  qed
  have fo2: "fs_ok (files s2)" using fo1 fed(1) by (simp add: fs_ok_def)
  have at2: "obj_at s2 = obj_at s" "arts s2 = arts s" "objs s2 = objs s" "live s2 = live s"
    using fed(1) bg by (simp_all add: open_part_def)
  obtain g where g: "fs_rename (PartPath i) (BlobPath i) (files s2) = Some g"
    using fs_rename_None_iff [of "PartPath i" "BlobPath i" "files s2"] rd2 by fastforce
  let ?s3 = "s2\<lparr>files := g\<rparr>" and ?n = "int (length (stream_bytes items))"
  let ?a = "stored_as (obj_at s r) ?n"
  have rp: "ws_replace v s2 = (Inr (), ?s3)"
    using g by (simp add: ws_replace_def Let_def fed(2) at2 id)
  let ?t = "ws_commit v ?s3"
  have t: "?t = persist ?a (set_obj r ?a ?s3)"
    by (simp add: ws_commit_def stored_as_def fed(2,3) at2 Let_def)
  have aid: "artifact_id ?a = i" by (simp add: stored_as_def id)
  have fog: "fs_ok g" by (rule fs_ok_rename [OF fo2 g])
  have lv: "live ?t j = (if j = i then Some ?a else live s j)" for j
  proof -
    have "dict_get (arts s) j = Some r \<longleftrightarrow> j = i"
      using registry_okD(2) [OF reg, of j r] id r by auto
    then show ?thesis using len by (simp add: t live_set_obj at2)
  qed
  have rd: "fs_read (files ?t) n =
      (if n = MetaPath i then Some (Doc (asdict ?a))
       else if n = PartPath i then None
       else if n = BlobPath i then Some (Bytes (stream_bytes items)) else fs_read (files s) n)" for n
    using fog by (simp add: t persist_def fs_read_put aid set_obj_def fs_read_rename [OF g] rd2)
  have "write_stream cfg d r cl items s = (Inr r, ?t)"
    by (simp only: write_stream_unfold [OF b] f rp prod.case sum.case)
  then show ?thesis by (intro exI [of _ ?t]) (simp add: Let_def rd lv)
qed

lemma write_stream_refused:
  assumes ok: "store_ok cfg s" and r: "dict_get (arts s) i = Some r"
    and w: "write_stream cfg d r cl items s = (Inl e, t)"
    and aw: "awaiting (obj_at s r)"
  shows "(ws_begin cfg d r cl s = (Inl e, s) \<and> t = s \<or> fs_read (files t) (PartPath i) = None) \<and>
     live t = live s \<and> arts t = arts s \<and> pending t = pending s \<and>
     (\<forall>n. n \<noteq> PartPath i \<longrightarrow> fs_read (files t) n = fs_read (files s) n)"
proof (cases "ws_begin cfg d r cl s")
  case (Pair res s1)
  show ?thesis
  proof (cases res)
    case (Inl e')
    then have "e' = e \<and> t = s1" using w Pair by (simp add: write_stream_def bind_act_def)
    moreover have "s1 = s"
      using Pair Inl by (auto simp: ws_begin_eq Let_def split: if_splits sum.splits)
    ultimately show ?thesis using Pair Inl by simp
  next
    case (Inr u)
    with Pair have b: "ws_begin cfg d r cl s = (Inr u, s1)" by simp
    have reg: "registry_ok cfg s" and fo: "fs_ok (files s)" using store_okD [OF ok] by simp_all
    have id: "artifact_id (obj_at s r) = i" by (rule registry_okD(2) [OF reg r])
    note bg = ws_begin_Inr [OF b, unfolded id]
    have fo1: "fs_ok (files s1)" using bg fo by (simp add: open_part_def)
    have only: "fdir (files s1) n = Some (up_ino u) \<longleftrightarrow> n = PartPath i" for n
      using bg fo1 unfolding fs_ok_def by metis
    have s1: "obj_at s1 = obj_at s" "live s1 = live s" "arts s1 = arts s" "pending s1 = pending s"
      using bg by (simp_all add: open_part_def)
    have rd1: "n \<noteq> PartPath i \<Longrightarrow> fs_read (files s1) n = fs_read (files s) n" for n
      using bg fo by (simp add: open_part_def fs_read_put)
    obtain c where t: "t = ws_discard r (set_inode (up_ino u) c s1)"
    proof (cases "ws_feed cfg items u s1")
      case (Pair res2 s2)
      show ?thesis
      proof (cases res2)
        case (Inl e2)
        then have "t = ws_discard r s2" using w Pair by (simp add: write_stream_unfold [OF b])
        then show ?thesis using that ws_feed_Inl Pair Inl by blast
      next
        case (Inr v)
        with Pair have "ws_feed cfg items u s1 = (Inr v, s2)" by simp
        from write_stream_run [OF ok r b this] show ?thesis using w by auto
      qed
    qed
    have rd: "fs_read (files t) n = (if n = PartPath i then None else fs_read (files s) n)" for n
    proof -
      have "n \<noteq> PartPath i \<Longrightarrow> fs_read (files (set_inode (up_ino u) c s1)) n = fs_read (files s1) n"
        using only [of n] by (cases "fdir (files s1) n") (auto simp: fs_read_def)
      then show ?thesis by (simp add: t ws_discard_def s1 id rd1)
    qed
    show ?thesis by (simp add: rd) (simp add: t ws_discard_def s1)
  qed
qed

section \<open>Restarting\<close>

definition refs_in :: "store \<Rightarrow> bool" where
  "refs_in s \<longleftrightarrow> (\<forall>k r. dict_get (arts s) k = Some r \<longrightarrow> r < length (objs s))"

lemma load_one_sidecar:
  assumes ok: "store_ok cfg s" and st: "refs_in st"
  shows "live (load_one (files s) i st) j = (if j = i \<and> live s i \<noteq> None then live s i else live st j)
    \<and> refs_in (load_one (files s) i st)"
proof (cases "live s i")
  case None
  then have "fs_read (files s) (MetaPath i) = None"
    using files_okD(2) [OF store_okD(2) [OF ok], of i] by simp
  then show ?thesis using None st by simp
next
  case (Some a)
  then have doc: "fs_read (files s) (MetaPath i) = Some (Doc (asdict a))"
    using files_okD(2) [OF store_okD(2) [OF ok], of i] by simp
  have id: "artifact_id a = i" using live_ref [OF store_okD(1) [OF ok] Some] by blast
  let ?t = "st\<lparr>objs := objs st @ [a], arts := dict_set i (length (objs st)) (arts st)\<rparr>"
  have t: "load_one (files s) i st = ?t" by (simp add: doc artifact_of_asdict id)
  have "obj_at ?t r = obj_at st r" if "r < length (objs st)" for r
    using that by (simp add: obj_at_def nth_append)
  moreover have "obj_at ?t (length (objs st)) = a" by (simp add: obj_at_def)
  moreover have "live ?t j = (if j = i then Some a else live st j)"
    using calculation st by (cases "dict_get (arts st) j") (auto simp: live_def refs_in_def)
  moreover have "refs_in ?t" using st by (auto simp: refs_in_def less_SucI)
  ultimately show ?thesis using t Some by simp
qed

lemma load_live:
  assumes ok: "store_ok cfg s"
  shows "live (load ids (files s)) j = (if j \<in> set ids then live s j else None)"
proof -
  have "refs_in st \<Longrightarrow> refs_in (fold (load_one (files s)) ids st) \<and>
      live (fold (load_one (files s)) ids st) j =
        (if j \<in> set ids \<and> live s j \<noteq> None then live s j else live st j)" for st
  proof (induction ids arbitrary: st)
    case (Cons i ids)
    note one = load_one_sidecar [OF ok Cons.prems, of i j]
    have "refs_in (load_one (files s) i st)" using one by blast
    from Cons.IH [OF this] show ?case using one by auto
  qed simp
  from this [of "\<lparr>objs = [], arts = [], pending = [], files = files s\<rparr>"]
  show ?thesis by (auto simp: load_def refs_in_def live_def)
qed

section \<open>What is gone stays gone\<close>

definition known_ids :: "store \<Rightarrow> string set" where
  "known_ids s = artifact_id ` set (objs s)"

definition dead_ids :: "store \<Rightarrow> string set" where
  "dead_ids s = {i \<in> known_ids s. dict_get (arts s) i = None}"

definition no_revival :: "store \<Rightarrow> store \<Rightarrow> bool" where
  "no_revival s t \<longleftrightarrow> known_ids s \<subseteq> known_ids t \<and>
     (\<forall>i \<in> known_ids s. dict_get (arts s) i = None \<longrightarrow> dict_get (arts t) i = None)"

lemma no_revival_dead: "no_revival s t \<Longrightarrow> dead_ids s \<subseteq> dead_ids t"
  by (auto simp: no_revival_def dead_ids_def)

lemma no_revival_trans: "no_revival s t \<Longrightarrow> no_revival t u \<Longrightarrow> no_revival s u"
  by (auto simp: no_revival_def)

lemma no_revival_same: "objs t = objs s \<Longrightarrow> arts t = arts s \<Longrightarrow> no_revival s t"
  by (simp add: no_revival_def known_ids_def)

lemma no_revival_forget: "no_revival s (forget i q s)"
  by (simp add: no_revival_def known_ids_def forget_def)

lemma no_revival_reap: "no_revival s (snd (reap now s))"
proof -
  have "no_revival t (fold (\<lambda>r. reap_one (obj_at s r)) rs t)" for rs t
  proof (induction rs arbitrary: t)
    case (Cons r rs)
    show ?case
      using Cons [of "reap_one (obj_at s r) t"] no_revival_forget
      by (auto simp: reap_one_forget intro: no_revival_trans)
  qed (simp add: no_revival_same)
  then show ?thesis by (simp add: reap_def Let_def)
qed

lemma known_set_obj:
  "r < length (objs s) \<Longrightarrow> artifact_id a = artifact_id (obj_at s r) \<Longrightarrow> known_ids (set_obj r a s) = known_ids s"
proof -
  assume "r < length (objs s)" "artifact_id a = artifact_id (obj_at s r)"
  then have "map artifact_id ((objs s)[r := a]) = map artifact_id (objs s)"
    by (simp add: map_update obj_at_def) (metis list_update_id nth_map)
  then have "set (map artifact_id ((objs s)[r := a])) = set (map artifact_id (objs s))" by simp
  then show ?thesis by (simp add: known_ids_def set_obj_def)
qed

lemma known_persist [simp]: "known_ids (persist a s) = known_ids s" "arts (persist a s) = arts s"
  by (simp_all add: known_ids_def persist_def)

lemma no_revival_set_obj:
  "r < length (objs s) \<Longrightarrow> artifact_id a = artifact_id (obj_at s r) \<Longrightarrow> no_revival s (persist a (set_obj r a s))"
  using known_set_obj [of r s a] by (simp add: no_revival_def) (simp add: set_obj_def)

lemma no_revival_create:
  assumes "rid \<notin> known_ids s"
  shows "no_revival s (snd (create_art cfg d now0 now rid tok fn n own ttl bj s))"
proof (cases "check_admission cfg d n")
  case (Inl e)
  then show ?thesis by (simp add: create_art_eq Let_def no_revival_reap)
next
  case (Inr x)
  let ?t = "snd (reap now0 s)" and ?a = "new_artifact cfg now rid tok fn n own ttl bj"
  have "rid \<notin> known_ids ?t" using assms by (simp add: known_ids_def)
  moreover have "artifact_id ?a = rid" by (simp add: new_artifact_def)
  ultimately have "no_revival ?t (persist ?a (enlist ?a ?t))"
    by (auto simp: no_revival_def) (auto simp: known_ids_def enlist_def)
  with Inr show ?thesis by (simp add: create_art_eq Let_def no_revival_trans [OF no_revival_reap])
qed

lemma no_revival_token: "registry_ok cfg s \<Longrightarrow> no_revival s (set_lava_token_name i n s)"
proof (cases "dict_get (arts s) i")
  case (Some r)
  assume "registry_ok cfg s"
  then have "r < length (objs s)" using Some by (rule registry_okD)
  then show ?thesis
    using Some by (simp add: set_lava_token_name_def Let_def no_revival_set_obj)
qed (simp add: set_lava_token_name_def no_revival_same)

lemma no_revival_step:
  assumes y: "sys_ok cfg y" and e: "store_env e y"
  shows "no_revival (sys_store y) (sys_store (store_step cfg e y))"
proof (cases e)
  case (EvCreate d now0 now rid tok fn n own ttl bj)
  then show ?thesis using e by (simp add: no_revival_create known_ids_def)
next
  case (EvGet now i)
  then show ?thesis
    by (auto simp: get_art_def reap_one_forget no_revival_same no_revival_forget split: option.splits)
next
  case (EvDelete i own)
  then show ?thesis
    using no_revival_forget [of "sys_store y" i]
    by (auto simp: delete_art_def forget_def no_revival_same split: option.splits)
next
  case (EvReap now)
  then show ?thesis by (simp add: no_revival_reap)
next
  case (EvTokenName i n)
  then show ?thesis using y no_revival_token by (auto simp: sys_ok_def store_ok_def)
next
  case (EvTakePending own)
  then show ?thesis by (simp add: take_pending_def Let_def no_revival_same)
next
  case (EvBegin now i d cl)
  obtain ro s where g: "get_art now i (sys_store y) = (ro, s)" by fastforce
  have s: "no_revival (sys_store y) s"
    using g by (auto simp: get_art_def reap_one_forget no_revival_same no_revival_forget
        split: option.splits if_splits)
  have "objs t = objs s \<and> arts t = arts s" if "ws_begin cfg d r cl s = (res, t)" for r res t
    using that by (auto simp: ws_begin_eq Let_def open_part_def split: if_splits sum.splits)
  then have b: "no_revival (sys_store y) t" if "ws_begin cfg d r cl s = (res, t)" for r res t
    using that by (intro no_revival_trans [OF s no_revival_same]) auto
  show ?thesis
    using EvBegin g s by (auto split: option.splits prod.splits sum.splits intro: b)
next
  case (EvChunk k d c)
  have "objs t = objs s \<and> arts t = arts s" if "ws_chunk cfg d c u s = (res, t)" for u res s t
    using that by (auto simp: ws_chunk_def Let_def act_apply split: if_splits)
  then show ?thesis
    using EvChunk by (auto simp: fail_upload_def ws_discard_def split: prod.splits sum.splits
        intro: no_revival_same)
next
  case (EvFinish k)
  show ?thesis
  proof (cases "k < length (sys_uploads y)")
    case True
    let ?u = "sys_uploads y ! k"
    have len: "up_ref ?u < length (objs (sys_store y))"
      using y True by (auto simp: sys_ok_def upload_ok_def)
    obtain res t where rp: "ws_replace ?u (sys_store y) = (res, t)" by fastforce
    then have t: "objs t = objs (sys_store y)" "arts t = arts (sys_store y)"
      by (auto simp: ws_replace_def Let_def split: option.splits)
    show ?thesis
    proof (cases res)
      case (Inl e')
      then show ?thesis
        using EvFinish True rp t by (simp add: fail_upload_def ws_discard_def Let_def no_revival_same)
    next
      case (Inr x)
      have "no_revival t (ws_commit ?u t)"
        using len t by (simp add: ws_commit_def Let_def no_revival_set_obj)
      then have "no_revival (sys_store y) (ws_commit ?u t)"
        by (rule no_revival_trans [OF no_revival_same [OF t]])
      then show ?thesis using EvFinish True rp Inr by (simp add: Let_def)
    qed
  qed (simp add: EvFinish no_revival_same)
next
  case (EvBreak k)
  then show ?thesis by (simp add: fail_upload_def ws_discard_def no_revival_same)
qed

interpretation store_dead: monotone_machine "store_step cfg" "sys_ok cfg" store_env
    "\<lambda>y. dead_ids (sys_store y)" for cfg
  by unfold_locales (rule no_revival_dead [OF no_revival_step])

end
