(* ===== verification/StoreSpec.thy ===== *)
theory StoreSpec
  imports StoreProps
begin

text \<open>
  The abstract specification of the artifact store and the proof that the store of the
  code implements it, and the properties of the store. Abstractly the store is a map from
  identifiers to metadata and, once uploaded, bytes: no files, no inodes, no object
  references, no partial uploads.
\<close>

section \<open>The abstract store\<close>

type_synonym abs_store = "string \<rightharpoonup> artifact \<times> char list option"

definition view :: "store \<Rightarrow> abs_store" where
  "view s i = map_option (\<lambda>a. (a, map_option bytes_of (fs_read (files s) (BlobPath i)))) (live s i)"

definition abs_reap :: "rat \<Rightarrow> abs_store \<Rightarrow> abs_store" where
  "abs_reap now m = (\<lambda>i. case m i of None \<Rightarrow> None | Some (a, b) \<Rightarrow> if expired now a then None else Some (a, b))"

definition abs_create :: "store_cfg \<Rightarrow> disk \<Rightarrow> rat \<Rightarrow> artifact \<Rightarrow> abs_store \<Rightarrow> (exc + artifact) \<times> abs_store" where
  "abs_create cfg d now0 a m = (case check_admission cfg d (size_declared a) of
      Inl e \<Rightarrow> (Inl e, abs_reap now0 m)
    | Inr _ \<Rightarrow> (Inr a, (abs_reap now0 m)(artifact_id a \<mapsto> (a, None))))"

definition abs_get :: "rat \<Rightarrow> string \<Rightarrow> abs_store \<Rightarrow> artifact option \<times> abs_store" where
  "abs_get now i m = (case m i of
      None \<Rightarrow> (None, m)
    | Some (a, b) \<Rightarrow> if expired now a then (None, m(i := None)) else (Some a, m))"

definition abs_delete :: "string \<Rightarrow> string option \<Rightarrow> abs_store \<Rightarrow> artifact option \<times> abs_store" where
  "abs_delete i own m = (case m i of
      None \<Rightarrow> (None, m)
    | Some (a, b) \<Rightarrow> if own = None \<or> own = Some (a_owner a) then (Some a, m(i := None)) else (None, m))"

text \<open>
  What becomes of a stream that arrives with \<open>written\<close> bytes already taken: the exception
  it ends in, or all its bytes.
\<close>

fun stream_result :: "store_cfg \<Rightarrow> int \<Rightarrow> int \<Rightarrow> stream_item list \<Rightarrow> exc + char list" where
  "stream_result cfg written checkpoint [] = Inr []"
| "stream_result cfg written checkpoint (Broken e # items) = Inl e"
| "stream_result cfg written checkpoint (Chunk d c # items) =
     (let n = written + int (length c); due = (n - checkpoint \<ge> recheck_bytes) in
      if c = [] then stream_result cfg written checkpoint items
      else if n > max_bytes cfg then
        Inl (ArtifactError ''upload exceeds the per-artifact cap'' ''exceeds_cap''
          [(''received_bytes'', n), (''max_artifact_bytes'', max_bytes cfg)])
      else if due \<and> headroom_bytes cfg d \<le> 0 then
        Inl (ArtifactError ''disk floor reached during upload'' ''insufficient_disk''
          [(''received_bytes'', n)])
      else map_sum id (\<lambda>b. c @ b) (stream_result cfg n (if due then n else checkpoint) items))"

definition abs_upload :: "store_cfg \<Rightarrow> disk \<Rightarrow> int option \<Rightarrow> stream_item list \<Rightarrow> string \<Rightarrow> abs_store \<Rightarrow>
    (exc + artifact) \<times> abs_store" where
  "abs_upload cfg d cl items i m = (case m i of
      None \<Rightarrow> (Inl KeyError, m)
    | Some (a, b) \<Rightarrow>
        if \<not> awaiting a then (Inl (ArtifactError ''artifact already uploaded'' ''bad_state'' []), m)
        else (case (case cl of None \<Rightarrow> Inr () | Some n \<Rightarrow> check_admission cfg d n) of
            Inl e \<Rightarrow> (Inl e, m)
          | Inr _ \<Rightarrow> (case stream_result cfg 0 0 items of
                Inl e \<Rightarrow> (Inl e, m)
              | Inr bs \<Rightarrow> (let a' = stored_as a (int (length bs)) in (Inr a', m(i \<mapsto> (a', Some bs)))))))"

section \<open>The view of the store after each operation\<close>

lemma view_forget: "view (forget i q s) = (view s)(i := None)"
  by (rule ext) (simp add: view_def live_forget, simp add: forget_def remove_files_read)

lemma view_upd: "(\<And>j. live t j = live s j) \<Longrightarrow>
    (\<And>j. fs_read (files t) (BlobPath j) = fs_read (files s) (BlobPath j)) \<Longrightarrow> view t = view s"
  by (rule ext) (simp add: view_def)

lemma obj_at_reap_one [simp]: "obj_at (reap_one a s) = obj_at s"
  by (simp add: reap_one_def obj_at_def fun_eq_iff)

lemma view_reap_one: "view (reap_one a s) = (view s)(artifact_id a := None)"
  by (simp add: reap_one_forget view_forget)

lemma view_fold_reap:
  "view (fold (\<lambda>r. reap_one (obj_at s r)) rs t) =
     (\<lambda>i. if i \<in> (\<lambda>r. artifact_id (obj_at s r)) ` set rs then None else view t i)"
proof (induction rs arbitrary: t)
  case (Cons r rs)
  have "view (fold (\<lambda>r. reap_one (obj_at s r)) (r # rs) t) =
      (\<lambda>i. if i \<in> (\<lambda>r. artifact_id (obj_at s r)) ` set rs then None
           else view (reap_one (obj_at s r) t) i)"
    using Cons [of "reap_one (obj_at s r) t"] by simp
  then show ?case by (auto simp: view_reap_one fun_eq_iff)
qed simp

lemma expired_ids:
  assumes reg: "registry_ok cfg s"
  shows "i \<in> (\<lambda>r. artifact_id (obj_at s r)) ` set (expired_refs now s) \<longleftrightarrow>
     (\<exists>a. live s i = Some a \<and> expired now a)"
proof
  assume "i \<in> (\<lambda>r. artifact_id (obj_at s r)) ` set (expired_refs now s)"
  then obtain r j where r: "(j, r) \<in> set (arts s)" "expired now (obj_at s r)" "i = artifact_id (obj_at s r)"
    by (auto simp: expired_refs_def)
  then have "dict_get (arts s) j = Some r" using reg dict_get_item by (auto simp: registry_ok_def)
  moreover from this have "j = i" using registry_okD(2) [OF reg] r(3) by blast
  ultimately show "\<exists>a. live s i = Some a \<and> expired now a" using r(2) by (simp add: live_def)
next
  assume "\<exists>a. live s i = Some a \<and> expired now a"
  then obtain r where r: "dict_get (arts s) i = Some r" "expired now (obj_at s r)"
    by (auto simp: live_def)
  then have "r \<in> set (expired_refs now s)"
    using dict_get_SomeD [OF r(1)] by (force simp: expired_refs_def)
  then show "i \<in> (\<lambda>r. artifact_id (obj_at s r)) ` set (expired_refs now s)"
    using registry_okD(2) [OF reg r(1)] by (force simp: image_iff)
qed

lemma view_reap:
  assumes "registry_ok cfg s"
  shows "view (snd (reap now s)) = abs_reap now (view s)"
proof
  fix i
  show "view (snd (reap now s)) i = abs_reap now (view s) i"
    using expired_ids [OF assms, of i now]
    by (cases "live s i") (auto simp: reap_def Let_def view_fold_reap abs_reap_def view_def)
qed

lemma view_live: "live s i = Some a \<Longrightarrow> \<exists>b. view s i = Some (a, b)"
  by (simp add: view_def)

lemma get_refines:
  assumes reg: "registry_ok cfg s" and g: "get_art now i s = (ro, t)"
  shows "abs_get now i (view s) = (map_option (obj_at s) ro, view t)"
proof (cases "dict_get (arts s) i")
  case None
  then show ?thesis using g by (auto simp: get_art_def abs_get_def view_def live_def)
next
  case (Some r)
  have id: "artifact_id (obj_at s r) = i" by (rule registry_okD(2) [OF reg Some])
  have v: "\<exists>b. view s i = Some (obj_at s r, b)" using Some by (simp add: view_def live_def)
  have "get_art now i s = (if expired now (obj_at s r) then (None, reap_one (obj_at s r) s) else (Some r, s))"
    using Some by (simp add: get_art_def)
  then show ?thesis using g v by (auto simp: abs_get_def view_reap_one id split: if_splits)
qed

lemma delete_refines:
  assumes dl: "delete_art i own s = (ro, t)"
  shows "abs_delete i own (view s) = (map_option (obj_at s) ro, view t)"
proof (cases "dict_get (arts s) i")
  case None
  then show ?thesis using dl by (auto simp: delete_art_def abs_delete_def view_def live_def)
next
  case (Some r)
  have v: "\<exists>b. view s i = Some (obj_at s r, b)" using Some by (simp add: view_def live_def)
  have f: "delete_art i own s =
      (if own = None \<or> own = Some (a_owner (obj_at s r))
       then (Some r, forget i (queue_token (obj_at s r) (pending s)) s) else (None, s))"
    using Some by (auto simp: delete_art_def forget_def)
  show ?thesis using dl v by (auto simp: f abs_delete_def view_forget split: if_splits)
qed

lemma live_enlist:
  assumes reg: "registry_ok cfg s"
  shows "live (enlist a s) j = (if j = artifact_id a then Some a else live s j)"
proof -
  have "obj_at (enlist a s) r = obj_at s r" if "r < length (objs s)" for r
    using that by (simp add: obj_at_def enlist_def nth_append)
  moreover have "obj_at (enlist a s) (length (objs s)) = a"
    by (simp add: obj_at_def enlist_def)
  ultimately show ?thesis
    using registry_okD(1) [OF reg]
    by (cases "dict_get (arts s) j") (auto simp: live_def enlist_def)
qed

lemma create_refines:
  assumes ok: "store_ok cfg s" and fresh: "rid \<notin> known_ids s"
    and c: "create_art cfg d now0 now rid tok fn n own ttl bj s = (res, t)"
  shows "abs_create cfg d now0 (new_artifact cfg now rid tok fn n own ttl bj) (view s) =
     (map_sum id (\<lambda>(r, tk). obj_at t r) res, view t)"
proof -
  let ?a = "new_artifact cfg now rid tok fn n own ttl bj" and ?u = "snd (reap now0 s)"
  have oku: "store_ok cfg ?u" using sound_reap [of cfg s now0] ok by (simp add: sound_step_def)
  have vu: "view ?u = abs_reap now0 (view s)" by (rule view_reap [OF store_okD(1) [OF ok]])
  have aid: "artifact_id ?a = rid" "size_declared ?a = n" by (simp_all add: new_artifact_def)
  show ?thesis
  proof (cases "check_admission cfg d n")
    case (Inl e)
    then show ?thesis using c vu by (auto simp: create_art_eq abs_create_def aid Let_def)
  next
    case (Inr x)
    then have res: "res = Inr (length (objs ?u), tok)" and t: "t = persist ?a (enlist ?a ?u)"
      using c by (auto simp: create_art_eq Let_def)
    have absent: "live ?u rid = None"
    proof (rule ccontr)
      assume "live ?u rid \<noteq> None"
      then obtain a where "live ?u rid = Some a" by blast
      then obtain r where "r < length (objs ?u)" "artifact_id (obj_at ?u r) = rid"
        using live_ref [OF store_okD(1) [OF oku]] by blast
      then have "rid \<in> known_ids ?u" by (auto simp: known_ids_def obj_at_def)
      then show False using fresh by (simp add: known_ids_def)
    qed
    have noblob: "fs_read (files ?u) (BlobPath rid) = None"
      using files_okD(4) [OF store_okD(2) [OF oku], of rid] absent by fastforce
    have rd: "fs_read (files t) (BlobPath j) = fs_read (files ?u) (BlobPath j)" for j
      using store_okD(3) [OF oku] by (simp add: t persist_def enlist_def fs_read_put)
    have "view t j = ((view ?u)(rid \<mapsto> (?a, None))) j" for j
      using noblob by (simp add: view_def rd) (simp add: t live_enlist [OF store_okD(1) [OF oku]] aid)
    then have "view t = (abs_reap now0 (view s))(rid \<mapsto> (?a, None))" using vu by (simp add: fun_eq_iff)
    moreover have "obj_at t (length (objs ?u)) = ?a"
      by (simp add: t obj_at_def persist_def enlist_def nth_append)
    ultimately show ?thesis using Inr res by (simp add: abs_create_def aid)
  qed
qed

text \<open>The bytes of a stream, as the code takes them and as the specification does.\<close>

lemma ws_feed_result:
  assumes "ws_feed cfg items u s = (res, t)"
  shows "stream_result cfg (up_written u) (up_checkpoint u) items =
    (case res of Inl e \<Rightarrow> Inl e | Inr v \<Rightarrow> Inr (stream_bytes items))"
  using assms
proof (induction cfg items u arbitrary: s rule: ws_feed.induct)
  case (3 cfg d c items u)
  let ?n = "up_written u + int (length c)"
  let ?due = "?n - up_checkpoint u \<ge> recheck_bytes"
  consider (empty) "c = []"
    | (cap) "c \<noteq> []" "?n > max_bytes cfg"
    | (flr) "c \<noteq> []" "\<not> ?n > max_bytes cfg" "?due" "headroom_bytes cfg d \<le> 0"
    | (take) "c \<noteq> []" "\<not> ?n > max_bytes cfg" "\<not> (?due \<and> headroom_bytes cfg d \<le> 0)"
    by blast
  then show ?case
  proof cases
    case empty
    then have "ws_chunk cfg d c u s = (Inr u, s)" by (simp add: ws_chunk_def act_apply)
    then have "ws_feed cfg items u s = (res, t)" using "3.prems" by (simp add: bind_act_cases(2))
    from "3.IH" [OF this] show ?thesis using empty by (cases res) (simp_all add: Let_def)
  next
    case cap
    then have "ws_chunk cfg d c u s = (Inl (ArtifactError ''upload exceeds the per-artifact cap'' ''exceeds_cap''
            [(''received_bytes'', ?n), (''max_artifact_bytes'', max_bytes cfg)]), s)"
      by (simp add: ws_chunk_def act_apply Let_def)
    then show ?thesis using "3.prems" cap by (auto simp: bind_act_cases(1) Let_def)
  next
    case flr
    then have "ws_chunk cfg d c u s = (Inl (ArtifactError ''disk floor reached during upload'' ''insufficient_disk''
            [(''received_bytes'', ?n)]), s)"
      by (simp add: ws_chunk_def act_apply Let_def)
    then show ?thesis using "3.prems" flr by (auto simp: bind_act_cases(1) Let_def)
  next
    case take
    let ?v = "u\<lparr>up_pos := up_pos u + length c, up_written := ?n,
        up_checkpoint := (if ?due then ?n else up_checkpoint u)\<rparr>"
    from take have "ws_chunk cfg d c u s = (Inr ?v, feed_chunk u c s)"
      by (simp add: ws_chunk_def act_apply Let_def feed_chunk_def)
    then have "ws_feed cfg items ?v (feed_chunk u c s) = (res, t)"
      using "3.prems" by (simp add: bind_act_cases(2))
    from "3.IH" [OF this] show ?thesis using take by (cases res) (auto simp: Let_def)
  qed
qed (auto simp: act_apply)

lemma upload_refines:
  assumes ok: "store_ok cfg s" and r: "dict_get (arts s) i = Some r"
    and w: "write_stream cfg d r cl items s = (res, t)"
  shows "abs_upload cfg d cl items i (view s) = (map_sum id (obj_at t) res, view t)"
proof -
  have lv: "live s i = Some (obj_at s r)" using r by (simp add: live_def)
  obtain b where v: "view s i = Some (obj_at s r, b)" using view_live [OF lv] by blast
  obtain bres s1 where b: "ws_begin cfg d r cl s = (bres, s1)" by fastforce
  show ?thesis
  proof (cases bres)
    case (Inl e)
    then have "res = Inl e" "t = s1" using w b by (auto simp: write_stream_def bind_act_def)
    then show ?thesis
      using b Inl v by (auto simp: ws_begin_eq abs_upload_def Let_def split: if_splits sum.splits)
  next
    case (Inr u)
    with b have b: "ws_begin cfg d r cl s = (Inr u, s1)" by simp
    note bg = ws_begin_Inr [OF b]
    have adm: "(case cl of None \<Rightarrow> Inr () | Some n \<Rightarrow> check_admission cfg d n) = Inr ()"
      using b by (auto simp: ws_begin_eq Let_def split: if_splits sum.splits)
    have cp: "up_checkpoint u = 0"
      using b by (auto simp: ws_begin_def Let_def split: if_splits sum.splits)
    obtain fres s2 where f: "ws_feed cfg items u s1 = (fres, s2)" by fastforce
    note sr = ws_feed_result [OF f]
    show ?thesis
    proof (cases fres)
      case (Inl e)
      then have we: "write_stream cfg d r cl items s = (Inl e, t)" and res: "res = Inl e"
        using w f by (auto simp: write_stream_unfold [OF b])
      have "view t = view s"
        by (rule view_upd) (use write_stream_refused [OF ok r we] bg in simp_all)
      then show ?thesis using sr bg cp adm v Inl res by (simp add: abs_upload_def)
    next
      case (Inr w1)
      obtain t' where t': "write_stream cfg d r cl items s = (Inr r, t')"
        and post: "(let n = int (length (stream_bytes items)) in
          fs_read (files t') (BlobPath i) = Some (Bytes (stream_bytes items)) \<and>
          fs_read (files t') (PartPath i) = None \<and>
          live t' i = Some (stored_as (obj_at s r) n) \<and>
          fs_read (files t') (MetaPath i) = Some (Doc (asdict (stored_as (obj_at s r) n))) \<and>
          (\<forall>j. j \<noteq> i \<longrightarrow> live t' j = live s j \<and>
            (\<forall>p \<in> {MetaPath, BlobPath, PartPath}. fs_read (files t') (p j) = fs_read (files s) (p j))))"
        using write_stream_run [OF ok r b] f Inr by blast
      have tt: "t' = t" and res: "res = Inr r" using t' w by auto
      let ?a = "stored_as (obj_at s r) (int (length (stream_bytes items)))"
      have "view t j = ((view s)(i \<mapsto> (?a, Some (stream_bytes items)))) j" for j
        using post tt by (auto simp: view_def Let_def)
      then have vt: "view t = (view s)(i \<mapsto> (?a, Some (stream_bytes items)))" by (rule ext)
      have "arts t = arts s"
      proof -
        have s1: "arts s1 = arts s" using bg by (simp add: open_part_def)
        have "ws_feed cfg items u s1 = (Inr w1, s2)" using f Inr by simp
        from ws_feed_Inr [OF this, of "[]"] bg have "arts s2 = arts s1" by auto
        with s1 have "arts s2 = arts s" by simp
        moreover obtain s3 where "ws_replace w1 s2 = (Inr (), s3)" "t = ws_commit w1 s3"
          using w f Inr res by (auto simp: write_stream_unfold [OF b] split: sum.splits prod.splits)
        ultimately show ?thesis
          by (auto simp: ws_replace_def ws_commit_def persist_def set_obj_def Let_def split: option.splits)
      qed
      then have "obj_at t r = ?a" using post tt r by (simp add: live_def Let_def)
      then show ?thesis using sr bg cp adm v Inr res vt by (simp add: abs_upload_def Let_def)
    qed
  qed
qed

section \<open>Sessions of the store\<close>

lemma ws_feed_sound:
  assumes "upload_ok cfg s u" "store_ok cfg s" "ws_feed cfg items u s = (res, t)"
  shows "store_ok cfg t \<and> (\<forall>v. res = Inr v \<longrightarrow> upload_ok cfg t v)"
  using assms
proof (induction cfg items u arbitrary: s rule: ws_feed.induct)
  case (3 cfg d c items u)
  consider (bad) e where "ws_chunk cfg d c u s = (Inl e, t)" "res = Inl e"
    | (good) v s1 where "ws_chunk cfg d c u s = (Inr v, s1)" "ws_feed cfg items v s1 = (res, t)"
    using "3.prems"(3) by (auto simp: bind_act_def split: prod.splits sum.splits)
  then show ?case
  proof cases
    case bad
    then show ?thesis using ws_chunk_Inl [OF bad(1)] "3.prems" by simp
  next
    case good
    note ok = ws_chunk_upload [OF "3.prems"(1,2) good(1)]
    have "store_ok cfg s1" using ok(1) "3.prems"(2) by (simp add: sound_step_def)
    from "3.IH" [OF ok(2) this good(2)] show ?thesis .
  qed
qed (auto simp: act_apply)

lemma write_stream_sound:
  assumes ok: "store_ok cfg s" and cap: "0 \<le> max_bytes cfg" and r: "dict_get (arts s) i = Some r"
    and w: "write_stream cfg d r cl items s = (res, t)"
  shows "store_ok cfg t"
proof -
  obtain bres s1 where b: "ws_begin cfg d r cl s = (bres, s1)" by fastforce
  show ?thesis
  proof (cases bres)
    case (Inl e)
    then have "t = s1" using w b by (auto simp: write_stream_def bind_act_def)
    moreover have "s1 = s" using b Inl by (auto simp: ws_begin_eq Let_def split: if_splits sum.splits)
    ultimately show ?thesis using ok by simp
  next
    case (Inr u)
    with b have b: "ws_begin cfg d r cl s = (Inr u, s1)" by simp
    note up = ws_begin_upload [OF ok cap r b]
    have ok1: "store_ok cfg s1" using up(1) ok by (simp add: sound_step_def)
    obtain fres s2 where f: "ws_feed cfg items u s1 = (fres, s2)" by fastforce
    note ok2 = ws_feed_sound [OF up(2) ok1 f]
    have dis: "store_ok cfg (ws_discard r x)" if "store_ok cfg x" for x
      using sound_discard [of cfg x r] that by (simp add: sound_step_def)
    show ?thesis
    proof (cases fres)
      case (Inl e)
      then show ?thesis using w f ok2 dis by (auto simp: write_stream_unfold [OF b])
    next
      case (Inr v)
      obtain rres s3 where rp: "ws_replace v s2 = (rres, s3)" by fastforce
      show ?thesis
      proof (cases rres)
        case (Inl e)
        then have "s3 = s2" using rp by (auto simp: ws_replace_def Let_def split: option.splits)
        then show ?thesis using w f rp Inl Inr ok2 dis by (auto simp: write_stream_unfold [OF b])
      next
        case (Inr x)
        have "sound_step cfg s2 (ws_commit v s3)"
          using sound_finish [of cfg s2 v x s3] ok2 rp Inr \<open>fres = Inr v\<close> by simp
        then show ?thesis
          using w f rp Inr \<open>fres = Inr v\<close> ok2 by (auto simp: write_stream_unfold [OF b] sound_step_def)
      qed
    qed
  qed
qed

text \<open>
  The operations as a client of the store calls them one after another, an upload with
  the lookup that precedes it. What a call answers is the metadata it returns, if any, or
  the exception.
\<close>

datatype store_op =
    OpCreate disk rat rat string string string int string "rat option" "int option"
  | OpGet rat string
  | OpDelete string "string option"
  | OpUpload rat string disk "int option" "stream_item list"
  | OpReap rat

fun run_op :: "store_cfg \<Rightarrow> store_op \<Rightarrow> store \<Rightarrow> (exc + artifact option) \<times> store" where
  "run_op cfg (OpCreate d now0 now rid tok fn n own ttl bj) s =
     (case create_art cfg d now0 now rid tok fn n own ttl bj s of
        (res, t) \<Rightarrow> (map_sum id (\<lambda>(r, _). Some (obj_at t r)) res, t))"
| "run_op cfg (OpGet now i) s = (case get_art now i s of (ro, t) \<Rightarrow> (Inr (map_option (obj_at t) ro), t))"
| "run_op cfg (OpDelete i own) s = (case delete_art i own s of (ro, t) \<Rightarrow> (Inr (map_option (obj_at t) ro), t))"
| "run_op cfg (OpUpload now i d cl items) s = (case get_art now i s of
       (None, t) \<Rightarrow> (Inr None, t)
     | (Some r, t) \<Rightarrow> (case write_stream cfg d r cl items t of
          (res, u) \<Rightarrow> (map_sum id (\<lambda>r. Some (obj_at u r)) res, u)))"
| "run_op cfg (OpReap now) s = (Inr None, snd (reap now s))"

fun abs_op :: "store_cfg \<Rightarrow> store_op \<Rightarrow> abs_store \<Rightarrow> (exc + artifact option) \<times> abs_store" where
  "abs_op cfg (OpCreate d now0 now rid tok fn n own ttl bj) m =
     (case abs_create cfg d now0 (new_artifact cfg now rid tok fn n own ttl bj) m of
        (res, m') \<Rightarrow> (map_sum id Some res, m'))"
| "abs_op cfg (OpGet now i) m = (case abs_get now i m of (x, m') \<Rightarrow> (Inr x, m'))"
| "abs_op cfg (OpDelete i own) m = (case abs_delete i own m of (x, m') \<Rightarrow> (Inr x, m'))"
| "abs_op cfg (OpUpload now i d cl items) m = (case abs_get now i m of
       (None, m') \<Rightarrow> (Inr None, m')
     | (Some a, m') \<Rightarrow> (case abs_upload cfg d cl items i m' of (res, m'') \<Rightarrow> (map_sum id Some res, m'')))"
| "abs_op cfg (OpReap now) m = (Inr None, abs_reap now m)"

fun op_env :: "store_op \<Rightarrow> store \<Rightarrow> bool" where
  "op_env (OpCreate d now0 now rid tok fn n own ttl bj) s = (rid \<notin> known_ids s)"
| "op_env _ s = True"

lemma get_obj_at: "get_art now i s = (ro, t) \<Longrightarrow> obj_at t = obj_at s"
  by (auto simp: get_art_def split: option.splits if_splits)

lemma delete_obj_at: "delete_art i own s = (ro, t) \<Longrightarrow> obj_at t = obj_at s"
  by (auto simp: delete_art_def obj_at_def fun_eq_iff split: option.splits if_splits)

lemma get_Some: "get_art now i s = (Some r, t) \<Longrightarrow> t = s \<and> dict_get (arts s) i = Some r"
  by (auto simp: get_art_def split: option.splits if_splits)

lemma run_op_ok:
  assumes cap: "0 \<le> max_bytes cfg" and ok: "store_ok cfg s" and env: "op_env x s"
  shows "store_ok cfg (snd (run_op cfg x s))"
proof -
  have st: "sound_step cfg s t \<Longrightarrow> store_ok cfg t" for t using ok by (simp add: sound_step_def)
  show ?thesis
  proof (cases x)
    case (OpCreate d now0 now rid tok fn n own ttl bj)
    then show ?thesis
      using env by (auto intro!: st sound_create simp: known_ids_def split: prod.splits)
        (metis sound_create st snd_conv)
  next
    case (OpUpload now i d cl items)
    then show ?thesis
      using write_stream_sound [OF _ cap] get_Some ok st [OF sound_get, of now i]
      by (auto split: prod.splits option.splits) (metis snd_conv)
  qed (use st [OF sound_get] st [OF sound_delete] st [OF sound_reap] in
      \<open>auto split: prod.splits, (metis snd_conv)+\<close>)
qed

lemma run_op_refines:
  assumes ok: "store_ok cfg s" and env: "op_env x s"
  shows "abs_op cfg x (view s) = (fst (run_op cfg x s), view (snd (run_op cfg x s)))"
proof (cases x)
  case (OpCreate d now0 now rid tok fn n own ttl bj)
  obtain res t where c: "create_art cfg d now0 now rid tok fn n own ttl bj s = (res, t)" by fastforce
  show ?thesis
    using create_refines [OF ok _ c] env OpCreate c by (cases res) auto
next
  case (OpGet now i)
  obtain ro t where g: "get_art now i s = (ro, t)" by fastforce
  show ?thesis using get_refines [OF store_okD(1) [OF ok] g] get_obj_at [OF g] OpGet g by simp
next
  case (OpDelete i own)
  obtain ro t where g: "delete_art i own s = (ro, t)" by fastforce
  show ?thesis using delete_refines [OF g] delete_obj_at [OF g] OpDelete g by simp
next
  case (OpUpload now i d cl items)
  obtain ro t where g: "get_art now i s = (ro, t)" by fastforce
  note ag = get_refines [OF store_okD(1) [OF ok] g]
  show ?thesis
  proof (cases ro)
    case None
    then show ?thesis using ag OpUpload g by simp
  next
    case (Some r)
    then have t: "t = s" "dict_get (arts s) i = Some r" using get_Some g by blast+
    obtain res u where w: "write_stream cfg d r cl items s = (res, u)" by fastforce
    show ?thesis
      using upload_refines [OF ok t(2) w] ag Some OpUpload g w t by (cases res) auto
  qed
next
  case (OpReap now)
  then show ?thesis using view_reap [OF store_okD(1) [OF ok]] by simp
qed

interpretation store_client: simulation "run_op cfg" "abs_op cfg" view
    "\<lambda>s. store_ok cfg s \<and> 0 \<le> max_bytes cfg" op_env for cfg
  by unfold_locales (simp_all add: run_op_ok run_op_refines)

section \<open>Taking the queue of a user\<close>

lemma take_pending_eq:
  "take_pending own s = (map snd (filter (\<lambda>p. fst p = own) (pending s)),
     s\<lparr>pending := filter (\<lambda>p. fst p \<noteq> own) (pending s)\<rparr>)"
proof -
  have t: "[n. (o1, n) \<leftarrow> q, o1 = own] = map snd (filter (\<lambda>p. fst p = own) q)" for q :: "(string \<times> string) list"
    by (induction q) auto
  have "filter (\<lambda>p. p \<notin> set (map (\<lambda>n. (own, n)) (map snd (filter (\<lambda>p. fst p = own) q)))) q =
      filter (\<lambda>p. fst p \<noteq> own) q" for q :: "(string \<times> string) list"
    by (rule filter_cong) force+
  then show ?thesis by (simp only: take_pending_def Let_def t)
qed

end
