(* ===== verification/StoreThms.thy ===== *)
theory StoreThms
  imports StoreSpec
begin

text \<open>
  The properties of the artifact store: what its clients see, what the files under its
  root are after any interleaving of requests and uploads, and what a restart brings back.
\<close>

section \<open>Runs of the store\<close>

definition store_after :: "store_cfg \<Rightarrow> store_event list \<Rightarrow> store" where
  "store_after cfg es = sys_store (fold (store_step cfg) es init_sys)"

text \<open>A history: the cap is not negative and no identifier is drawn twice.\<close>

definition store_history :: "store_cfg \<Rightarrow> store_event list \<Rightarrow> bool" where
  "store_history cfg es \<longleftrightarrow> 0 \<le> max_bytes cfg \<and> valid_run store_env (store_step cfg) es init_sys"

lemma store_history_ok: "store_history cfg es \<Longrightarrow> store_ok cfg (store_after cfg es)"
  using store.run_inv [OF init_sys_ok, of cfg es]
  by (simp add: store_history_def store_after_def sys_ok_def)

lemma obj_ref_live: "dict_get (arts s) i = Some r \<Longrightarrow> live s i = Some (obj_at s r)"
  by (simp add: live_def)

text \<open>Settings, a disk, and a history for the examples.\<close>

definition small_cfg :: store_cfg where
  "small_cfg = \<lparr>base_url = ''http://h/artifacts'', ttl_default = 600, ttl_max = 3600,
     max_bytes = 8, min_free_fraction = 0\<rparr>"

definition demo_disk :: disk where
  "demo_disk = \<lparr>disk_total = 100, disk_free = 50\<rparr>"

definition demo_create :: store_event where
  "demo_create = EvCreate demo_disk 0 0 ''id'' ''tok'' ''k'' 3 ''ann'' None None"

definition demo_live :: "store_event list" where
  "demo_live = [demo_create]"

definition demo_open :: "store_event list" where
  "demo_open = [demo_create, EvBegin 1 ''id'' demo_disk None, EvChunk 0 demo_disk ''xyz'']"

lemmas demo_defs = small_cfg_def demo_disk_def demo_create_def demo_live_def demo_open_def

lemmas store_eval = store_after_def init_sys_def empty_store_def create_art_eq reap_def
  expired_refs_def check_admission_def headroom_bytes_def trunc_def new_artifact_def
  persist_def enlist_def fs_put_def fs_empty_def Let_def get_art_def expired_def obj_at_def
  clamp_ttl_def ws_begin_def ws_chunk_def act_apply recheck_bytes_def fs_write_ino_def
  write_at_def ws_replace_def ws_commit_def fs_rename_def set_obj_def drop_nth_def

lemma demo_live_arts: "dict_get (arts (store_after small_cfg demo_live)) ''id'' = Some 0"
  by (simp add: demo_defs store_eval)

lemma demo_live_obj: "obj_at (store_after small_cfg demo_live) 0 =
    new_artifact small_cfg 0 ''id'' ''tok'' ''k'' 3 ''ann'' None None"
  by (simp add: demo_defs store_eval)

lemma demo_live_history: "store_history small_cfg demo_live"
  by (simp add: store_history_def demo_defs init_sys_def empty_store_def)

lemma demo_open_history: "store_history small_cfg demo_open"
  by (simp add: store_history_def demo_defs init_sys_def empty_store_def)

lemma demo_open_part: "fs_read (files (store_after small_cfg demo_open)) (PartPath ''id'') = Some (Bytes ''xyz'')"
  by (simp add: demo_defs store_eval fs_read_def)

section \<open>What a client sees\<close>

text \<open>C1: The store implements its specification. Whatever a client does with it, one
  call after another (creating, looking up, uploading with any stream, deleting, reaping,
  at any times, with any disk usage), every answer, and every exception with its message,
  is the one a map from identifiers to metadata and bytes gives; no file, inode or partial
  upload shows through.\<close>

theorem store_sessions_refine:
  assumes "0 \<le> max_bytes cfg"
    and "valid_run op_env (\<lambda>x s. snd (run_op cfg x s)) ops empty_store"
  shows "outputs (run_op cfg) ops empty_store = outputs (abs_op cfg) ops Map.empty \<and>
    view (fold (\<lambda>x s. snd (run_op cfg x s)) ops empty_store) =
      fold (\<lambda>x m. snd (abs_op cfg x m)) ops Map.empty"
proof -
  have "store_ok cfg empty_store" using init_sys_ok [OF assms(1)] by (simp add: sys_ok_def init_sys_def)
  moreover have "view empty_store = Map.empty" by (simp add: view_def empty_store_def live_def fun_eq_iff)
  ultimately show ?thesis using store_client.session_sim [of cfg empty_store ops] assms by simp
qed

definition demo_ops :: "store_op list" where
  "demo_ops = [OpCreate demo_disk 0 0 ''id'' ''tok'' ''k'' 3 ''ann'' None None,
     OpUpload 1 ''id'' demo_disk None [Chunk demo_disk ''ab'', Chunk demo_disk ''c''],
     OpGet 2 ''id'', OpDelete ''id'' (Some ''bob''), OpGet 700 ''id'']"

lemma store_sessions_refine_witness:
  "outputs (run_op small_cfg) demo_ops empty_store = outputs (abs_op small_cfg) demo_ops Map.empty"
proof (rule store_sessions_refine [THEN conjunct1])
  show "0 \<le> max_bytes small_cfg" by (simp add: small_cfg_def)
  show "valid_run op_env (\<lambda>x s. snd (run_op small_cfg x s)) demo_ops empty_store"
    by (simp add: demo_ops_def known_ids_def empty_store_def)
qed

section \<open>Files, caps and interleavings\<close>

text \<open>C2: However requests, uploads and their chunks interleave, no file under the root,
  finished or partial, ever holds more than \<^verbatim>\<open>max_bytes\<close> bytes, and a finished one
  belongs to an artifact that is registered as stored.\<close>

theorem upload_cap:
  assumes "store_history cfg es"
    and "fs_read (files (store_after cfg es)) n = Some (Bytes b)"
  shows "int (length b) \<le> max_bytes cfg \<and>
    (\<exists>i a. live (store_after cfg es) i = Some a \<and>
      (n = BlobPath i \<and> stored a \<or> n = PartPath i \<and> awaiting a))"
proof -
  let ?s = "store_after cfg es"
  have ok: "store_ok cfg ?s" by (rule store_history_ok [OF assms(1)])
  have nm: "\<not> is_meta n"
    using assms(2) files_okD(2) [OF store_okD(2) [OF ok]] by (cases n) (auto simp: is_meta_def)
  obtain k where k: "fdir (files ?s) n = Some k" "fdata (files ?s) k = Bytes b"
    using assms(2) by (auto simp: fs_read_def)
  have "int (length b) \<le> max_bytes cfg"
    using store_okD(4) [OF ok] k nm unfolding bytes_ok_def within_cap_def by (metis content.inject(2))
  moreover have "\<exists>a. live ?s i = Some a \<and> stored a" if "n = BlobPath i" for i
    using assms(2) that files_okD(4) [OF store_okD(2) [OF ok], of i] by simp
  moreover have "\<exists>a. live ?s i = Some a \<and> awaiting a" if "n = PartPath i" for i
    using assms(2) that files_okD(3) [OF store_okD(2) [OF ok], of i] by simp
  ultimately show ?thesis using nm by (cases n) (auto simp: is_meta_def)
qed

lemma upload_cap_witness: "int (length ''xyz'') \<le> max_bytes small_cfg"
  using upload_cap [OF demo_open_history demo_open_part] by blast

text \<open>C3: After any history a restart brings back exactly the registry: loading the
  sidecars of the root, in any order the file system gives them, finds every registered
  artifact with all its metadata, and nothing else. (The queue of tokens to delete is
  not among it.)\<close>

theorem restart_restores_registry:
  assumes "store_history cfg es"
    and "{i. fs_read (files (store_after cfg es)) (MetaPath i) \<noteq> None} \<subseteq> set ids"
  shows "live (load ids (files (store_after cfg es))) = live (store_after cfg es) \<and>
    pending (load ids (files (store_after cfg es))) = []"
proof -
  let ?s = "store_after cfg es"
  have ok: "store_ok cfg ?s" by (rule store_history_ok [OF assms(1)])
  have all: "live ?s j \<noteq> None \<Longrightarrow> j \<in> set ids" for j
    using assms(2) files_okD(2) [OF store_okD(2) [OF ok], of j] by auto
  have "live (load ids (files ?s)) j = live ?s j" for j
    using load_live [OF ok, of ids j] all [of j] by (cases "live ?s j") auto
  moreover have "pending (fold (load_one f) xs st) = pending st" for f xs st
    by (induction xs arbitrary: st) (auto split: option.splits content.splits sum.splits)
  ultimately show ?thesis by (simp add: fun_eq_iff load_def)
qed

lemma restart_restores_registry_witness:
  "live (load [''id''] (files (store_after small_cfg demo_open))) ''id'' =
     live (store_after small_cfg demo_open) ''id''"
proof -
  have "{i. fs_read (files (store_after small_cfg demo_open)) (MetaPath i) \<noteq> None} \<subseteq> set [''id'']"
    by (auto simp: demo_defs store_eval fs_read_def split: if_splits)
  from restart_restores_registry [OF demo_open_history this] show ?thesis by simp
qed

section \<open>One upload\<close>

text \<open>An upload that is admitted, whose stream stays within the cap and meets some free
  headroom at every chunk, succeeds: the blob then holds exactly the bytes of the stream,
  the partial file is gone, the artifact and its sidecar say \<^verbatim>\<open>stored\<close> with the
  exact size, and nothing of any other artifact has changed.\<close>

theorem upload_accepted:
  assumes "store_history cfg es" and s: "s = store_after cfg es"
    and "dict_get (arts s) i = Some r" "a_state (obj_at s r) = ''await_upload''"
    and "cl = None \<or> (\<exists>n. cl = Some n \<and> check_admission cfg d n = Inr ())"
    and "steady cfg items" "int (length (stream_bytes items)) \<le> max_bytes cfg"
  shows "\<exists>t. write_stream cfg d r cl items s = (Inr r, t) \<and>
     (let n = int (length (stream_bytes items)); a = (obj_at s r)\<lparr>a_state := ''stored'', size_actual := Some n\<rparr> in
      fs_read (files t) (BlobPath i) = Some (Bytes (stream_bytes items)) \<and>
      fs_read (files t) (PartPath i) = None \<and> live t i = Some a \<and>
      fs_read (files t) (MetaPath i) = Some (Doc (asdict a)) \<and>
      (\<forall>j. j \<noteq> i \<longrightarrow> live t j = live s j \<and>
        (\<forall>p \<in> {MetaPath, BlobPath, PartPath}. fs_read (files t) (p j) = fs_read (files s) (p j))))"
proof -
  have ok: "store_ok cfg s" using store_history_ok [OF assms(1)] s by simp
  have "\<exists>u s1. ws_begin cfg d r cl s = (Inr u, s1)"
    using assms(4,5) by (auto simp: ws_begin_eq awaiting_def Let_def)
  then obtain u s1 where b: "ws_begin cfg d r cl s = (Inr u, s1)" by blast
  have "up_written u + int (length (stream_bytes items)) \<le> max_bytes cfg"
    using ws_begin_Inr [OF b] assms(7) by simp
  from ws_feed_accepts [OF assms(6) this] obtain v s2 where "ws_feed cfg items u s1 = (Inr v, s2)" by blast
  from write_stream_run [OF ok assms(3) b this] show ?thesis by (simp only: stored_as_def Let_def)
qed

lemma upload_accepted_witness:
  "\<exists>t. write_stream small_cfg demo_disk 0 (Some 3) [Chunk demo_disk ''ab'', Chunk demo_disk ''c'']
        (store_after small_cfg demo_live) = (Inr 0, t) \<and>
     fs_read (files t) (BlobPath ''id'') = Some (Bytes ''abc'')"
  using upload_accepted [OF demo_live_history refl demo_live_arts, of "Some 3" demo_disk
      "[Chunk demo_disk ''ab'', Chunk demo_disk ''c'']"]
  by (simp add: demo_live_obj)
     (force simp: new_artifact_def small_cfg_def demo_disk_def headroom_bytes_def trunc_def
       check_admission_def Let_def)



section \<open>Life cycle\<close>

lemma fold_reap_arts:
  "arts (fold (\<lambda>r. reap_one (obj_at s r)) rs t) =
     filter (\<lambda>(i, r). i \<notin> (\<lambda>r. artifact_id (obj_at s r)) ` set rs) (arts t)"
  by (induction rs arbitrary: t)
     (auto simp: reap_one_def dict_pop_def intro!: filter_cong)

lemma reap_arts:
  assumes "registry_ok cfg s"
  shows "arts (snd (reap now s)) = filter (\<lambda>(i, r). \<not> expired now (obj_at s r)) (arts s)"
proof -
  have "i \<in> (\<lambda>r. artifact_id (obj_at s r)) ` set (expired_refs now s) \<longleftrightarrow> expired now (obj_at s r)"
    if "(i, r) \<in> set (arts s)" for i r
    using that assms dict_get_item [of "arts s" i r] expired_ids [OF assms, of i now]
    by (auto simp: registry_ok_def live_def)
  then show ?thesis
    by (auto simp: reap_def Let_def fold_reap_arts intro!: filter_cong)
qed

text \<open>C5: What is gone stays gone. Once an artifact has left the registry (deleted, reaped,
  or dropped by a lookup that found it expired), no later request, upload or chunk of an
  upload that was already under way brings it back, and none of its three files is there
  at any later time.\<close>

theorem gone_for_good:
  assumes "store_history cfg (es @ fs)"
    and "i \<in> artifact_id ` set (objs (store_after cfg es))"
    and "dict_get (arts (store_after cfg es)) i = None"
  shows "dict_get (arts (store_after cfg (es @ fs))) i = None \<and>
    fs_read (files (store_after cfg (es @ fs))) (MetaPath i) = None \<and>
    fs_read (files (store_after cfg (es @ fs))) (BlobPath i) = None \<and>
    fs_read (files (store_after cfg (es @ fs))) (PartPath i) = None"
proof -
  let ?y = "fold (store_step cfg) es init_sys" and ?t = "store_after cfg (es @ fs)"
  have run: "valid_run store_env (store_step cfg) es init_sys" "valid_run store_env (store_step cfg) fs ?y"
      "0 \<le> max_bytes cfg"
    using assms(1) by (simp_all add: store_history_def valid_run_append)
  have "sys_ok cfg ?y" by (rule store.run_inv [OF init_sys_ok [OF run(3)] run(1)])
  from store_dead.run_level [OF this run(2)] have "dead_ids (store_after cfg es) \<subseteq> dead_ids ?t"
    by (simp add: store_after_def)
  then have gone: "dict_get (arts ?t) i = None"
    using assms(2,3) by (auto simp: dead_ids_def known_ids_def)
  then have "live ?t i = None" by (simp add: live_def)
  then show ?thesis
    using gone files_okD(2-4) [OF store_okD(2) [OF store_history_ok [OF assms(1)]], of i]
    by (cases "fs_read (files ?t) (PartPath i)") auto
qed

lemma gone_for_good_witness:
  "fs_read (files (store_after small_cfg (demo_open @ [EvDelete ''id'' None] @ [EvFinish 0]))) (BlobPath ''id'') = None"
proof -
  let ?es = "demo_open @ [EvDelete ''id'' None]"
  have "store_history small_cfg (?es @ [EvFinish 0])"
    using demo_open_history by (simp add: store_history_def valid_run_append)
  moreover have "''id'' \<in> artifact_id ` set (objs (store_after small_cfg ?es))"
    "dict_get (arts (store_after small_cfg ?es)) ''id'' = None"
    by (simp_all add: demo_defs store_eval delete_art_def)
  ultimately show ?thesis using gone_for_good by (metis append.assoc)
qed

text \<open>C6: Creating an artifact either refuses, exactly when the declared size is negative,
  above the cap, or above the headroom left over the free-space floor, having registered
  nothing; or it registers one under the drawn identifier whose life lasts between one
  second and \<^verbatim>\<open>ttl_max\<close> (or one second, when that is more) whatever was asked for,
  whose upload token verifies and is kept only as its hash, and which a lookup finds at
  every time before it expires and at no time from then on.\<close>

theorem create_contract:
  assumes "store_history cfg es" and s: "s = store_after cfg es"
    and fresh: "rid \<notin> artifact_id ` set (objs s)" and tok: "token \<noteq> []"
    and c: "create_art cfg d now0 now rid token fname n own ttl bj s = (res, t)"
  shows "case res of
      Inl e \<Rightarrow> \<not> (0 \<le> n \<and> n \<le> max_bytes cfg \<and> n \<le> headroom_bytes cfg d) \<and> live t = live (snd (reap now0 s))
    | Inr (r, tk) \<Rightarrow> 0 \<le> n \<and> n \<le> max_bytes cfg \<and> n \<le> headroom_bytes cfg d \<and> tk = token \<and>
        live t = (live (snd (reap now0 s)))(rid \<mapsto> obj_at t r) \<and>
        (let a = obj_at t r in
          a_owner a = own \<and> size_declared a = n \<and> awaiting a \<and> created a = now \<and>
          now + 1 \<le> expires a \<and> expires a \<le> now + max 1 (ttl_max cfg) \<and>
          token_hash a = hash_token token \<and> verify_token a (Some token) \<and>
          (\<forall>later. fst (get_art later rid t) = (if later < expires a then Some r else None)))"
proof -
  let ?u = "snd (reap now0 s)" and ?a = "new_artifact cfg now rid token fname n own ttl bj"
  have ok: "store_ok cfg ?u"
    using sound_reap [of cfg s now0] store_history_ok [OF assms(1)] s by (simp add: sound_step_def)
  show ?thesis
  proof (cases "check_admission cfg d n")
    case (Inl e)
    then have "\<not> (0 \<le> n \<and> n \<le> max_bytes cfg \<and> n \<le> headroom_bytes cfg d)"
      using check_admission_ok_iff [of cfg d n] by auto
    then show ?thesis using c Inl by (auto simp: create_art_eq Let_def)
  next
    case (Inr x)
    then have adm: "0 \<le> n \<and> n \<le> max_bytes cfg \<and> n \<le> headroom_bytes cfg d"
      using check_admission_ok_iff [of cfg d n] by simp
    have res: "res = Inr (length (objs ?u), token)" and t: "t = persist ?a (enlist ?a ?u)"
      using c Inr by (auto simp: create_art_eq Let_def)
    have aid: "artifact_id ?a = rid" by (simp add: new_artifact_def)
    have o: "obj_at t (length (objs ?u)) = ?a" "obj_at t (length (objs s)) = ?a"
      by (simp_all add: t obj_at_def persist_def enlist_def nth_append)
    have l: "live t = (live ?u)(rid \<mapsto> ?a)"
      by (rule ext) (simp add: t live_enlist [OF store_okD(1) [OF ok]] aid)
    have g: "dict_get (arts t) rid = Some (length (objs ?u))"
      by (simp add: t persist_def enlist_def aid)
    then have "fst (get_art later rid t) = (if later < expires ?a then Some (length (objs ?u)) else None)" for later
      by (auto simp: get_art_def o expired_def not_less)
    then show ?thesis
      using res adm l o clamp_ttl_bounds [of cfg ttl] tok
      by (simp add: new_artifact_def awaiting_def verify_token_def Let_def)
  qed
qed

lemma create_contract_witness:
  "\<exists>r t. create_art small_cfg demo_disk 5 6 ''id2'' ''s'' ''../x y'' 8 ''bob'' (Some 99999) None
        (store_after small_cfg demo_live) = (Inr (r, ''s''), t) \<and>
     expires (obj_at t r) \<le> 6 + max 1 3600"
proof -
  obtain res t where c: "create_art small_cfg demo_disk 5 6 ''id2'' ''s'' ''../x y'' 8 ''bob'' (Some 99999) None
      (store_after small_cfg demo_live) = (res, t)" by fastforce
  have "''id2'' \<notin> artifact_id ` set (objs (store_after small_cfg demo_live))"
    by (simp add: demo_defs store_eval)
  from create_contract [OF demo_live_history refl this _ c] show ?thesis
    using c by (cases res) (auto simp: Let_def small_cfg_def demo_disk_def headroom_bytes_def trunc_def)
qed

text \<open>C7: Expiry is exact. Reaping drops every artifact that has reached its expiry, with its
  files, and no other; a listing shows the caller's artifacts that have not expired, in
  the order they were created, and no other user's.\<close>

theorem reap_and_list_exact:
  assumes "store_history cfg es" and s: "s = store_after cfg es"
    and l: "list_for now own s = (rs, t)"
  shows "(\<forall>i. live t i = (case live s i of None \<Rightarrow> None | Some a \<Rightarrow> if now \<ge> expires a then None else Some a)) \<and>
    (\<forall>i. live t i = None \<longrightarrow> fs_read (files t) (MetaPath i) = None \<and>
        fs_read (files t) (BlobPath i) = None \<and> fs_read (files t) (PartPath i) = None) \<and>
    map (obj_at t) rs =
      filter (\<lambda>a. a_owner a = own \<and> now < expires a) (map (obj_at s) (map snd (arts s)))"
proof -
  have ok: "store_ok cfg s" using store_history_ok [OF assms(1)] s by simp
  have t: "t = snd (reap now s)" and rs: "rs = filter (\<lambda>r. a_owner (obj_at t r) = own) (map snd (arts t))"
    using l by (auto simp: list_for_def Let_def)
  have okt: "store_ok cfg t" using sound_reap [of cfg s now] ok t by (simp add: sound_step_def)
  have lv: "live t i = (case live s i of None \<Rightarrow> None | Some a \<Rightarrow> if now \<ge> expires a then None else Some a)" for i
    using view_reap [OF store_okD(1) [OF ok], of now, THEN fun_cong, of i] t
    by (auto simp: view_def abs_reap_def expired_def split: option.splits if_splits)
  have no: "fs_read (files t) (MetaPath i) = None \<and> fs_read (files t) (BlobPath i) = None \<and>
      fs_read (files t) (PartPath i) = None" if "live t i = None" for i
    using that files_okD(2-4) [OF store_okD(2) [OF okt], of i]
    by (cases "fs_read (files t) (PartPath i)") auto
  have ar: "arts t = filter (\<lambda>(i, r). \<not> expired now (obj_at s r)) (arts s)"
    unfolding t by (rule reap_arts [OF store_okD(1) [OF ok]])
  have "obj_at t = obj_at s" by (simp add: t obj_at_def fun_eq_iff)
  then have "map (obj_at t) rs =
      filter (\<lambda>a. a_owner a = own \<and> now < expires a) (map (obj_at s) (map snd (arts s)))"
    unfolding rs ar by (simp add: expired_def filter_map comp_def not_le case_prod_beta conj_commute)
  then show ?thesis using lv no by blast
qed

lemma reap_and_list_exact_witness:
  "fst (list_for 601 ''ann'' (store_after small_cfg demo_open)) = []"
proof -
  obtain rs t where l: "list_for 601 ''ann'' (store_after small_cfg demo_open) = (rs, t)" by fastforce
  have "map (obj_at (store_after small_cfg demo_open)) (map snd (arts (store_after small_cfg demo_open))) =
      [new_artifact small_cfg 0 ''id'' ''tok'' ''k'' 3 ''ann'' None None]"
    by (simp add: demo_defs store_eval)
  with reap_and_list_exact [OF demo_open_history refl l] l show ?thesis
    by (simp add: new_artifact_def clamp_ttl_def small_cfg_def)
qed

section \<open>LAVA tokens awaiting deletion\<close>

definition holds_token :: "store \<Rightarrow> string \<Rightarrow> string \<Rightarrow> string \<Rightarrow> bool" where
  "holds_token s i own n \<longleftrightarrow>
     (\<exists>a. live s i = Some a \<and> a_owner a = own \<and> lava_token_name a = Some n)"

definition token_safe :: "store \<Rightarrow> string \<Rightarrow> string \<Rightarrow> string \<Rightarrow> bool" where
  "token_safe s i own n \<longleftrightarrow> holds_token s i own n \<or> (own, n) \<in> set (pending s)"

lemma token_safe_live:
  "live t i = live s i \<Longrightarrow> holds_token s i own n \<Longrightarrow> token_safe t i own n"
  by (simp add: token_safe_def holds_token_def)

lemma queue_token_set:
  "set q \<subseteq> set (queue_token a q)"
  "lava_token_name a = Some n \<Longrightarrow> n \<noteq> [] \<Longrightarrow> (a_owner a, n) \<in> set (queue_token a q)"
  by (auto simp: queue_token_def split: option.splits)

lemma token_safe_forget:
  assumes "token_safe s i own n" "n \<noteq> []" "artifact_id x = i \<Longrightarrow> live s i = Some x \<or> (own, n) \<in> set (pending s)"
  shows "token_safe (forget (artifact_id x) (queue_token x (pending s)) s) i own n"
  using assms queue_token_set(1) [of "pending s" x] queue_token_set(2) [of x n "pending s"]
  by (auto simp: token_safe_def holds_token_def live_forget) (auto simp: forget_def)

lemma token_safe_reap:
  assumes reg: "registry_ok cfg s" and h: "holds_token s i own n" and n: "n \<noteq> []"
  shows "token_safe (snd (reap now s)) i own n"
proof -
  obtain a where a: "live s i = Some a" "a_owner a = own" "lava_token_name a = Some n"
    using h by (auto simp: holds_token_def)
  define P where "P t \<longleftrightarrow> live t i = Some a \<or> (own, n) \<in> set (pending t)" for t
  have step: "P t \<Longrightarrow> r \<in> snd ` set (arts s) \<Longrightarrow> P (reap_one (obj_at s r) t)" for t r
  proof -
    assume P: "P t" and r: "r \<in> snd ` set (arts s)"
    then obtain j where "dict_get (arts s) j = Some r"
      using reg dict_get_item by (fastforce simp: registry_ok_def)
    then have "artifact_id (obj_at s r) = i \<Longrightarrow> obj_at s r = a"
      using registry_okD(2) [OF reg] a(1) by (auto simp: live_def)
    then show ?thesis
      using P queue_token_set(1) [of "pending t" "obj_at s r"]
        queue_token_set(2) [OF a(3) n, of "pending t"] a(2)
      by (auto simp: P_def reap_one_forget live_forget) (auto simp: forget_def)
  qed
  have "set rs \<subseteq> snd ` set (arts s) \<Longrightarrow> P t \<Longrightarrow> P (fold (\<lambda>r. reap_one (obj_at s r)) rs t)" for rs t
    by (induction rs arbitrary: t) (auto intro: step)
  moreover have "set (expired_refs now s) \<subseteq> snd ` set (arts s)" by (auto simp: expired_refs_def)
  ultimately have "P (snd (reap now s))" using a(1) by (auto simp: reap_def Let_def P_def)
  then show ?thesis using a by (auto simp: P_def token_safe_def holds_token_def)
qed

lemma token_safe_get:
  assumes reg: "registry_ok cfg s" and h: "holds_token s i own n" and n: "n \<noteq> []"
  shows "token_safe (snd (get_art now j s)) i own n"
proof (cases "dict_get (arts s) j")
  case (Some r)
  have id: "artifact_id (obj_at s r) = j" by (rule registry_okD(2) [OF reg Some])
  have "token_safe (forget j (queue_token (obj_at s r) (pending s)) s) i own n"
    by (rule token_safe_forget [of s i own n "obj_at s r", unfolded id])
      (use h n obj_ref_live [OF Some] in \<open>auto simp: token_safe_def\<close>)
  then show ?thesis
    using h Some by (auto simp: get_art_def reap_one_forget id token_safe_def)
qed (use h in \<open>simp add: get_art_def token_safe_def\<close>)

lemma token_safe_delete:
  assumes reg: "registry_ok cfg s" and h: "holds_token s i own n" and n: "n \<noteq> []"
  shows "token_safe (snd (delete_art j who s)) i own n"
proof (cases "dict_get (arts s) j")
  case (Some r)
  have id: "artifact_id (obj_at s r) = j" by (rule registry_okD(2) [OF reg Some])
  have "token_safe (forget j (queue_token (obj_at s r) (pending s)) s) i own n"
    by (rule token_safe_forget [of s i own n "obj_at s r", unfolded id])
      (use h n obj_ref_live [OF Some] in \<open>auto simp: token_safe_def\<close>)
  then show ?thesis
    using h Some by (auto simp: delete_art_def forget_def token_safe_def)
qed (use h in \<open>simp add: delete_art_def token_safe_def\<close>)

lemma token_safe_set_obj:
  assumes "registry_ok cfg s" "holds_token s i own n" "r < length (objs s)"
    and "a_owner b = a_owner (obj_at s r)" "lava_token_name b = lava_token_name (obj_at s r)"
  shows "token_safe (persist b (set_obj r b s)) i own n"
  using assms by (auto simp: token_safe_def holds_token_def live_set_obj) (auto simp: live_def)

lemma token_safe_create:
  assumes ok: "store_ok cfg s" and h: "holds_token s i own n" and n: "n \<noteq> []" and f: "rid \<notin> known_ids s"
  shows "token_safe (snd (create_art cfg d now0 now rid tok fn sz o1 ttl bj s)) i own n"
proof -
  let ?u = "snd (reap now0 s)" and ?a = "new_artifact cfg now rid tok fn sz o1 ttl bj"
  have u: "token_safe ?u i own n" by (rule token_safe_reap [OF store_okD(1) [OF ok] h n])
  have oku: "store_ok cfg ?u" using sound_reap [of cfg s now0] ok by (simp add: sound_step_def)
  have "i \<noteq> rid"
    using h f live_ref [OF store_okD(1) [OF ok]] by (force simp: holds_token_def known_ids_def obj_at_def)
  then have "token_safe (persist ?a (enlist ?a ?u)) i own n"
    using u by (auto simp: token_safe_def holds_token_def live_enlist [OF store_okD(1) [OF oku]] new_artifact_def)
      (auto simp: persist_def enlist_def)
  then show ?thesis using u by (simp add: create_art_eq Let_def split: sum.splits)
qed

lemma token_safe_step:
  assumes y: "sys_ok cfg y" and e: "store_env e y" and h: "holds_token (sys_store y) i own n"
    and n: "n \<noteq> []" and nn: "\<forall>m. e \<noteq> EvTokenName i m"
  shows "token_safe (sys_store (store_step cfg e y)) i own n"
proof -
  let ?s = "sys_store y"
  have ok: "store_ok cfg ?s" and reg: "registry_ok cfg ?s" using y by (simp_all add: sys_ok_def store_ok_def)
  note keep = token_safe_live [OF _ h]
  show ?thesis
  proof (cases e)
    case (EvCreate d now0 now rid tok fn sz o1 ttl bj)
    then show ?thesis using e token_safe_create [OF ok h n] by (simp add: known_ids_def)
  next
    case (EvTokenName j m)
    have "live (set_lava_token_name j m ?s) i = live ?s i"
      using EvTokenName nn live_update [OF reg, of j]
      by (auto simp: set_lava_token_name_def Let_def split: option.splits)
    then show ?thesis using EvTokenName keep by simp
  next
    case (EvBegin now j d cl)
    obtain ro s1 where g: "get_art now j ?s = (ro, s1)" by fastforce
    have s1: "token_safe s1 i own n" using token_safe_get [OF reg h n, of now j] g by simp
    have b: "live t = live s1 \<and> pending t = pending s1" if "ws_begin cfg d r cl s1 = (res, t)" for r res t
      using that by (auto simp: ws_begin_eq Let_def open_part_def split: if_splits sum.splits)
    then have "token_safe t i own n" if "ws_begin cfg d r cl s1 = (res, t)" for r res t
      using that s1 by (simp add: token_safe_def holds_token_def)
    then show ?thesis using EvBegin g s1 by (auto split: option.splits prod.splits sum.splits)
  next
    case (EvChunk k d c)
    obtain res t where c: "ws_chunk cfg d c (sys_uploads y ! k) ?s = (res, t)" by fastforce
    then have "live t = live ?s" by (auto simp: ws_chunk_def Let_def act_apply split: if_splits)
    then show ?thesis
      using EvChunk c keep by (cases res) (simp_all add: fail_upload_def ws_discard_def)
  next
    case (EvFinish k)
    show ?thesis
    proof (cases "k < length (sys_uploads y)")
      case True
      let ?u = "sys_uploads y ! k"
      have len: "up_ref ?u < length (objs ?s)" using y True by (auto simp: sys_ok_def upload_ok_def)
      obtain res t where rp: "ws_replace ?u ?s = (res, t)" by fastforce
      then have t: "objs t = objs ?s" "arts t = arts ?s" "live t = live ?s" "registry_ok cfg t"
        using reg by (auto simp: ws_replace_def Let_def split: option.splits)
      have "holds_token t i own n" using h t by (simp add: holds_token_def)
      then have "token_safe (ws_commit ?u t) i own n"
        using len t unfolding ws_commit_def Let_def by (intro token_safe_set_obj) simp_all
      then show ?thesis
        using EvFinish True rp t keep
        by (cases res) (simp_all add: Let_def fail_upload_def ws_discard_def)
    qed (simp add: EvFinish keep)
  next
    case (EvDelete j who)
    then show ?thesis using token_safe_delete [OF reg h n] by simp
  next
    case (EvTakePending who)
    then show ?thesis using keep by (simp add: take_pending_def Let_def)
  next
    case (EvBreak k)
    then show ?thesis using keep by (simp add: fail_upload_def ws_discard_def)
  qed (use token_safe_get [OF reg h n] token_safe_reap [OF reg h n] in simp_all)
qed

lemma distinct_owner_names: "distinct q \<Longrightarrow> distinct (map snd (filter (\<lambda>p. fst p = own) q))"
  by (induction q) auto

lemma owner_names_set: "set (map snd (filter (\<lambda>p. fst p = own) q)) = {m. (own, m) \<in> set q}"
  by force



section \<open>Names and addresses\<close>


text \<open>It can still be the name of the parent directory: the underscore is stripped after the
  leading dots.\<close>

lemma safe_filename_parent: "safe_filename ''_..'' = ''..''"
  by (simp add: safe_filename_def strip_if_def lstrip_if_def rstrip_if_def after_last_def
      is_space_def Let_def)

section \<open>Two uploads of one artifact\<close>

definition twin_uploads :: "store_event list" where
  "twin_uploads = [demo_create, EvBegin 1 ''id'' demo_disk None, EvBegin 1 ''id'' demo_disk None,
     EvChunk 0 demo_disk ''aaa'', EvFinish 0, EvChunk 0 demo_disk ''bbbbb'']"

text \<open>Two uploads of the same artifact that are both under way share one partial file:
  after the first has finished and its artifact says \<^verbatim>\<open>stored\<close> with 3 bytes, the
  second, still open, overwrites the published blob, which then has 5 bytes that are not
  the ones that were stored.\<close>

lemma twin_uploads_overwrite:
  "store_history small_cfg twin_uploads \<and>
   (\<exists>a. live (store_after small_cfg twin_uploads) ''id'' = Some a \<and> a_state a = ''stored'' \<and> size_actual a = Some 3) \<and>
   fs_read (files (store_after small_cfg (butlast twin_uploads))) (BlobPath ''id'') = Some (Bytes ''aaa'') \<and>
   fs_read (files (store_after small_cfg twin_uploads)) (BlobPath ''id'') = Some (Bytes ''bbbbb'')"
  by (simp add: twin_uploads_def demo_defs store_eval store_history_def fs_read_def live_def)

end
