(* ===== verification/IPAddr.thy ===== *)
theory IPAddr
  imports PyVal "HOL-Library.Word"
begin

text \<open>
  Addresses and the allowlist of \<^verbatim>\<open>lava_mcp/gateway.py\<close>: what Python's
  \<^verbatim>\<open>ipaddress\<close> reads as an address or a network, membership on 32-bit and
  128-bit words, IPv4 clients seen through IPv6, loopback, and the client address a
  reverse proxy forwards.
\<close>

unbundle bit_operations_syntax

section \<open>Reading addresses\<close>

datatype ipaddr = V4 "32 word" | V6 "128 word"

text \<open>One decimal octet: ASCII digits, at most three, no leading zero.\<close>

definition parse_octet :: "string \<Rightarrow> nat option" where
  "parse_octet s =
     (if s = [] \<or> \<not> list_all is_digit s \<or> length s > 3 \<or> (s \<noteq> ''0'' \<and> hd s = CHR ''0'') \<or> digits_val s > 255
      then None else Some (digits_val s))"

definition parse_v4 :: "string \<Rightarrow> nat option" where
  "parse_v4 s = (case map parse_octet (split_char CHR ''.'' s) of
      [Some a, Some b, Some c, Some d] \<Rightarrow> Some (((a * 256 + b) * 256 + c) * 256 + d)
    | _ \<Rightarrow> None)"

definition hex_val :: "char \<Rightarrow> nat" where
  "hex_val c = (if is_digit c then code c - 48 else if 97 \<le> (code c :: nat) then code c - 87 else code c - 55)"

definition hex_num :: "string \<Rightarrow> nat" where
  "hex_num = foldl (\<lambda>n c. 16 * n + hex_val c) 0"

definition parse_hextet :: "string \<Rightarrow> nat option" where
  "parse_hextet s = (if s = [] \<or> \<not> list_all is_hex s \<or> length s > 4 then None else Some (hex_num s))"

text \<open>\<^verbatim>\<open>'%x' % n\<close>.\<close>

fun hex_str :: "nat \<Rightarrow> string" where
  "hex_str n = (if n < 16 then [hex_low n] else hex_str (n div 16) @ [hex_low (n mod 16)])"

declare hex_str.simps [simp del]

fun opt_list :: "'a option list \<Rightarrow> 'a list option" where
  "opt_list [] = Some []"
| "opt_list (None # xs) = None"
| "opt_list (Some x # xs) = map_option ((#) x) (opt_list xs)"

definition hextets :: "nat \<Rightarrow> nat list \<Rightarrow> nat" where
  "hextets = foldl (\<lambda>n h. n * 65536 + h)"

text \<open>
  The parts between the colons, once a dotted quad at the end is two of them: at most
  nine, at most one empty one inside, which stands for the missing groups, and an empty
  one at either end only next to it.
\<close>

definition read_parts :: "string list \<Rightarrow> nat option" where
  "read_parts parts =
     (let inner = filter (\<lambda>i. parts ! i = []) [1 ..< length parts - 1] in
      if length parts > 9 \<or> length inner > 1 then None
      else (case inner of
          k # _ \<Rightarrow>
            (let hi = (if hd parts = [] then k - 1 else k);
                 lo0 = length parts - k - 1;
                 lo = (if last parts = [] then lo0 - 1 else lo0)
             in if hd parts = [] \<and> hi \<noteq> 0 \<or> last parts = [] \<and> lo \<noteq> 0 \<or> 8 < hi + lo + 1 then None
                else (case (opt_list (map parse_hextet (take hi parts)),
                            opt_list (map parse_hextet (drop (length parts - lo) parts))) of
                    (Some hs, Some ls) \<Rightarrow> Some (hextets (hextets 0 hs * 65536 ^ (8 - (hi + lo))) ls)
                  | _ \<Rightarrow> None))
        | [] \<Rightarrow>
            if length parts \<noteq> 8 then None
            else map_option (hextets 0) (opt_list (map parse_hextet parts))))"

definition split_scope :: "string \<Rightarrow> string option" where
  "split_scope s =
     (let addr = before_char CHR ''%'' s; rest = dropWhile (\<lambda>c. c \<noteq> CHR ''%'') s in
      if rest = [] then Some addr
      else if tl rest = [] \<or> CHR ''%'' \<in> set (tl rest) then None else Some addr)"

definition parse_v6 :: "string \<Rightarrow> nat option" where
  "parse_v6 s0 = (case split_scope s0 of
      None \<Rightarrow> None
    | Some s \<Rightarrow>
       (let parts = split_char CHR '':'' s in
        if s = [] \<or> length parts < 3 then None
        else if CHR ''.'' \<in> set (last parts) then
          (case parse_v4 (last parts) of
             None \<Rightarrow> None
           | Some v \<Rightarrow> read_parts (butlast parts @ [hex_str (v div 65536), hex_str (v mod 65536)]))
        else read_parts parts))"

definition ip_address :: "string \<Rightarrow> ipaddr option" where
  "ip_address s =
     (if CHR ''/'' \<in> set s then None
      else case parse_v4 s of
        Some n \<Rightarrow> Some (V4 (word_of_nat n))
      | None \<Rightarrow> map_option (\<lambda>n. V6 (word_of_nat n)) (parse_v6 s))"

section \<open>Networks\<close>

text \<open>A network is its address, host bits cleared, and the length of its prefix.\<close>

datatype ipnet = Net4 "32 word" nat | Net6 "128 word" nat

definition netmask :: "nat \<Rightarrow> 'a::len word" where
  "netmask p = push_bit (LENGTH('a) - p) (- 1)"

definition parse_prefix :: "nat \<Rightarrow> string \<Rightarrow> nat option" where
  "parse_prefix w s =
     (if s = [] \<or> \<not> list_all is_digit s \<or> length s > 4300 \<or> digits_val s > w then None else Some (digits_val s))"

text \<open>A netmask or host mask in dotted form: the first prefix length whose mask it is.\<close>

definition mask_prefix :: "32 word \<Rightarrow> nat option" where
  "mask_prefix m = List.find (\<lambda>p. netmask p = m) [0 ..< 33]"

definition parse_mask4 :: "string \<Rightarrow> nat option" where
  "parse_mask4 s = (case parse_prefix 32 s of
      Some p \<Rightarrow> Some p
    | None \<Rightarrow> (case parse_v4 s of
        None \<Rightarrow> None
      | Some n \<Rightarrow> (case mask_prefix (word_of_nat n) of
          Some p \<Rightarrow> Some p
        | None \<Rightarrow> mask_prefix (NOT (word_of_nat n)))))"

definition ip_network :: "string \<Rightarrow> exc + ipnet" where
  "ip_network s =
     (let v4 = (case split_char CHR ''/'' s of
              [a] \<Rightarrow> map_option (\<lambda>n. (n, 32)) (parse_v4 a)
            | [a, m] \<Rightarrow> (case (parse_v4 a, parse_mask4 m) of (Some n, Some p) \<Rightarrow> Some (n, p) | _ \<Rightarrow> None)
            | _ \<Rightarrow> None);
          v6 = (case split_char CHR ''/'' s of
              [a] \<Rightarrow> map_option (\<lambda>n. (n, 128)) (parse_v6 a)
            | [a, m] \<Rightarrow> (case (parse_v6 a, parse_prefix 128 m) of (Some n, Some p) \<Rightarrow> Some (n, p) | _ \<Rightarrow> None)
            | _ \<Rightarrow> None)
      in case v4 of
           Some (n, p) \<Rightarrow> Inr (Net4 (word_of_nat n AND netmask p) p)
         | None \<Rightarrow> (case v6 of
             Some (n, p) \<Rightarrow> Inr (Net6 (word_of_nat n AND netmask p) p)
           | None \<Rightarrow> Inl ValueError))"

fun in_net :: "ipaddr \<Rightarrow> ipnet \<Rightarrow> bool" where
  "in_net (V4 a) (Net4 n p) = (a AND netmask p = n)"
| "in_net (V6 a) (Net6 n p) = (a AND netmask p = n)"
| "in_net _ _ = False"

section \<open>The allowlist\<close>

definition parse_networks :: "string list \<Rightarrow> exc + ipnet list" where
  "parse_networks entries = map_res ip_network (filter (\<lambda>e. e \<noteq> []) entries)"

fun ipv4_mapped :: "ipaddr \<Rightarrow> ipaddr option" where
  "ipv4_mapped (V4 a) = None"
| "ipv4_mapped (V6 a) = (if drop_bit 32 a = 0xFFFF then Some (V4 (ucast a)) else None)"

definition unmap :: "ipaddr \<Rightarrow> ipaddr" where
  "unmap a = (case ipv4_mapped a of Some m \<Rightarrow> m | None \<Rightarrow> a)"

definition ip_allowed :: "string \<Rightarrow> ipnet list \<Rightarrow> bool" where
  "ip_allowed ip networks =
     (if networks = [] then True
      else case ip_address ip of
        None \<Rightarrow> False
      | Some addr \<Rightarrow> list_ex (in_net (unmap addr)) networks)"

fun is_loopback_addr :: "ipaddr \<Rightarrow> bool" where
  "is_loopback_addr (V4 a) = (drop_bit 24 a = 127)"
| "is_loopback_addr (V6 a) = (a = 1)"

definition is_loopback :: "string \<Rightarrow> bool" where
  "is_loopback ip = (case ip_address ip of None \<Rightarrow> False | Some addr \<Rightarrow> is_loopback_addr (unmap addr))"

text \<open>
  Request headers are looked up without regard to case; \<open>None\<close> stands for an object
  that has no headers.
\<close>

type_synonym headers = "(string \<times> string) list"

definition header :: "headers \<Rightarrow> string \<Rightarrow> string option" where
  "header hs k = map_option snd (List.find (\<lambda>(k', v). lower k' = lower k) hs)"

definition forwarded_client_ip :: "headers option \<Rightarrow> string" where
  "forwarded_client_ip hdrs = (case hdrs of
      None \<Rightarrow> []
    | Some hs \<Rightarrow> (case header hs ''X-Real-Ip'' of
        Some xri \<Rightarrow> if xri \<noteq> [] then strip xri
          else (case header hs ''X-Forwarded-For'' of
             Some xff \<Rightarrow> if xff \<noteq> [] then strip (before_char CHR '','' xff) else []
           | None \<Rightarrow> [])
      | None \<Rightarrow> (case header hs ''X-Forwarded-For'' of
             Some xff \<Rightarrow> if xff \<noteq> [] then strip (before_char CHR '','' xff) else []
           | None \<Rightarrow> [])))"

section \<open>Prefixes are prefixes\<close>

lemma bit_netmask:
  "bit (netmask p :: 'a::len word) i \<longleftrightarrow> i < LENGTH('a) \<and> LENGTH('a) - p \<le> i"
  by (auto simp: netmask_def bit_simps)

lemma and_netmask_eq:
  fixes a n :: "'a::len word"
  shows "a AND netmask p = n AND netmask p \<longleftrightarrow>
    (\<forall>i. LENGTH('a) - p \<le> i \<and> i < LENGTH('a) \<longrightarrow> bit a i = bit n i)"
  by (auto simp: bit_eq_iff bit_netmask bit_simps)

lemma netmask_idem: "(n AND netmask p) AND netmask p = (n AND netmask p :: 'a::len word)"
  by (simp add: and.assoc)

text \<open>The leading \<open>p\<close> bits of the address are those of the network.\<close>

fun same_prefix :: "ipaddr \<Rightarrow> ipnet \<Rightarrow> bool" where
  "same_prefix (V4 a) (Net4 n p) = (\<forall>i. 32 - p \<le> i \<and> i < 32 \<longrightarrow> bit a i = bit n i)"
| "same_prefix (V6 a) (Net6 n p) = (\<forall>i. 128 - p \<le> i \<and> i < 128 \<longrightarrow> bit a i = bit n i)"
| "same_prefix _ _ = False"

fun net_ok :: "ipnet \<Rightarrow> bool" where
  "net_ok (Net4 n p) = (p \<le> 32 \<and> n AND netmask p = n)"
| "net_ok (Net6 n p) = (p \<le> 128 \<and> n AND netmask p = n)"

lemma mask_prefix_le: "mask_prefix m = Some p \<Longrightarrow> p \<le> 32"
  by (auto simp: mask_prefix_def find_Some_iff)

lemma parse_mask4_le: "parse_mask4 s = Some p \<Longrightarrow> p \<le> 32"
  by (auto simp: parse_mask4_def parse_prefix_def split: if_splits option.splits dest: mask_prefix_le)

lemma ip_network_ok: "ip_network s = Inr n \<Longrightarrow> net_ok n"
  by (auto simp: ip_network_def Let_def netmask_idem parse_prefix_def
      split: option.splits list.splits if_splits dest: parse_mask4_le)

lemma in_net_prefix: "net_ok n \<Longrightarrow> in_net a n \<longleftrightarrow> same_prefix a n"
proof (induction a n rule: in_net.induct)
  case (1 a n p)
  then show ?case using and_netmask_eq [of a p n] by simp
next
  case (2 a n p)
  then show ?case using and_netmask_eq [of a p n] by simp
qed simp_all

lemma map_res_Inr_iff: "map_res f xs = Inr ys \<longleftrightarrow> list_all2 (\<lambda>x y. f x = Inr y) xs ys"
  by (induction xs arbitrary: ys) (auto simp: bind_res_Inr_iff list_all2_Cons1)

lemma map_res_set: "map_res f xs = Inr ys \<Longrightarrow> y \<in> set ys \<longleftrightarrow> (\<exists>x \<in> set xs. f x = Inr y)"
  unfolding map_res_Inr_iff by (induction xs ys rule: list_all2_induct) auto

section \<open>Dotted quads\<close>

definition dotted :: "nat \<Rightarrow> nat \<Rightarrow> nat \<Rightarrow> nat \<Rightarrow> string" where
  "dotted a b c d = join_char CHR ''.'' [str_nat a, str_nat b, str_nat c, str_nat d]"

definition quad :: "nat \<Rightarrow> nat \<Rightarrow> nat \<Rightarrow> nat \<Rightarrow> nat" where
  "quad a b c d = ((a * 256 + b) * 256 + c) * 256 + d"

lemma str_nat_len: "n < 256 \<Longrightarrow> length (str_nat n) \<le> 3"
proof -
  have one: "n < 10 \<Longrightarrow> length (str_nat n) = 1" for n by (simp add: str_nat.simps [of n])
  have two: "n < 100 \<Longrightarrow> length (str_nat n) \<le> 2" for n
    using one [of "n div 10"] one [of n] by (cases "n < 10") (simp_all add: str_nat.simps [of n])
  show "n < 256 \<Longrightarrow> length (str_nat n) \<le> 3"
    using two [of "n div 10"] one [of n] by (cases "n < 10") (simp_all add: str_nat.simps [of n])
qed

lemma str_nat_hd: "n \<noteq> 0 \<Longrightarrow> hd (str_nat n) \<noteq> CHR ''0''"
proof (induction n rule: str_nat.induct)
  case (1 n)
  show ?case
  proof (cases "n < 10")
    case True
    then have "code (char_of (48 + n) :: char) \<noteq> (code CHR ''0'' :: nat)" using 1 by (simp add: code_digit)
    then have "char_of (48 + n) \<noteq> CHR ''0''" by metis
    then show ?thesis using True by (simp add: str_nat.simps [of n])
  next
    case False
    then have "hd (str_nat n) = hd (str_nat (n div 10))"
      by (simp add: str_nat.simps [of n])
    then show ?thesis using 1 False by simp
  qed
qed

lemma parse_octet_str_nat: "n < 256 \<Longrightarrow> parse_octet (str_nat n) = Some n"
proof -
  assume n: "n < 256"
  have "str_nat n \<noteq> ''0'' \<Longrightarrow> hd (str_nat n) \<noteq> CHR ''0''"
    using str_nat_hd [of n] by (cases "n = 0") (simp_all add: str_nat.simps [of 0] char_of_eq_iff)
  then show ?thesis
    using str_nat_len [OF n] n
    by (auto simp: parse_octet_def digits_val_str_nat list_all_iff str_nat_digits)
qed

lemma str_nat_dot: "CHR ''.'' \<notin> set (str_nat n)" "CHR '':'' \<notin> set (str_nat n)"
  "CHR ''/'' \<notin> set (str_nat n)" "CHR ''%'' \<notin> set (str_nat n)"
  using str_nat_digits [of _ n] by (force simp: is_digit_def)+

lemma parse_v4_dotted:
  "\<lbrakk>a < 256; b < 256; c < 256; d < 256\<rbrakk> \<Longrightarrow> parse_v4 (dotted a b c d) = Some (quad a b c d)"
  by (simp add: parse_v4_def dotted_def split_char_append split_char_free str_nat_dot
      parse_octet_str_nat quad_def)

lemma dotted_chars:
  "CHR ''/'' \<notin> set (dotted a b c d)" "CHR '':'' \<notin> set (dotted a b c d)"
  "CHR ''%'' \<notin> set (dotted a b c d)" "CHR ''.'' \<in> set (dotted a b c d)"
  by (simp_all add: dotted_def str_nat_dot)

lemma ip_address_dotted:
  "\<lbrakk>a < 256; b < 256; c < 256; d < 256\<rbrakk> \<Longrightarrow> ip_address (dotted a b c d) = Some (V4 (word_of_nat (quad a b c d)))"
  by (simp add: ip_address_def dotted_chars parse_v4_dotted)

section \<open>IPv4 clients on an IPv6 listener\<close>

lemma code_char_of [simp]: "n < 256 \<Longrightarrow> code (char_of n :: char) = (n :: nat)"
  by (simp add: of_char_of)

lemma hex_low_digit: "n < 16 \<Longrightarrow> is_hex (hex_low n) \<and> hex_val (hex_low n) = n"
  by (auto simp: hex_low_def is_hex_def is_hex_lower_def is_digit_def hex_val_def)

lemma hex_num_snoc: "hex_num (s @ [c]) = 16 * hex_num s + hex_val c"
  by (simp add: hex_num_def)

lemma hex_str_spec: "hex_str n \<noteq> [] \<and> list_all is_hex (hex_str n) \<and> hex_num (hex_str n) = n"
proof (induction n rule: hex_str.induct)
  case (1 n)
  then show ?case
    using hex_low_digit [of n] hex_low_digit [of "n mod 16"]
    by (cases "n < 16") (auto simp: hex_str.simps [of n] hex_num_snoc, simp add: hex_num_def)
qed

lemma hex_str_len: "n < 16 ^ Suc k \<Longrightarrow> length (hex_str n) \<le> Suc k"
proof (induction k arbitrary: n)
  case 0
  then show ?case by (simp add: hex_str.simps [of n])
next
  case (Suc k)
  then have "n div 16 < 16 ^ Suc k" by (simp add: less_mult_imp_div_less mult.commute)
  with Suc.IH [of "n div 16"] show ?case by (simp add: hex_str.simps [of n])
qed

lemma parse_hextet_hex_str: "n < 65536 \<Longrightarrow> parse_hextet (hex_str n) = Some n"
  using hex_str_spec [of n] hex_str_len [of n 3] by (simp add: parse_hextet_def)

lemma quad_less: "\<lbrakk>a < 256; b < 256; c < 256; d < 256\<rbrakk> \<Longrightarrow> quad a b c d < 65536 * 65536"
  by (simp add: quad_def)

definition mapped_text :: "nat \<Rightarrow> nat \<Rightarrow> nat \<Rightarrow> nat \<Rightarrow> string" where
  "mapped_text a b c d = ''::ffff:'' @ dotted a b c d"

lemma parse_v6_mapped:
  assumes "a < 256" "b < 256" "c < 256" "d < 256"
  shows "parse_v6 (mapped_text a b c d) = Some (65535 * 2 ^ 32 + quad a b c d)"
proof -
  let ?q = "quad a b c d"
  have sp: "split_char CHR '':'' (mapped_text a b c d) = [[], [], ''ffff'', dotted a b c d]"
    by (simp add: mapped_text_def split_char_free dotted_chars)
  have sc: "split_scope (mapped_text a b c d) = Some (mapped_text a b c d)"
  proof -
    have "CHR ''%'' \<notin> set (mapped_text a b c d)" by (simp add: mapped_text_def dotted_chars)
    then have "dropWhile (\<lambda>x. x \<noteq> CHR ''%'') (mapped_text a b c d) = []"
        "takeWhile (\<lambda>x. x \<noteq> CHR ''%'') (mapped_text a b c d) = mapped_text a b c d"
      by (auto simp: takeWhile_eq_all_conv)
    then show ?thesis by (simp add: split_scope_def before_char_def Let_def)
  qed
  have f: "parse_hextet ''ffff'' = Some 65535"
    by (simp add: parse_hextet_def is_hex_def is_hex_lower_def is_digit_def hex_num_def hex_val_def)
  have div: "?q div 65536 < 65536" "?q mod 65536 < 65536"
    using quad_less [OF assms] by (simp_all add: less_mult_imp_div_less)
  have up: "[1 ..< 4] = [1, 2, 3::nat]" by (simp add: upt_rec)
  have "read_parts [[], [], ''ffff'', hex_str (?q div 65536), hex_str (?q mod 65536)] =
      Some (65535 * 2 ^ 32 + ?q)"
    using hex_str_spec
    by (simp add: read_parts_def Let_def up f div parse_hextet_hex_str hextets_def)
  then show ?thesis
    using sp sc dotted_chars(4) [of a b c d]
    by (simp add: parse_v6_def Let_def parse_v4_dotted [OF assms]) (simp add: mapped_text_def)
qed

lemma unat_drop_of_nat:
  "n < 2 ^ LENGTH('a) \<Longrightarrow> unat (drop_bit k (word_of_nat n :: 'a::len word)) = n div 2 ^ k"
  unfolding unat_drop_bit_eq by (simp add: drop_bit_eq_div unat_of_nat)

lemma low_words: "(65535 * 2 ^ 32 + n) mod 2 ^ LENGTH(128) mod 2 ^ LENGTH(32) = n mod (2 ^ LENGTH(32) :: nat)"
proof -
  have "(2 :: nat) ^ LENGTH(32) dvd 2 ^ LENGTH(128)" by (intro le_imp_power_dvd) simp
  then have "(65535 * 2 ^ 32 + n) mod 2 ^ LENGTH(128) mod 2 ^ LENGTH(32) = (n + 65535 * 2 ^ 32) mod (2 ^ LENGTH(32) :: nat)"
    by (simp only: mod_mod_cancel add.commute)
  also have "\<dots> = n mod 2 ^ LENGTH(32)"
  proof -
    have "LENGTH(32) = 32" by simp
    then show ?thesis by (simp only: mod_mult_self1)
  qed
  finally show ?thesis .
qed

lemma ip_address_mapped:
  assumes "a < 256" "b < 256" "c < 256" "d < 256"
  shows "map_option unmap (ip_address (mapped_text a b c d)) = ip_address (dotted a b c d)"
proof -
  let ?q = "quad a b c d"
  have "parse_v4 (mapped_text a b c d) = None"
  proof -
    have p: "split_char CHR ''.'' (mapped_text a b c d) =
        (''::ffff:'' @ str_nat a) # map str_nat [b, c, d]"
      by (simp add: mapped_text_def dotted_def)
         (simp add: split_char_append [of _ "''::ffff:'' @ str_nat a", simplified]
            split_char_append split_char_free str_nat_dot)
    have "parse_octet (''::ffff:'' @ str_nat a) = None"
      by (simp add: parse_octet_def is_digit_def)
    then show ?thesis by (simp add: parse_v4_def p)
  qed
  moreover have "CHR ''/'' \<notin> set (mapped_text a b c d)" by (simp add: mapped_text_def dotted_chars)
  ultimately have ip: "ip_address (mapped_text a b c d) = Some (V6 (word_of_nat (65535 * 2 ^ 32 + ?q)))"
    by (simp add: ip_address_def parse_v6_mapped [OF assms])
  have q: "?q < 2 ^ 32" using quad_less [OF assms] by simp
  have hi: "drop_bit 32 (word_of_nat (65535 * 2 ^ 32 + ?q) :: 128 word) = 0xFFFF"
  proof -
    have "65535 * 2 ^ 32 + ?q < 2 ^ LENGTH(128)" "(65535 * 2 ^ 32 + ?q) div 2 ^ 32 = 65535"
      using q by simp_all
    then have "unat (drop_bit 32 (word_of_nat (65535 * 2 ^ 32 + ?q) :: 128 word)) = 65535"
      by (simp only: unat_drop_of_nat)
    then show ?thesis by (simp only: word_unat_eq_iff) simp
  qed
  have lo: "ucast (word_of_nat (65535 * 2 ^ 32 + ?q) :: 128 word) = (word_of_nat ?q :: 32 word)"
    by (simp only: word_unat_eq_iff unsigned_ucast_eq unsigned_take_bit_eq take_bit_eq_mod unat_of_nat low_words)
  show ?thesis using hi lo ip by (simp add: unmap_def ip_address_dotted [OF assms])
qed

section \<open>What the allowlist admits\<close>

text \<open>The gateway's allowlist is exact. When the configured entries parse, an address is
  admitted exactly when the list has no entry but blank ones (an empty list admits
  everybody, even an address nobody can read), or the address reads as one that shares
  with some entry all the leading bits of that entry's prefix; an address that does not
  read is admitted by no entry.\<close>

lemma allowlist_exact:
  assumes "parse_networks entries = Inr nets"
  shows "ip_allowed ip nets \<longleftrightarrow>
    (\<forall>e \<in> set entries. e = []) \<or>
    (\<exists>addr. ip_address ip = Some addr \<and>
      (\<exists>e \<in> set entries. \<exists>n. e \<noteq> [] \<and> ip_network e = Inr n \<and> same_prefix (unmap addr) n))"
proof -
  have nets: "n \<in> set nets \<longleftrightarrow> (\<exists>e \<in> set entries. e \<noteq> [] \<and> ip_network e = Inr n)" for n
    using map_res_set [OF assms [unfolded parse_networks_def], of n] by auto
  have "length nets = length (filter (\<lambda>e. e \<noteq> []) entries)"
    by (rule map_res_Inr_length [OF assms [unfolded parse_networks_def]])
  then have "nets = [] \<longleftrightarrow> filter (\<lambda>e. e \<noteq> []) entries = []" by (metis length_0_conv)
  then have "nets = [] \<longleftrightarrow> (\<forall>e \<in> set entries. e = [])" by (simp add: filter_empty_conv)
  moreover have "list_ex (in_net a) nets \<longleftrightarrow>
      (\<exists>e \<in> set entries. \<exists>n. e \<noteq> [] \<and> ip_network e = Inr n \<and> same_prefix a n)" for a
    unfolding list_ex_iff using nets in_net_prefix ip_network_ok by blast
  ultimately show ?thesis by (auto simp: ip_allowed_def split: option.splits)
qed

text \<open>An IPv4 client gets the same answer, from the allowlist and from the loopback
  test, whether it is seen as itself or through an IPv6 listener as an IPv4-mapped
  address.\<close>

theorem mapped_clients_alike:
  assumes "a < 256" "b < 256" "c < 256" "d < 256"
  shows "ip_allowed (''::ffff:'' @ dotted a b c d) nets = ip_allowed (dotted a b c d) nets \<and>
    is_loopback (''::ffff:'' @ dotted a b c d) = (a = 127) \<and>
    is_loopback (dotted a b c d) = (a = 127)"
proof -
  note m = ip_address_mapped [OF assms, unfolded mapped_text_def]
  note q = ip_address_dotted [OF assms]
  obtain x where x: "ip_address (''::ffff:'' @ dotted a b c d) = Some x"
      "unmap x = V4 (word_of_nat (quad a b c d))"
    using m q by (cases "ip_address (''::ffff:'' @ dotted a b c d)") auto
  have u: "unmap (V4 v) = V4 v" for v by (simp add: unmap_def)
  have "drop_bit 24 (word_of_nat (quad a b c d) :: 32 word) = 127 \<longleftrightarrow> a = 127"
  proof -
    have "quad a b c d < 2 ^ LENGTH(32)" "quad a b c d div 2 ^ 24 = a"
      using quad_less [OF assms] assms by (simp_all add: quad_def)
    then have u: "unat (drop_bit 24 (word_of_nat (quad a b c d) :: 32 word)) = a"
      by (simp only: unat_drop_of_nat)
    then show ?thesis by (simp only: word_unat_eq_iff) simp
  qed
  then show ?thesis using x q u by (simp add: ip_allowed_def is_loopback_def)
qed

lemma mapped_clients_alike_witness:
  "ip_allowed (''::ffff:'' @ dotted 192 0 2 7) [Net4 0xC0000200 24] = ip_allowed (dotted 192 0 2 7) [Net4 0xC0000200 24]"
  using mapped_clients_alike [of 192 0 2 7 "[Net4 0xC0000200 24]"] by simp

end
