(* ===== verification/Config.thy ===== *)
theory Config
  imports PyVal
begin

text \<open>
  The settings of the server, \<^verbatim>\<open>lava_mcp/config.py\<close>, read from the environment,
  and the command line of \<^verbatim>\<open>lava_mcp/cmdline.py\<close> that overrides them. The
  environment is a map from names to values; floats are exact.
\<close>

type_synonym environ = "string \<Rightarrow> string option"

definition env_bool :: "environ \<Rightarrow> string \<Rightarrow> bool \<Rightarrow> bool" where
  "env_bool env name dflt = (case env name of
      None \<Rightarrow> dflt
    | Some v \<Rightarrow> lower (strip v) \<in> {''1'', ''true'', ''yes'', ''on''})"

definition env_list :: "environ \<Rightarrow> string \<Rightarrow> string list" where
  "env_list env name = (case env name of
      None \<Rightarrow> []
    | Some v \<Rightarrow> if v = [] then [] else filter (\<lambda>i. i \<noteq> []) (split_ws (replace_char CHR '','' '' '' v)))"

definition env_get :: "environ \<Rightarrow> string \<Rightarrow> string \<Rightarrow> string" where
  "env_get env name dflt = (case env name of None \<Rightarrow> dflt | Some v \<Rightarrow> v)"

text \<open>
  \<^verbatim>\<open>float(s)\<close> of a decimal number: a sign, digits with single underscores, an optional
  fraction, an optional exponent. (The names of infinity and not-a-number, which
  Python also reads, are refused here.)
\<close>

definition digits_opt :: "string \<Rightarrow> string option" where
  "digits_opt s = (if s = [] then Some [] else digits_us s)"

definition py_mantissa :: "string \<Rightarrow> rat option" where
  "py_mantissa m =
     (let ip = before_char CHR ''.'' m; fp = drop (Suc (length ip)) m in
      case (digits_opt ip, digits_opt fp) of
        (Some a, Some b) \<Rightarrow> if a = [] \<and> b = [] then None
          else Some (of_nat (digits_val (a @ b)) / 10 ^ length b)
      | _ \<Rightarrow> None)"

definition py_float :: "string \<Rightarrow> rat option" where
  "py_float s =
     (let t = strip s;
          neg = (t \<noteq> [] \<and> hd t = CHR ''-'');
          body = (if t \<noteq> [] \<and> (hd t = CHR ''-'' \<or> hd t = CHR ''+'') then tl t else t);
          m = takeWhile (\<lambda>c. c \<noteq> CHR ''e'' \<and> c \<noteq> CHR ''E'') body;
          ex = drop (length m) body;
          esign = (if ex \<noteq> [] \<and> tl ex \<noteq> [] \<and> hd (tl ex) \<in> {CHR ''-'', CHR ''+''} then [hd (tl ex)] else []);
          edig = drop (Suc (length esign)) ex
      in case (py_mantissa m, if ex = [] then Some ''0'' else digits_us edig) of
           (Some x, Some e) \<Rightarrow>
             (let k = digits_val e; y = (if esign = ''-'' then x / 10 ^ k else x * 10 ^ k)
              in Some (if neg then - y else y))
         | _ \<Rightarrow> None)"

section \<open>The settings\<close>

record config =
  cf_url :: string
  cf_token :: "string option"
  cf_api_version :: string
  cf_read_only :: bool
  cf_timeout :: rat
  cf_source_repo :: string
  cf_source_ref :: string
  cf_source_dir :: string
  cf_source_poll :: rat
  cf_transport :: string
  cf_host :: string
  cf_port :: int
  cf_json_response :: bool
  cf_stateless :: bool
  cf_gateway_enabled :: bool
  cf_gateway_port :: int
  cf_advertise_host :: "string option"
  cf_advertise_port :: "int option"
  cf_ws_url :: string
  cf_allow_ips :: "string list"
  cf_http_users :: "string list"
  cf_ssh_users :: "string list"
  cf_remote_tag :: string
  cf_human_ttl :: rat
  cf_image :: string
  cf_repo :: string
  cf_path :: string
  cf_artifacts :: bool
  cf_art_dir :: string
  cf_art_base :: string
  cf_art_ttl :: rat
  cf_art_ttl_max :: rat
  cf_art_max_bytes :: int
  cf_art_min_free :: rat

text \<open>The defaults of the dataclass.\<close>

definition default_config :: config where
  "default_config = \<lparr>cf_url = [], cf_token = None, cf_api_version = ''v0.3'', cf_read_only = False,
     cf_timeout = 30, cf_source_repo = [], cf_source_ref = [], cf_source_dir = [], cf_source_poll = 300,
     cf_transport = ''stdio'', cf_host = ''127.0.0.1'', cf_port = 8000, cf_json_response = True,
     cf_stateless = False, cf_gateway_enabled = False, cf_gateway_port = 2222,
     cf_advertise_host = None, cf_advertise_port = None, cf_ws_url = [], cf_allow_ips = [],
     cf_http_users = [], cf_ssh_users = [], cf_remote_tag = ''allow-remote-access'',
     cf_human_ttl = 3600, cf_image = ''ghcr.io/lava-mcp/lava-mcp/interactive:latest'',
     cf_repo = ''https://github.com/lava-mcp/lava-mcp.git'',
     cf_path = ''interactive/ssh-gateway.yaml'', cf_artifacts = False, cf_art_dir = [],
     cf_art_base = [], cf_art_ttl = 6 * 3600, cf_art_ttl_max = 6 * 3600,
     cf_art_max_bytes = 6 * 1024 ^ 3, cf_art_min_free = 1 / 10\<rparr>"

definition env_int :: "environ \<Rightarrow> string \<Rightarrow> string \<Rightarrow> exc + int" where
  "env_int env name dflt = (case py_int (env_get env name dflt) of None \<Rightarrow> Inl ValueError | Some i \<Rightarrow> Inr i)"

definition env_float :: "environ \<Rightarrow> string \<Rightarrow> string \<Rightarrow> exc + rat" where
  "env_float env name dflt = (case py_float (env_get env name dflt) of None \<Rightarrow> Inl ValueError | Some x \<Rightarrow> Inr x)"

definition env_int_opt :: "environ \<Rightarrow> string \<Rightarrow> exc + int option" where
  "env_int_opt env name = (case env name of
      None \<Rightarrow> Inr None
    | Some v \<Rightarrow> if v = [] then Inr None
        else (case py_int v of None \<Rightarrow> Inl ValueError | Some i \<Rightarrow> Inr (Some i)))"

definition from_env :: "environ \<Rightarrow> exc + config" where
  "from_env env =
     bind_res (env_int env ''LAVA_MCP_GATEWAY_PORT'' ''2222'') (\<lambda>gw_port.
     bind_res (env_float env ''LAVA_SOURCE_POLL_INTERVAL'' ''300'') (\<lambda>poll.
     bind_res (env_float env ''LAVA_MCP_TIMEOUT'' ''30'') (\<lambda>tmo.
     bind_res (env_int env ''LAVA_MCP_PORT'' ''8000'') (\<lambda>prt.
     bind_res (env_int_opt env ''LAVA_MCP_GATEWAY_ADVERTISE_PORT'') (\<lambda>adv_port.
     bind_res (env_float env ''LAVA_MCP_GATEWAY_HUMAN_KEY_TTL'' ''3600'') (\<lambda>httl.
     bind_res (env_float env ''LAVA_MCP_ARTIFACT_TTL_DEFAULT'' ''21600'') (\<lambda>attl.
     bind_res (env_float env ''LAVA_MCP_ARTIFACT_TTL_MAX'' ''21600'') (\<lambda>amax.
     bind_res (env_int env ''LAVA_MCP_ARTIFACT_MAX_BYTES'' ''6442450944'') (\<lambda>abytes.
     bind_res (env_float env ''LAVA_MCP_ARTIFACT_MIN_FREE_FRACTION'' ''0.10'') (\<lambda>afree.
     Inr \<lparr>cf_url = env_get env ''LAVA_URL'' [], cf_token = env ''LAVA_TOKEN'',
       cf_api_version = env_get env ''LAVA_API_VERSION'' ''v0.3'',
       cf_read_only = env_bool env ''LAVA_MCP_READ_ONLY'' False, cf_timeout = tmo,
       cf_source_repo = env_get env ''LAVA_SOURCE_REPO'' [],
       cf_source_ref = env_get env ''LAVA_SOURCE_REF'' [],
       cf_source_dir = env_get env ''LAVA_SOURCE_DIR'' [], cf_source_poll = poll,
       cf_transport = env_get env ''LAVA_MCP_TRANSPORT'' ''stdio'',
       cf_host = env_get env ''LAVA_MCP_HOST'' ''127.0.0.1'', cf_port = prt,
       cf_json_response = env_bool env ''LAVA_MCP_JSON_RESPONSE'' True,
       cf_stateless = env_bool env ''LAVA_MCP_STATELESS'' False,
       cf_gateway_enabled = env_bool env ''LAVA_MCP_GATEWAY_ENABLED'' False,
       cf_gateway_port = gw_port,
       cf_advertise_host = env ''LAVA_MCP_GATEWAY_ADVERTISE_HOST'', cf_advertise_port = adv_port,
       cf_ws_url = env_get env ''LAVA_MCP_GATEWAY_WS_URL'' [],
       cf_allow_ips = env_list env ''LAVA_MCP_GATEWAY_ALLOW_IPS'',
       cf_http_users = env_list env ''LAVA_MCP_HTTP_ALLOW_USERS'',
       cf_ssh_users = env_list env ''LAVA_MCP_SSH_ALLOW_USERS'',
       cf_remote_tag = env_get env ''LAVA_MCP_REMOTE_ACCESS_TAG'' ''allow-remote-access'',
       cf_human_ttl = httl,
       cf_image = env_get env ''LAVA_MCP_INTERACTIVE_IMAGE'' ''ghcr.io/lava-mcp/lava-mcp/interactive:latest'',
       cf_repo = env_get env ''LAVA_MCP_INTERACTIVE_REPO'' ''https://github.com/lava-mcp/lava-mcp.git'',
       cf_path = env_get env ''LAVA_MCP_INTERACTIVE_PATH'' ''interactive/ssh-gateway.yaml'',
       cf_artifacts = env_bool env ''LAVA_MCP_ARTIFACTS_ENABLED'' False,
       cf_art_dir = env_get env ''LAVA_MCP_ARTIFACT_DIR'' [],
       cf_art_base = env_get env ''LAVA_MCP_ARTIFACT_BASE_URL'' [],
       cf_art_ttl = attl, cf_art_ttl_max = amax, cf_art_max_bytes = abytes,
       cf_art_min_free = afree\<rparr>))))))))))"

section \<open>The command line\<close>

text \<open>What \<^verbatim>\<open>argparse\<close> hands back for the options of the program.\<close>

record cli_args =
  ar_url :: "string option"
  ar_token :: "string option"
  ar_api_version :: "string option"
  ar_read_only :: bool
  ar_transport :: "string option"
  ar_host :: "string option"
  ar_port :: "int option"
  ar_gateway :: bool
  ar_gateway_port :: "int option"
  ar_advertise_host :: "string option"
  ar_allow_ip :: "string list option"
  ar_ws_url :: "string option"
  ar_http_user :: "string list option"
  ar_ssh_user :: "string list option"
  ar_remote_tag :: "string option"

text \<open>\<^verbatim>\<open>if args.x: config.x = args.x\<close> and \<^verbatim>\<open>if args.x is not None\<close>.\<close>

definition if_str :: "string option \<Rightarrow> string \<Rightarrow> string" where
  "if_str a x = (case a of Some v \<Rightarrow> if v \<noteq> [] then v else x | None \<Rightarrow> x)"

definition if_num :: "int option \<Rightarrow> int \<Rightarrow> int" where
  "if_num a x = (case a of Some v \<Rightarrow> if v \<noteq> 0 then v else x | None \<Rightarrow> x)"

definition if_list :: "string list option \<Rightarrow> string list \<Rightarrow> string list" where
  "if_list a x = (case a of Some v \<Rightarrow> if v \<noteq> [] then v else x | None \<Rightarrow> x)"

definition if_some :: "'a option \<Rightarrow> 'a \<Rightarrow> 'a" where
  "if_some a x = (case a of Some v \<Rightarrow> v | None \<Rightarrow> x)"

definition apply_args :: "cli_args \<Rightarrow> config \<Rightarrow> config" where
  "apply_args a c = c\<lparr>
     cf_url := if_str (ar_url a) (cf_url c),
     cf_token := (case ar_token a of Some v \<Rightarrow> if v \<noteq> [] then Some v else cf_token c | None \<Rightarrow> cf_token c),
     cf_api_version := if_str (ar_api_version a) (cf_api_version c),
     cf_read_only := (ar_read_only a \<or> cf_read_only c),
     cf_transport := if_str (ar_transport a) (cf_transport c),
     cf_host := if_str (ar_host a) (cf_host c),
     cf_port := if_num (ar_port a) (cf_port c),
     cf_gateway_enabled := (ar_gateway a \<or> cf_gateway_enabled c),
     cf_gateway_port := if_num (ar_gateway_port a) (cf_gateway_port c),
     cf_advertise_host := (case ar_advertise_host a of
        Some v \<Rightarrow> if v \<noteq> [] then Some v else cf_advertise_host c | None \<Rightarrow> cf_advertise_host c),
     cf_allow_ips := if_list (ar_allow_ip a) (cf_allow_ips c),
     cf_ws_url := if_some (ar_ws_url a) (cf_ws_url c),
     cf_http_users := if_list (ar_http_user a) (cf_http_users c),
     cf_ssh_users := if_list (ar_ssh_user a) (cf_ssh_users c),
     cf_remote_tag := if_some (ar_remote_tag a) (cf_remote_tag c)\<rparr>"

text \<open>How the program starts: it serves a configuration, refuses it, or raises on the environment.\<close>

datatype startup = Serve config | Refuse string | Crash exc

definition start :: "environ \<Rightarrow> cli_args \<Rightarrow> startup" where
  "start env a = (case from_env env of
      Inl e \<Rightarrow> Crash e
    | Inr c0 \<Rightarrow>
       (let c = apply_args a c0 in
        if cf_transport c \<notin> {''stdio'', ''streamable-http''}
        then Refuse (''unsupported transport: '' @ cf_transport c)
        else if cf_transport c = ''stdio'' \<and> cf_url c = []
        then Refuse (''stdio mode needs --url or $LAVA_URL '' @
          ''(HTTP mode takes per-client X-Lava-Url/X-Lava-Token headers)'')
        else Serve c))"

section \<open>Properties\<close>

definition no_args :: cli_args where
  "no_args = \<lparr>ar_url = None, ar_token = None, ar_api_version = None, ar_read_only = False,
     ar_transport = None, ar_host = None, ar_port = None, ar_gateway = False,
     ar_gateway_port = None, ar_advertise_host = None, ar_allow_ip = None, ar_ws_url = None,
     ar_http_user = None, ar_ssh_user = None, ar_remote_tag = None\<rparr>"

lemma py_int_defaults:
  "py_int ''2222'' = Some 2222" "py_int ''8000'' = Some 8000" "py_int ''6442450944'' = Some 6442450944"
  by (simp_all add: py_int_def strip_if_def lstrip_if_def rstrip_if_def is_space_def is_digit_def
      digits_val_def digit_val_def Let_def)

lemma py_float_defaults:
  "py_float ''300'' = Some 300" "py_float ''30'' = Some 30" "py_float ''3600'' = Some 3600"
  "py_float ''21600'' = Some 21600" "py_float ''0.10'' = Some (1 / 10)"
  by (simp_all add: py_float_def py_mantissa_def digits_opt_def before_char_def strip_if_def lstrip_if_def
      rstrip_if_def is_space_def is_digit_def digits_val_def digit_val_def Let_def)

lemma from_empty_env: "from_env (\<lambda>_. None) = Inr default_config"
  by (simp add: from_env_def env_int_def env_float_def env_int_opt_def env_get_def env_bool_def
      env_list_def py_int_defaults py_float_defaults default_config_def)

lemma apply_no_args: "apply_args no_args c = c"
  by (simp add: apply_args_def no_args_def if_str_def if_num_def if_list_def if_some_def)

text \<open>An empty environment and an empty command line give exactly the documented
  defaults, which refuse to start over stdio without a LAVA instance; whatever the
  environment holds, the program either crashes on a number that does not read, refuses,
  or serves over one of its two transports, never over stdio without an instance; and
  read-only mode asked for by either is never lost.\<close>

theorem startup_sound:
  "from_env (\<lambda>_. None) = Inr default_config \<and> apply_args no_args c = c \<and>
   (\<exists>m. start (\<lambda>_. None) no_args = Refuse m) \<and>
   (case start env a of
      Crash e \<Rightarrow> e = ValueError
    | Refuse m \<Rightarrow> True
    | Serve s \<Rightarrow> cf_transport s \<in> {''stdio'', ''streamable-http''} \<and>
        \<not> (cf_transport s = ''stdio'' \<and> cf_url s = []) \<and>
        cf_read_only s = (ar_read_only a \<or> env_bool env ''LAVA_MCP_READ_ONLY'' False))"
proof -
  have crash: "from_env env = Inl e \<Longrightarrow> e = ValueError" for e
    by (auto simp: from_env_def env_int_def env_float_def env_int_opt_def bind_res_def
        split: sum.splits option.splits if_splits)
  have ro: "from_env env = Inr c0 \<Longrightarrow> cf_read_only c0 = env_bool env ''LAVA_MCP_READ_ONLY'' False" for c0
    by (auto simp: from_env_def bind_res_Inr_iff)
  have "\<exists>m. start (\<lambda>_. None) no_args = Refuse m"
    by (simp add: start_def from_empty_env apply_no_args) (simp add: default_config_def)
  moreover have "case start env a of
      Crash e \<Rightarrow> e = ValueError
    | Refuse m \<Rightarrow> True
    | Serve s \<Rightarrow> cf_transport s \<in> {''stdio'', ''streamable-http''} \<and>
        \<not> (cf_transport s = ''stdio'' \<and> cf_url s = []) \<and>
        cf_read_only s = (ar_read_only a \<or> env_bool env ''LAVA_MCP_READ_ONLY'' False)"
  proof (cases "from_env env")
    case (Inl e)
    then show ?thesis using crash by (simp add: start_def)
  next
    case (Inr c0)
    have "cf_read_only (apply_args a c0) = (ar_read_only a \<or> cf_read_only c0)"
      by (simp add: apply_args_def)
    then show ?thesis using ro [OF Inr] Inr by (auto simp: start_def Let_def)
  qed
  ultimately show ?thesis using from_empty_env apply_no_args by blast
qed

section \<open>Flags as environment\<close>

text \<open>
  The environment in which every flag given on the command line is the variable it stands
  for: an empty text, a zero or an empty list sets nothing, except for the two options for
  which the empty text is a setting.
\<close>

definition set_if :: "string \<Rightarrow> string option \<Rightarrow> environ \<Rightarrow> environ" where
  "set_if name v env = (\<lambda>m. if m = name then (case v of None \<Rightarrow> env m | Some x \<Rightarrow> Some x) else env m)"

definition given_str :: "string option \<Rightarrow> string option" where
  "given_str a = (case a of Some v \<Rightarrow> if v \<noteq> [] then Some v else None | None \<Rightarrow> None)"

definition given_num :: "int option \<Rightarrow> string option" where
  "given_num a = (case a of Some v \<Rightarrow> if v \<noteq> 0 then Some (str_int v) else None | None \<Rightarrow> None)"

definition given_list :: "string list option \<Rightarrow> string option" where
  "given_list a = (case a of Some vs \<Rightarrow> if vs \<noteq> [] then Some (join_char CHR '' '' vs) else None | None \<Rightarrow> None)"

definition given_flag :: "bool \<Rightarrow> string option" where
  "given_flag b = (if b then Some ''1'' else None)"

definition args_env :: "cli_args \<Rightarrow> environ \<Rightarrow> environ" where
  "args_env a env =
     set_if ''LAVA_URL'' (given_str (ar_url a))
    (set_if ''LAVA_TOKEN'' (given_str (ar_token a))
    (set_if ''LAVA_API_VERSION'' (given_str (ar_api_version a))
    (set_if ''LAVA_MCP_READ_ONLY'' (given_flag (ar_read_only a))
    (set_if ''LAVA_MCP_TRANSPORT'' (given_str (ar_transport a))
    (set_if ''LAVA_MCP_HOST'' (given_str (ar_host a))
    (set_if ''LAVA_MCP_PORT'' (given_num (ar_port a))
    (set_if ''LAVA_MCP_GATEWAY_ENABLED'' (given_flag (ar_gateway a))
    (set_if ''LAVA_MCP_GATEWAY_PORT'' (given_num (ar_gateway_port a))
    (set_if ''LAVA_MCP_GATEWAY_ADVERTISE_HOST'' (given_str (ar_advertise_host a))
    (set_if ''LAVA_MCP_GATEWAY_ALLOW_IPS'' (given_list (ar_allow_ip a))
    (set_if ''LAVA_MCP_GATEWAY_WS_URL'' (ar_ws_url a)
    (set_if ''LAVA_MCP_HTTP_ALLOW_USERS'' (given_list (ar_http_user a))
    (set_if ''LAVA_MCP_SSH_ALLOW_USERS'' (given_list (ar_ssh_user a))
    (set_if ''LAVA_MCP_REMOTE_ACCESS_TAG'' (ar_remote_tag a) env))))))))))))))"

text \<open>Values that a variable can carry: a number Python prints and reads, and words.\<close>

definition env_word :: "string \<Rightarrow> bool" where
  "env_word w \<longleftrightarrow> w \<noteq> [] \<and> list_all (\<lambda>c. \<not> is_space c \<and> c \<noteq> CHR '','') w"

definition plain_num :: "int option \<Rightarrow> bool" where
  "plain_num a = (case a of None \<Rightarrow> True | Some i \<Rightarrow> length (str_nat (nat \<bar>i\<bar>)) \<le> 4300)"

definition plain_words :: "string list option \<Rightarrow> bool" where
  "plain_words a = (case a of None \<Rightarrow> True | Some ws \<Rightarrow> list_all env_word ws)"

definition plain_args :: "cli_args \<Rightarrow> bool" where
  "plain_args a \<longleftrightarrow> plain_num (ar_port a) \<and> plain_num (ar_gateway_port a) \<and>
     plain_words (ar_allow_ip a) \<and> plain_words (ar_http_user a) \<and> plain_words (ar_ssh_user a)"

lemma set_if_other: "m \<noteq> n \<Longrightarrow> set_if n v env m = env m"
  by (simp add: set_if_def)

lemma set_if_same: "set_if n v env n = if_some (map_option Some v) (env n)"
  by (simp add: set_if_def if_some_def split: option.splits)

lemma if_some_given: "if_some (given_str a) x = if_str a x"
  "if_some (map_option Some (given_str a)) y = (case a of Some v \<Rightarrow> if v \<noteq> [] then Some v else y | None \<Rightarrow> y)"
  by (simp_all add: if_some_def if_str_def given_str_def split: option.splits)

lemma env_get_other: "m \<noteq> n \<Longrightarrow> env_get (set_if n v env) m d = env_get env m d"
  by (simp add: env_get_def set_if_def)

lemma env_get_some: "env_get (set_if n v env) n d = if_some v (env_get env n d)"
  by (simp add: env_get_def set_if_def if_some_def split: option.splits)

lemma env_int_other: "m \<noteq> n \<Longrightarrow> env_int (set_if n v env) m d = env_int env m d"
  by (simp add: env_int_def env_get_other)

text \<open>A number from the command line counts only where the variable itself reads.\<close>

lemma env_int_given: "plain_num a \<Longrightarrow> env_int env n d = Inr x \<Longrightarrow>
    env_int (set_if n (given_num a) env) n d = Inr (if_num a x)"
  by (auto simp: env_int_def env_get_some if_some_def given_num_def if_num_def plain_num_def py_int_str_int
      split: option.splits)

lemma env_float_set_if: "m \<noteq> n \<Longrightarrow> env_float (set_if n v env) m d = env_float env m d"
  by (simp add: env_float_def env_get_other)

lemma env_int_opt_set_if: "m \<noteq> n \<Longrightarrow> env_int_opt (set_if n v env) m = env_int_opt env m"
  by (simp add: env_int_opt_def set_if_def)

lemma env_bool_given: "env_bool (set_if n (given_flag b) env) n d \<longleftrightarrow> b \<or> env_bool env n d"
  by (simp add: env_bool_def set_if_def given_flag_def strip_if_id is_space_def lower_def lower_char_def
      Let_def split: option.splits)

lemma env_bool_other: "m \<noteq> n \<Longrightarrow> env_bool (set_if n v env) m d = env_bool env m d"
  by (simp add: env_bool_def set_if_def)

lemma join_words_ne: "ws \<noteq> [] \<Longrightarrow> list_all env_word ws \<Longrightarrow> join_char c ws \<noteq> []"
  by (cases ws; cases "tl ws") (auto simp: env_word_def)

lemma comma_free_join: "list_all env_word ws \<Longrightarrow> CHR '','' \<notin> set (join_char CHR '' '' ws)"
  by (induction "CHR '' ''" ws rule: join_char.induct) (auto simp: env_word_def list_all_iff)

lemma split_join_words: "list_all env_word ws \<Longrightarrow> split_ws (join_char CHR '' '' ws) = ws"
proof (induction "CHR '' ''" ws rule: join_char.induct)
  case (2 w)
  then show ?case by (auto simp: env_word_def list_all_iff intro: split_ws_word)
next
  case (3 w v ws)
  then obtain c cs where w: "w = c # cs" "\<not> is_space c" "\<forall>x \<in> set cs. \<not> is_space x"
    by (cases w) (auto simp: env_word_def list_all_iff)
  have sp: "is_space CHR '' ''" by (simp add: is_space_def)
  have "takeWhile (\<lambda>x. \<not> is_space x) (cs @ CHR '' '' # t) = cs"
    "dropWhile (\<lambda>x. \<not> is_space x) (cs @ CHR '' '' # t) = CHR '' '' # t" for t
    using w(3) sp by (simp_all add: takeWhile_append dropWhile_append)
  then show ?case using 3 w(1,2) sp by simp
qed simp

lemma env_list_given: "plain_words a \<Longrightarrow> env_list (set_if n (given_list a) env) n = if_list a (env_list env n)"
proof -
  have "filter (\<lambda>i. i \<noteq> []) ws = ws" if "list_all env_word ws" for ws
    using that by (auto simp: filter_id_conv list_all_iff env_word_def)
  then show "plain_words a \<Longrightarrow> ?thesis"
    by (auto simp: env_list_def set_if_def given_list_def if_list_def plain_words_def replace_char_free
        comma_free_join split_join_words join_words_ne split: option.splits)
qed

lemma env_list_other: "m \<noteq> n \<Longrightarrow> env_list (set_if n v env) m = env_list env m"
  by (simp add: env_list_def set_if_def)

lemmas env_other = set_if_other env_get_other env_int_other env_float_set_if env_int_opt_set_if
  env_bool_other env_list_other

lemmas env_given = set_if_same env_get_some if_some_given env_bool_given env_list_given

text \<open>Started with any flags, the server runs, or refuses to, exactly as started without flags in
  that environment.\<close>

lemma flags_as_environment:
  assumes c: "from_env env = Inr c" and a: "plain_args a"
  shows "start env a = start (args_env a env) no_args"
proof -
  have p: "plain_num (ar_port a)" "plain_num (ar_gateway_port a)" "plain_words (ar_allow_ip a)"
    "plain_words (ar_http_user a)" "plain_words (ar_ssh_user a)"
    using a by (simp_all add: plain_args_def)
  from c obtain gw_port poll tmo prt adv_port httl attl amax abytes afree where r:
    "env_int env ''LAVA_MCP_GATEWAY_PORT'' ''2222'' = Inr gw_port"
    "env_float env ''LAVA_SOURCE_POLL_INTERVAL'' ''300'' = Inr poll"
    "env_float env ''LAVA_MCP_TIMEOUT'' ''30'' = Inr tmo"
    "env_int env ''LAVA_MCP_PORT'' ''8000'' = Inr prt"
    "env_int_opt env ''LAVA_MCP_GATEWAY_ADVERTISE_PORT'' = Inr adv_port"
    "env_float env ''LAVA_MCP_GATEWAY_HUMAN_KEY_TTL'' ''3600'' = Inr httl"
    "env_float env ''LAVA_MCP_ARTIFACT_TTL_DEFAULT'' ''21600'' = Inr attl"
    "env_float env ''LAVA_MCP_ARTIFACT_TTL_MAX'' ''21600'' = Inr amax"
    "env_int env ''LAVA_MCP_ARTIFACT_MAX_BYTES'' ''6442450944'' = Inr abytes"
    "env_float env ''LAVA_MCP_ARTIFACT_MIN_FREE_FRACTION'' ''0.10'' = Inr afree"
    unfolding from_env_def bind_res_Inr_iff by blast
  have ports: "env_int (args_env a env) ''LAVA_MCP_PORT'' ''8000'' = Inr (if_num (ar_port a) prt)"
    "env_int (args_env a env) ''LAVA_MCP_GATEWAY_PORT'' ''2222'' = Inr (if_num (ar_gateway_port a) gw_port)"
    using p r by (simp_all add: args_env_def env_other env_int_given)
  have rest: "env_float (args_env a env) ''LAVA_SOURCE_POLL_INTERVAL'' ''300'' = Inr poll"
    "env_float (args_env a env) ''LAVA_MCP_TIMEOUT'' ''30'' = Inr tmo"
    "env_int_opt (args_env a env) ''LAVA_MCP_GATEWAY_ADVERTISE_PORT'' = Inr adv_port"
    "env_float (args_env a env) ''LAVA_MCP_GATEWAY_HUMAN_KEY_TTL'' ''3600'' = Inr httl"
    "env_float (args_env a env) ''LAVA_MCP_ARTIFACT_TTL_DEFAULT'' ''21600'' = Inr attl"
    "env_float (args_env a env) ''LAVA_MCP_ARTIFACT_TTL_MAX'' ''21600'' = Inr amax"
    "env_int (args_env a env) ''LAVA_MCP_ARTIFACT_MAX_BYTES'' ''6442450944'' = Inr abytes"
    "env_float (args_env a env) ''LAVA_MCP_ARTIFACT_MIN_FREE_FRACTION'' ''0.10'' = Inr afree"
    using r by (simp_all add: args_env_def env_other)
  have "from_env (args_env a env) = Inr (apply_args a c)"
    using c p unfolding from_env_def
    by (clarsimp simp: r ports rest) (simp add: args_env_def env_other env_given apply_args_def split: option.splits)
  then show ?thesis by (simp add: start_def c apply_no_args)
qed

definition hosted_args :: cli_args where
  "hosted_args = no_args\<lparr>ar_transport := Some ''streamable-http'', ar_port := Some 9000, ar_gateway := True,
     ar_allow_ip := Some [''10.0.0.0/8'', ''::1''], ar_ws_url := Some []\<rparr>"

lemma hosted_plain: "plain_args hosted_args"
proof -
  have "length (str_nat 9000) = 4" by (simp add: str_nat.simps)
  then show ?thesis
    by (simp add: plain_args_def hosted_args_def no_args_def plain_num_def plain_words_def env_word_def is_space_def)
qed

text \<open>A variable that does not read stops the start also when a flag would override it.\<close>

lemma unreadable_port_crashes:
  assumes "py_int v = None"
  shows "start ((\<lambda>_. None)(''LAVA_MCP_PORT'' := Some v)) a = Crash ValueError"
proof -
  let ?env = "(\<lambda>_. None)(''LAVA_MCP_PORT'' := Some v) :: environ"
  have "env_int ?env ''LAVA_MCP_GATEWAY_PORT'' ''2222'' = Inr 2222"
    "env_float ?env ''LAVA_SOURCE_POLL_INTERVAL'' ''300'' = Inr 300"
    "env_float ?env ''LAVA_MCP_TIMEOUT'' ''30'' = Inr 30"
    "env_int ?env ''LAVA_MCP_PORT'' ''8000'' = Inl ValueError"
    using assms by (simp_all add: env_int_def env_float_def env_get_def py_int_defaults py_float_defaults)
  then show ?thesis by (simp add: start_def from_env_def)
qed

end
