(* ===== verification/Gateway.thy ===== *)
theory Gateway
  imports IPAddr Config
begin

text \<open>
  The session gateway, \<^verbatim>\<open>lava_mcp/gateway.py\<close>: board sessions and their registry,
  the callbacks the SSH library makes on each connection, the WebSocket bridge, and the
  operations the tools call. Keys, ports, session numbers, the clock and what the network
  answers are arguments. How a public key text denotes a key is the argument \<open>imp\<close>
  (\<^verbatim>\<open>asyncssh.import_public_key\<close>, \<open>None\<close> when it does not read); a key is its
  encoded form.
\<close>

section \<open>Board sessions\<close>

record board_session =
  session_id :: string
  private_key :: string
  public_key :: string
  reverse_port :: int
  s_kind :: string
  container_user :: string
  s_device_type :: "string option"
  s_job_id :: jval
  s_owner :: "string option"
  console_session_id :: "string option"
  console_target :: "(string \<times> string) option"
  s_status :: string
  s_created :: rat
  human_keys :: "(string, rat) dict"
  tunnel_up :: bool

definition authorize_human :: "string \<Rightarrow> rat \<Rightarrow> rat \<Rightarrow> board_session \<Rightarrow> rat \<times> board_session" where
  "authorize_human pk ttl now b =
     (let pub = strip pk; till = now + ttl
      in (till, if pub \<noteq> [] then b\<lparr>human_keys := dict_set pub till (human_keys b)\<rparr> else b))"

definition active_human_keys :: "rat \<Rightarrow> board_session \<Rightarrow> string list" where
  "active_human_keys now b = map fst (filter (\<lambda>(pub, till). till > now) (human_keys b))"

definition revoke_human_keys :: "board_session \<Rightarrow> board_session" where
  "revoke_human_keys b = b\<lparr>human_keys := []\<rparr>"

definition session_view :: "board_session \<Rightarrow> (string \<times> jval) list" where
  "session_view b = [
     (''session_id'', JStr (session_id b)),
     (''kind'', JStr (s_kind b)),
     (''owner'', jopt JStr (s_owner b)),
     (''job_id'', s_job_id b),
     (''device_type'', jopt JStr (s_device_type b)),
     (''status'', JStr (s_status b)),
     (''reverse_port'', JInt (reverse_port b))]"

definition key_matches :: "(string \<Rightarrow> string option) \<Rightarrow> string \<Rightarrow> string \<Rightarrow> bool" where
  "key_matches imp key authorized_pub = (case imp authorized_pub of None \<Rightarrow> False | Some k \<Rightarrow> key = k)"

section \<open>The state of the gateway\<close>

text \<open>
  Sessions are shared and mutable: \<open>sess\<close> holds every one made, the registry \<open>reg\<close> maps an
  identifier to its session, and a connection keeps the session it authenticated for even
  when the registry drops it.
\<close>

record ssh_conn =
  c_username :: "string option"
  c_allowed :: bool
  c_session :: "nat option"
  c_role :: "string option"

record gw =
  sess :: "board_session list"
  reg :: "(string, nat) dict"
  started :: bool

definition sess_at :: "gw \<Rightarrow> nat \<Rightarrow> board_session" where
  "sess_at g r = sess g ! r"

definition set_sess :: "nat \<Rightarrow> board_session \<Rightarrow> gw \<Rightarrow> gw" where
  "set_sess r b g = g\<lparr>sess := (sess g)[r := b]\<rparr>"

definition new_session :: "string \<Rightarrow> string \<Rightarrow> string \<Rightarrow> int \<Rightarrow> rat \<Rightarrow> string option \<Rightarrow> string \<Rightarrow> string option \<Rightarrow>
    board_session" where
  "new_session priv pub hex prt now dt kd own =
     \<lparr>session_id = ''s-'' @ take 12 hex, private_key = priv, public_key = pub, reverse_port = prt,
      s_kind = kd, container_user = ''root'', s_device_type = dt, s_job_id = JNull, s_owner = own,
      console_session_id = None, console_target = None, s_status = ''pending'', s_created = now,
      human_keys = [], tunnel_up = False\<rparr>"

text \<open>What a new session draws: a key pair, 32 hexadecimal digits, a free port, the time.\<close>

record session_draw =
  dr_private :: string
  dr_public :: string
  dr_hex :: string
  dr_port :: int
  dr_now :: rat

definition create_session :: "session_draw \<Rightarrow> string option \<Rightarrow> string \<Rightarrow> string option \<Rightarrow> gw \<Rightarrow> nat \<times> gw" where
  "create_session d dt kd own g =
     (let b = new_session (dr_private d) (dr_public d) (dr_hex d) (dr_port d) (dr_now d) dt kd own
      in (length (sess g), g\<lparr>sess := sess g @ [b], reg := dict_set (session_id b) (length (sess g)) (reg g)\<rparr>))"

definition get_session :: "string \<Rightarrow> gw \<Rightarrow> nat option" where
  "get_session i g = dict_get (reg g) i"

definition remove_session :: "string \<Rightarrow> gw \<Rightarrow> nat option \<times> gw" where
  "remove_session i g = (dict_get (reg g) i, g\<lparr>reg := dict_pop i (reg g)\<rparr>)"

definition list_sessions :: "gw \<Rightarrow> nat list" where
  "list_sessions g = map snd (reg g)"

section \<open>The callbacks of one SSH connection\<close>

definition new_conn :: ssh_conn where
  "new_conn = \<lparr>c_username = None, c_allowed = True, c_session = None, c_role = None\<rparr>"

text \<open>The second component says whether the connection is closed at once.\<close>

definition connection_made :: "ipnet list \<Rightarrow> string option \<Rightarrow> ssh_conn \<Rightarrow> ssh_conn \<times> bool" where
  "connection_made nets peer c =
     (let ip = (case peer of Some p \<Rightarrow> p | None \<Rightarrow> []) in
      if is_loopback ip then (c\<lparr>c_allowed := True\<rparr>, False)
      else if ip_allowed ip nets then (c\<lparr>c_allowed := True\<rparr>, False)
      else (c\<lparr>c_allowed := False\<rparr>, True))"

definition begin_auth :: "string \<Rightarrow> ssh_conn \<Rightarrow> bool \<times> ssh_conn" where
  "begin_auth user c = (True, c\<lparr>c_username := Some user\<rparr>)"

definition public_key_auth_supported :: bool where
  "public_key_auth_supported = True"

definition validate_public_key :: "(string \<Rightarrow> string option) \<Rightarrow> rat \<Rightarrow> string \<Rightarrow> string \<Rightarrow> gw \<Rightarrow> ssh_conn \<Rightarrow>
    bool \<times> ssh_conn" where
  "validate_public_key imp now user key g c =
     (if \<not> c_allowed c then (False, c)
      else case get_session user g of
        None \<Rightarrow> (False, c)
      | Some r \<Rightarrow>
         (let c1 = c\<lparr>c_session := Some r\<rparr> in
          if key_matches imp key (public_key (sess_at g r)) then (True, c1\<lparr>c_role := Some ''agent''\<rparr>)
          else if list_ex (key_matches imp key) (active_human_keys now (sess_at g r))
          then (True, c1\<lparr>c_role := Some ''human''\<rparr>)
          else (False, c1)))"

definition loopback_hosts :: "string list" where
  "loopback_hosts = [''127.0.0.1'', ''localhost'', ''::1'']"

definition server_requested :: "string \<Rightarrow> int \<Rightarrow> ssh_conn \<Rightarrow> gw \<Rightarrow> bool \<times> gw" where
  "server_requested listen_host listen_port c g = (case c_session c of
      None \<Rightarrow> (False, g)
    | Some r \<Rightarrow>
       (if \<not> c_allowed c \<or> c_role c \<noteq> Some ''agent'' then (False, g)
        else if listen_port \<noteq> reverse_port (sess_at g r) then (False, g)
        else if listen_host \<notin> set loopback_hosts then (False, g)
        else (True, set_sess r ((sess_at g r)\<lparr>s_status := ''connected'', tunnel_up := True\<rparr>) g)))"

definition connection_requested :: "string \<Rightarrow> int \<Rightarrow> ssh_conn \<Rightarrow> gw \<Rightarrow> bool" where
  "connection_requested dest_host dest_port c g = (case c_session c of
      None \<Rightarrow> False
    | Some r \<Rightarrow> c_allowed c \<and> c_role c = Some ''human'' \<and>
        dest_host \<in> set loopback_hosts \<and> dest_port = reverse_port (sess_at g r))"

definition session_requested :: bool where
  "session_requested = False"

definition unix_server_requested :: "string \<Rightarrow> bool" where
  "unix_server_requested listen_path = False"

definition unix_connection_requested :: "string \<Rightarrow> string \<Rightarrow> int \<Rightarrow> bool" where
  "unix_connection_requested dest_path orig_host orig_port = False"

section \<open>The WebSocket bridge\<close>

datatype bridge = BridgeClose int | Bridged

definition bridge_websocket :: "ipnet list \<Rightarrow> headers option \<Rightarrow> bool \<Rightarrow> bridge" where
  "bridge_websocket nets hdrs listener_reachable =
     (if \<not> ip_allowed (forwarded_client_ip hdrs) nets then BridgeClose 4403
      else if \<not> listener_reachable then BridgeClose 1011
      else Bridged)"

text \<open>
  One direction of the relay: what is received, up to the first failure or (from the TCP
  side) the first empty read, is sent on in order, up to the first send that fails.
\<close>

datatype recv = Got "char list" | Failed

fun ws_to_tcp :: "recv list \<Rightarrow> char list" where
  "ws_to_tcp [] = []"
| "ws_to_tcp (Failed # ms) = []"
| "ws_to_tcp (Got d # ms) = d @ ws_to_tcp ms"

fun tcp_to_ws :: "recv list \<Rightarrow> char list list" where
  "tcp_to_ws [] = []"
| "tcp_to_ws (Failed # ms) = []"
| "tcp_to_ws (Got d # ms) = (if d = [] then [] else d # tcp_to_ws ms)"

section \<open>Operations of the gateway\<close>

text \<open>
  \<^verbatim>\<open>ensure_started\<close>: how starting the listener ends (in time or not, with which error)
  is given; a gateway that runs is not started again.
\<close>

datatype launch = Listening | LaunchError string | LaunchTimeout

definition ensure_started :: "launch \<Rightarrow> (gw, exc, unit) act" where
  "ensure_started l = (\<lambda>g.
     if started g then (Inr (), g)
     else (case l of
         LaunchTimeout \<Rightarrow> (Inl (GatewayError ''gateway SSH server did not start in time''), g)
       | LaunchError m \<Rightarrow> (Inl (GatewayError (''gateway SSH server failed to start: '' @ m)), g)
       | Listening \<Rightarrow> (Inr (), g\<lparr>started := True\<rparr>)))"

definition stop_gateway :: "gw \<Rightarrow> gw" where
  "stop_gateway g = g\<lparr>started := False\<rparr>"

definition unknown_session :: "string \<Rightarrow> exc" where
  "unknown_session i = GatewayError (''unknown session '' @ i)"

record human_access =
  ha_session_id :: string
  ha_private :: string
  ha_public :: string
  ha_host :: string
  ha_ws_url :: string
  ha_port :: int
  ha_kind :: string
  ha_expires_in :: int
  ha_expires_at :: rat

definition or_str :: "string option \<Rightarrow> string \<Rightarrow> string" where
  "or_str a b = (case a of Some x \<Rightarrow> if x \<noteq> [] then x else b | None \<Rightarrow> b)"

definition int_of_rat :: "rat \<Rightarrow> int" where
  "int_of_rat x = (if 0 \<le> x then \<lfloor>x\<rfloor> else \<lceil>x\<rceil>)"

definition attach_human :: "config \<Rightarrow> string \<Rightarrow> string \<times> string \<Rightarrow> rat \<Rightarrow> (gw, exc, human_access) act" where
  "attach_human cfg i kp now = (\<lambda>g. case get_session i g of
      None \<Rightarrow> (Inl (unknown_session i), g)
    | Some r \<Rightarrow>
       (case authorize_human (snd kp) (cf_human_ttl cfg) now (sess_at g r) of (till, b) \<Rightarrow>
         (Inr \<lparr>ha_session_id = i, ha_private = fst kp, ha_public = snd kp,
               ha_host = or_str (cf_advertise_host cfg) (cf_host cfg),
               ha_ws_url = cf_ws_url cfg, ha_port = reverse_port b, ha_kind = s_kind b,
               ha_expires_in = int_of_rat (cf_human_ttl cfg), ha_expires_at = till\<rparr>,
          set_sess r b g)))"

text \<open>
  The control line that tells a console proxy which endpoint to relay, and its push over
  the session's loopback port. The push is what reaches the network: a port and bytes;
  whether the port takes them is given.
\<close>

definition setport_prefix :: "char list" where
  "setport_prefix = CHR 0x00 # ''LAVA-MCP-SETPORT ''"

definition setport_line :: "string \<Rightarrow> string \<Rightarrow> char list" where
  "setport_line host prt = setport_prefix @ encode (host @ '' '' @ prt @ [CHR 0x0A])"

type_synonym net_write = "int \<times> char list"

definition set_console_target :: "bool \<Rightarrow> string \<Rightarrow> string \<Rightarrow> string \<Rightarrow> (gw, exc, bool \<times> net_write list) act" where
  "set_console_target delivered i host prt = (\<lambda>g. case get_session i g of
      None \<Rightarrow> (Inl (unknown_session i), g)
    | Some r \<Rightarrow>
       (let b = (sess_at g r)\<lparr>console_target := Some (host, prt)\<rparr>; g1 = set_sess r b g in
        if s_status b \<noteq> ''connected'' \<or> \<not> started g then (Inr (False, []), g1)
        else if delivered then (Inr (True, [(reverse_port b, setport_line host prt)]), g1)
        else (Inr (False, []), g1)))"

text \<open>
  Running a command: the connection made to the session's port, with its user and key, and
  what comes back, are given (the errors that connecting or running may end in, as the text
  the library gives them).
\<close>

record run_result =
  rr_exit :: "int option"
  rr_stdout :: string
  rr_stderr :: string

record ssh_run =
  sr_port :: int
  sr_user :: string
  sr_key :: string
  sr_command :: string
  sr_timeout :: rat

definition gw_run :: "(ssh_run \<Rightarrow> string + run_result) \<Rightarrow> string \<Rightarrow> string \<Rightarrow> rat \<Rightarrow> gw \<Rightarrow> exc + run_result" where
  "gw_run dial i command timeout g =
     (if \<not> started g then Inl (GatewayError ''gateway is not started'')
      else case get_session i g of
        None \<Rightarrow> Inl (unknown_session i)
      | Some r \<Rightarrow>
         (let b = sess_at g r in
          if s_status b \<noteq> ''connected''
          then Inl (GatewayError (''session '' @ i @ '' is not connected yet''))
          else (case dial \<lparr>sr_port = reverse_port b, sr_user = container_user b,
                  sr_key = private_key b, sr_command = command, sr_timeout = timeout\<rparr> of
              Inl m \<Rightarrow> Inl (GatewayError (''command failed in session '' @ i @ '': '' @ m))
            | Inr res \<Rightarrow> Inr res)))"

end
