(* ===== verification/GatewaySys.thy ===== *)
theory GatewaySys
  imports Gateway
begin

text \<open>
  The gateway as a state machine: any number of SSH connections and the tools' operations
  on sessions, interleaved in any order. What the SSH library guarantees is the
  environment: it asks for a forward or a tunnel only on a connection whose last offered
  key was accepted. The invariant ties every permission a connection has to a key that was
  offered on it and to the session that key belongs to.
\<close>

section \<open>The machine\<close>

record conn_state =
  cs_conn :: ssh_conn
  cs_auth :: bool

record ssh_sys =
  y_gw :: gw
  y_conns :: "conn_state list"

datatype ssh_event =
    Opened "string option"
  | AuthBegun nat string
  | KeyOffered nat rat string string
  | ForwardAsked nat string int
  | TunnelAsked nat string int
  | SessionMade session_draw "string option" string "string option"
  | HumanAttached string "string \<times> string" rat
  | TargetSet bool string string string
  | JobNoted nat jval "string option"
  | SessionClosed string

record gw_params =
  gp_cfg :: config
  gp_nets :: "ipnet list"
  gp_imp :: "string \<Rightarrow> string option"

definition close_session :: "string \<Rightarrow> gw \<Rightarrow> gw" where
  "close_session i g = (case remove_session i g of
      (None, g1) \<Rightarrow> g1
    | (Some r, g1) \<Rightarrow> set_sess r ((revoke_human_keys (sess_at g1 r))\<lparr>s_status := ''closed''\<rparr>) g1)"

definition set_conn :: "nat \<Rightarrow> conn_state \<Rightarrow> ssh_sys \<Rightarrow> ssh_sys" where
  "set_conn k c y = y\<lparr>y_conns := (y_conns y)[k := c]\<rparr>"

fun gw_step :: "gw_params \<Rightarrow> ssh_event \<Rightarrow> ssh_sys \<Rightarrow> ssh_sys" where
  "gw_step P (Opened peer) y =
     y\<lparr>y_conns := y_conns y @ [\<lparr>cs_conn = fst (connection_made (gp_nets P) peer new_conn), cs_auth = False\<rparr>]\<rparr>"
| "gw_step P (AuthBegun k user) y =
     set_conn k \<lparr>cs_conn = snd (begin_auth user (cs_conn (y_conns y ! k))), cs_auth = False\<rparr> y"
| "gw_step P (KeyOffered k now user key) y =
     (case validate_public_key (gp_imp P) now user key (y_gw y) (cs_conn (y_conns y ! k)) of
        (ok, c) \<Rightarrow> set_conn k \<lparr>cs_conn = c, cs_auth = ok\<rparr> y)"
| "gw_step P (ForwardAsked k host prt) y =
     y\<lparr>y_gw := snd (server_requested host prt (cs_conn (y_conns y ! k)) (y_gw y))\<rparr>"
| "gw_step P (TunnelAsked k host prt) y = y"
| "gw_step P (SessionMade d dt kd own) y = y\<lparr>y_gw := snd (create_session d dt kd own (y_gw y))\<rparr>"
| "gw_step P (HumanAttached i kp now) y = y\<lparr>y_gw := snd (attach_human (gp_cfg P) i kp now (y_gw y))\<rparr>"
| "gw_step P (TargetSet ok i host prt) y = y\<lparr>y_gw := snd (set_console_target ok i host prt (y_gw y))\<rparr>"
| "gw_step P (JobNoted r j con) y =
     y\<lparr>y_gw := set_sess r ((sess_at (y_gw y) r)\<lparr>s_job_id := j, console_session_id := con\<rparr>) (y_gw y)\<rparr>"
| "gw_step P (SessionClosed i) y = y\<lparr>y_gw := close_session i (y_gw y)\<rparr>"

definition gw_start :: ssh_sys where
  "gw_start = \<lparr>y_gw = \<lparr>sess = [], reg = [], started = True\<rparr>, y_conns = []\<rparr>"

text \<open>The library asks about connections it has, and for forwards and tunnels after authentication.\<close>

fun gw_env :: "ssh_event \<Rightarrow> ssh_sys \<Rightarrow> bool" where
  "gw_env (AuthBegun k user) y = (k < length (y_conns y))"
| "gw_env (KeyOffered k now user key) y = (k < length (y_conns y))"
| "gw_env (ForwardAsked k host prt) y = (k < length (y_conns y) \<and> cs_auth (y_conns y ! k))"
| "gw_env (TunnelAsked k host prt) y = (k < length (y_conns y) \<and> cs_auth (y_conns y ! k))"
| "gw_env (JobNoted r j con) y = (r < length (sess (y_gw y)))"
| "gw_env _ y = True"

section \<open>The invariant\<close>

text \<open>The peers that connected, in the order of the connections.\<close>

definition peers :: "ssh_event list \<Rightarrow> string option list" where
  "peers es = concat (map (\<lambda>e. case e of Opened p \<Rightarrow> [p] | _ \<Rightarrow> []) es)"

definition peer_ok :: "gw_params \<Rightarrow> string option \<Rightarrow> bool" where
  "peer_ok P p \<longleftrightarrow> (let ip = (case p of Some q \<Rightarrow> q | None \<Rightarrow> []) in is_loopback ip \<or> ip_allowed ip (gp_nets P))"

text \<open>A key that opens a session at a time: the session's own, or one a tool handed out for it.\<close>

definition agent_key :: "gw_params \<Rightarrow> board_session \<Rightarrow> string \<Rightarrow> bool" where
  "agent_key P b key \<longleftrightarrow> key_matches (gp_imp P) key (public_key b)"

definition human_key :: "gw_params \<Rightarrow> ssh_event list \<Rightarrow> board_session \<Rightarrow> rat \<Rightarrow> string \<Rightarrow> bool" where
  "human_key P es b now key \<longleftrightarrow> (\<exists>kp t. HumanAttached (session_id b) kp t \<in> set es \<and>
     key_matches (gp_imp P) key (strip (snd kp)) \<and> now < t + cf_human_ttl (gp_cfg P))"

definition conn_ok :: "gw_params \<Rightarrow> ssh_event list \<Rightarrow> gw \<Rightarrow> nat \<Rightarrow> conn_state \<Rightarrow> bool" where
  "conn_ok P es g k s \<longleftrightarrow> (cs_auth s \<longrightarrow>
     (\<exists>r now key. c_session (cs_conn s) = Some r \<and> r < length (sess g) \<and>
        KeyOffered k now (session_id (sess_at g r)) key \<in> set es \<and>
        (c_role (cs_conn s) = Some ''agent'' \<and> agent_key P (sess_at g r) key \<or>
         c_role (cs_conn s) = Some ''human'' \<and> human_key P es (sess_at g r) now key)))"

definition sess_ok :: "gw_params \<Rightarrow> ssh_event list \<Rightarrow> board_session \<Rightarrow> bool" where
  "sess_ok P es b \<longleftrightarrow>
     (\<forall>(pub, till) \<in> set (human_keys b). \<exists>kp t. HumanAttached (session_id b) kp t \<in> set es \<and>
        pub = strip (snd kp) \<and> till = t + cf_human_ttl (gp_cfg P)) \<and>
     (tunnel_up b \<or> s_status b = ''connected'' \<longrightarrow>
       (\<exists>k host now key. ForwardAsked k host (reverse_port b) \<in> set es \<and> host \<in> set loopback_hosts \<and>
          KeyOffered k now (session_id b) key \<in> set es \<and> agent_key P b key))"

definition gw_inv :: "gw_params \<Rightarrow> ssh_event list \<times> ssh_sys \<Rightarrow> bool" where
  "gw_inv P = (\<lambda>(es, y).
     length (y_conns y) = length (peers es) \<and>
     (\<forall>k < length (y_conns y). c_allowed (cs_conn (y_conns y ! k)) = peer_ok P (peers es ! k) \<and>
        conn_ok P es (y_gw y) k (y_conns y ! k)) \<and>
     (\<forall>r < length (sess (y_gw y)). sess_ok P es (sess_at (y_gw y) r)) \<and>
     (\<forall>i r. dict_get (reg (y_gw y)) i = Some r \<longrightarrow>
        r < length (sess (y_gw y)) \<and> session_id (sess_at (y_gw y) r) = i))"

text \<open>The machine with its history.\<close>

definition traced :: "gw_params \<Rightarrow> ssh_event \<Rightarrow> ssh_event list \<times> ssh_sys \<Rightarrow> ssh_event list \<times> ssh_sys" where
  "traced P e = (\<lambda>(es, y). (es @ [e], gw_step P e y))"

definition traced_env :: "ssh_event \<Rightarrow> ssh_event list \<times> ssh_sys \<Rightarrow> bool" where
  "traced_env e = (\<lambda>(es, y). gw_env e y)"

lemma fold_traced: "fold (traced P) es (h, y) = (h @ es, fold (gw_step P) es y)"
  by (induction es arbitrary: h y) (simp_all add: traced_def)

lemma valid_traced: "valid_run traced_env (traced P) es (h, y) = valid_run gw_env (gw_step P) es y"
  by (induction es arbitrary: h y) (simp_all add: traced_def traced_env_def)

section \<open>What never changes\<close>

text \<open>
  A step from \<open>g\<close> to \<open>h\<close> that makes no session disappear and changes no identifier,
  key or port of one.
\<close>

definition same_identity :: "board_session \<Rightarrow> board_session \<Rightarrow> bool" where
  "same_identity a b \<longleftrightarrow> session_id a = session_id b \<and> public_key a = public_key b \<and>
     private_key a = private_key b \<and> reverse_port a = reverse_port b"

definition gw_extends :: "gw \<Rightarrow> gw \<Rightarrow> bool" where
  "gw_extends g h \<longleftrightarrow> length (sess g) \<le> length (sess h) \<and>
     (\<forall>r < length (sess g). same_identity (sess_at g r) (sess_at h r))"

lemma same_identity_refl [simp]: "same_identity b b"
  by (simp add: same_identity_def)

lemma gw_extends_refl [simp]: "gw_extends g g"
  by (simp add: gw_extends_def)

lemma sess_at_set [simp]:
  "r < length (sess g) \<Longrightarrow> sess_at (set_sess r b g) k = (if k = r then b else sess_at g k)"
  "length (sess (set_sess r b g)) = length (sess g)" "reg (set_sess r b g) = reg g"
  "started (set_sess r b g) = started g"
  by (simp_all add: sess_at_def set_sess_def)

lemma set_sess_oob: "\<not> r < length (sess g) \<Longrightarrow> set_sess r b g = g"
  by (cases g) (simp add: set_sess_def list_update_beyond not_less)

lemma extends_set: "same_identity (sess_at g r) b \<Longrightarrow> gw_extends g (set_sess r b g)"
  by (cases "r < length (sess g)") (auto simp: gw_extends_def set_sess_oob)

lemma sess_at_append [simp]:
  "k < length (sess g) \<Longrightarrow> sess_at (g\<lparr>sess := sess g @ [b], reg := d\<rparr>) k = sess_at g k"
  "sess_at (g\<lparr>sess := sess g @ [b], reg := d\<rparr>) (length (sess g)) = b"
  by (simp_all add: sess_at_def nth_append)

lemma agent_key_identity: "same_identity a b \<Longrightarrow> agent_key P a key = agent_key P b key"
  by (simp add: same_identity_def agent_key_def)

lemma human_key_mono:
  "same_identity a b \<Longrightarrow> set es \<subseteq> set fs \<Longrightarrow> human_key P es a now key \<Longrightarrow> human_key P fs b now key"
  by (auto simp: same_identity_def human_key_def)

lemma conn_ok_mono:
  assumes "conn_ok P es g k s" "gw_extends g h" "set es \<subseteq> set fs"
  shows "conn_ok P fs h k s"
  unfolding conn_ok_def
proof
  assume "cs_auth s"
  then obtain r now key where r: "c_session (cs_conn s) = Some r" "r < length (sess g)"
      "KeyOffered k now (session_id (sess_at g r)) key \<in> set es"
      "c_role (cs_conn s) = Some ''agent'' \<and> agent_key P (sess_at g r) key \<or>
       c_role (cs_conn s) = Some ''human'' \<and> human_key P es (sess_at g r) now key"
    using assms(1) by (auto simp: conn_ok_def)
  have id: "same_identity (sess_at g r) (sess_at h r)" and len: "r < length (sess h)"
    using assms(2) r(2) by (auto simp: gw_extends_def)
  then have "session_id (sess_at h r) = session_id (sess_at g r)" by (simp add: same_identity_def)
  then show "\<exists>r now key. c_session (cs_conn s) = Some r \<and> r < length (sess h) \<and>
      KeyOffered k now (session_id (sess_at h r)) key \<in> set fs \<and>
      (c_role (cs_conn s) = Some ''agent'' \<and> agent_key P (sess_at h r) key \<or>
       c_role (cs_conn s) = Some ''human'' \<and> human_key P fs (sess_at h r) now key)"
    using r len assms(3) agent_key_identity [OF id] human_key_mono [OF id assms(3)] by fastforce
qed

lemma sess_ok_mono:
  assumes "sess_ok P es a" "same_identity a b" "set es \<subseteq> set fs"
    and "set (human_keys b) \<subseteq> set (human_keys a)"
    and "tunnel_up b \<or> s_status b = ''connected'' \<Longrightarrow> tunnel_up a \<or> s_status a = ''connected''"
  shows "sess_ok P fs b"
proof -
  have e: "session_id b = session_id a" "reverse_port b = reverse_port a"
    using assms(2) by (simp_all add: same_identity_def)
  have keys: "\<forall>(pub, till) \<in> set (human_keys a). \<exists>kp t. HumanAttached (session_id a) kp t \<in> set es \<and>
        pub = strip (snd kp) \<and> till = t + cf_human_ttl (gp_cfg P)"
    using assms(1) by (simp add: sess_ok_def)
  have up: "tunnel_up a \<or> s_status a = ''connected'' \<Longrightarrow>
       (\<exists>k host now key. ForwardAsked k host (reverse_port a) \<in> set es \<and> host \<in> set loopback_hosts \<and>
          KeyOffered k now (session_id a) key \<in> set es \<and> agent_key P a key)"
    using assms(1) by (simp add: sess_ok_def)
  show ?thesis
    unfolding sess_ok_def e
  proof (intro conjI impI ballI)
    fix x assume "x \<in> set (human_keys b)"
    then have "x \<in> set (human_keys a)" using assms(4) by blast
    with keys show "case x of (pub, till) \<Rightarrow> \<exists>kp t. HumanAttached (session_id a) kp t \<in> set fs \<and>
        pub = strip (snd kp) \<and> till = t + cf_human_ttl (gp_cfg P)"
      using assms(3) by fast
  next
    assume "tunnel_up b \<or> s_status b = ''connected''"
    from up [OF assms(5) [OF this]]
    show "\<exists>k host now key. ForwardAsked k host (reverse_port a) \<in> set fs \<and> host \<in> set loopback_hosts \<and>
          KeyOffered k now (session_id a) key \<in> set fs \<and> agent_key P b key"
      using assms(3) agent_key_identity [OF assms(2)] by blast
  qed
qed

section \<open>Preservation\<close>

lemma sess_ok_append: "sess_ok P es b \<Longrightarrow> sess_ok P (es @ fs) b"
  by (rule sess_ok_mono) auto

lemma peers_append [simp]: "peers (es @ fs) = peers es @ peers fs"
  by (simp add: peers_def)

lemma gw_inv_reg:
  assumes "gw_inv P (es, y)" "dict_get (reg (y_gw y)) i = Some r"
  shows "r < length (sess (y_gw y))" "session_id (sess_at (y_gw y) r) = i"
    "sess_ok P es (sess_at (y_gw y) r)"
  using assms by (auto simp: gw_inv_def)

lemma gw_inv_conn:
  assumes "gw_inv P (es, y)"
  shows "length (y_conns y) = length (peers es)"
    and "k < length (y_conns y) \<Longrightarrow> c_allowed (cs_conn (y_conns y ! k)) = peer_ok P (peers es ! k)"
    and "k < length (y_conns y) \<Longrightarrow> conn_ok P es (y_gw y) k (y_conns y ! k)"
    and "r < length (sess (y_gw y)) \<Longrightarrow> sess_ok P es (sess_at (y_gw y) r)"
  using assms by (auto simp: gw_inv_def)

text \<open>
  Most events change sessions only: the invariant follows when the registry still points to
  sessions of that name, identities are kept, and every session is still accounted for.
\<close>

lemma gw_inv_sessions:
  assumes inv: "gw_inv P (es, y)" and ext: "gw_extends (y_gw y) h" and pe: "peers [e] = []"
    and reg: "\<And>i r. dict_get (reg h) i = Some r \<Longrightarrow> r < length (sess h) \<and> session_id (sess_at h r) = i"
    and ok: "\<And>r. r < length (sess h) \<Longrightarrow> sess_ok P (es @ [e]) (sess_at h r)"
  shows "gw_inv P (es @ [e], y\<lparr>y_gw := h\<rparr>)"
proof -
  have "conn_ok P (es @ [e]) h k (y_conns y ! k)" if "k < length (y_conns y)" for k
    by (rule conn_ok_mono [OF gw_inv_conn(3) [OF inv that] ext]) auto
  then show ?thesis using gw_inv_conn(1,2) [OF inv] pe reg ok by (auto simp: gw_inv_def)
qed

lemma gw_inv_set_sess:
  assumes inv: "gw_inv P (es, y)" and pe: "peers [e] = []" and r: "r < length (sess (y_gw y))"
    and id: "same_identity (sess_at (y_gw y) r) b" and ok: "sess_ok P (es @ [e]) b"
    and d: "\<And>i q. dict_get d i = Some q \<Longrightarrow> dict_get (reg (y_gw y)) i = Some q"
  shows "gw_inv P (es @ [e], y\<lparr>y_gw := (set_sess r b (y_gw y))\<lparr>reg := d\<rparr>\<rparr>)"
proof (rule gw_inv_sessions [OF inv _ pe])
  have at: "sess_at ((set_sess r b (y_gw y))\<lparr>reg := d\<rparr>) k = (if k = r then b else sess_at (y_gw y) k)" for k
    using r by (simp add: sess_at_def set_sess_def)
  have len: "length (sess ((set_sess r b (y_gw y))\<lparr>reg := d\<rparr>)) = length (sess (y_gw y))" by simp
  show "gw_extends (y_gw y) ((set_sess r b (y_gw y))\<lparr>reg := d\<rparr>)"
    using id by (auto simp only: gw_extends_def at len same_identity_refl order_refl split: if_split)
  show "q < length (sess ((set_sess r b (y_gw y))\<lparr>reg := d\<rparr>)) \<and>
      session_id (sess_at ((set_sess r b (y_gw y))\<lparr>reg := d\<rparr>) q) = i"
    if "dict_get (reg ((set_sess r b (y_gw y))\<lparr>reg := d\<rparr>)) i = Some q" for i q
    using gw_inv_reg(1,2) [OF inv d, of i q] that id by (auto simp only: at len same_identity_def) auto
  show "sess_ok P (es @ [e]) (sess_at ((set_sess r b (y_gw y))\<lparr>reg := d\<rparr>) q)"
    if "q < length (sess ((set_sess r b (y_gw y))\<lparr>reg := d\<rparr>))" for q
    using that gw_inv_conn(4) [OF inv, of q] ok by (auto simp only: at len intro: sess_ok_append split: if_split)
qed

lemma set_sess_reg: "(set_sess r b g)\<lparr>reg := reg g\<rparr> = set_sess r b g"
  by (simp add: set_sess_def)

lemma gw_inv_same:
  assumes "gw_inv P (es, y)" "peers [e] = []"
  shows "gw_inv P (es @ [e], y)"
proof -
  have "gw_inv P (es @ [e], y\<lparr>y_gw := y_gw y\<rparr>)"
    using gw_inv_reg(1,2) [OF assms(1)] gw_inv_conn(4) [OF assms(1)]
    by (intro gw_inv_sessions [OF assms(1) gw_extends_refl assms(2)]) (auto intro: sess_ok_append)
  then show ?thesis by simp
qed

lemma gw_inv_conns:
  assumes inv: "gw_inv P (es, y)" and pe: "peers [e] = []" and k: "k < length (y_conns y)"
    and al: "c_allowed (cs_conn s) = c_allowed (cs_conn (y_conns y ! k))"
    and ok: "conn_ok P (es @ [e]) (y_gw y) k s"
  shows "gw_inv P (es @ [e], set_conn k s y)"
proof -
  have i2: "gw_inv P (es @ [e], y)" by (rule gw_inv_same [OF inv pe])
  have "conn_ok P (es @ [e]) (y_gw y) j ((y_conns y)[k := s] ! j)" if "j < length (y_conns y)" for j
    using gw_inv_conn(3) [OF i2 that] ok that by (cases "j = k") simp_all
  moreover have "c_allowed (cs_conn ((y_conns y)[k := s] ! j)) = peer_ok P (peers (es @ [e]) ! j)"
    if "j < length (y_conns y)" for j
    using gw_inv_conn(2) [OF i2 that] al that by (cases "j = k") simp_all
  ultimately show ?thesis
    using gw_inv_conn(1,4) [OF i2] gw_inv_reg(1,2) [OF i2] by (auto simp: gw_inv_def set_conn_def)
qed

lemma validate_ok:
  assumes v: "validate_public_key imp now user key g c = (ok, d)"
  shows "c_allowed d = c_allowed c \<and>
    (ok \<longrightarrow> (\<exists>r. get_session user g = Some r \<and> c_session d = Some r \<and>
       (c_role d = Some ''agent'' \<and> key_matches imp key (public_key (sess_at g r)) \<or>
        c_role d = Some ''human'' \<and>
          (\<exists>pub till. (pub, till) \<in> set (human_keys (sess_at g r)) \<and> now < till \<and> key_matches imp key pub))))"
  using v by (auto simp: validate_public_key_def active_human_keys_def list_ex_iff Let_def
      split: if_splits option.splits)

lemma inv_key_offered:
  assumes inv: "gw_inv P (es, y)" and k: "k < length (y_conns y)"
  shows "gw_inv P (es @ [KeyOffered k now user key], gw_step P (KeyOffered k now user key) y)"
proof -
  let ?e = "KeyOffered k now user key"
  obtain ok c where v: "validate_public_key (gp_imp P) now user key (y_gw y) (cs_conn (y_conns y ! k)) = (ok, c)"
    by fastforce
  note vo = validate_ok [OF v]
  have "conn_ok P (es @ [?e]) (y_gw y) k \<lparr>cs_conn = c, cs_auth = ok\<rparr>"
  proof (cases ok)
    case True
    then obtain r where r: "dict_get (reg (y_gw y)) user = Some r" "c_session c = Some r"
      and role: "c_role c = Some ''agent'' \<and> key_matches (gp_imp P) key (public_key (sess_at (y_gw y) r)) \<or>
        c_role c = Some ''human'' \<and>
          (\<exists>pub till. (pub, till) \<in> set (human_keys (sess_at (y_gw y) r)) \<and> now < till \<and> key_matches (gp_imp P) key pub)"
      using vo by (auto simp: get_session_def)
    note rg = gw_inv_reg [OF inv r(1)]
    have "human_key P (es @ [?e]) (sess_at (y_gw y) r) now key"
      if "(pub, till) \<in> set (human_keys (sess_at (y_gw y) r))" "now < till" "key_matches (gp_imp P) key pub" for pub till
      using rg(3) that by (fastforce simp: sess_ok_def human_key_def)
    then have "c_role c = Some ''agent'' \<and> agent_key P (sess_at (y_gw y) r) key \<or>
        c_role c = Some ''human'' \<and> human_key P (es @ [?e]) (sess_at (y_gw y) r) now key"
      using role by (auto simp: agent_key_def)
    moreover have "KeyOffered k now (session_id (sess_at (y_gw y) r)) key \<in> set (es @ [?e])" using rg(2) by simp
    ultimately show ?thesis using r(2) rg(1) unfolding conn_ok_def by (metis conn_state.select_convs(1))
  qed (simp add: conn_ok_def)
  then have "gw_inv P (es @ [?e], set_conn k \<lparr>cs_conn = c, cs_auth = ok\<rparr> y)"
    using vo by (intro gw_inv_conns [OF inv _ k]) (simp_all add: peers_def)
  then show ?thesis using v by simp
qed

lemma inv_forward_asked:
  assumes inv: "gw_inv P (es, y)" and k: "k < length (y_conns y)" and au: "cs_auth (y_conns y ! k)"
  shows "gw_inv P (es @ [ForwardAsked k host prt], gw_step P (ForwardAsked k host prt) y)"
proof -
  let ?e = "ForwardAsked k host prt" and ?c = "cs_conn (y_conns y ! k)"
  obtain r now key where r: "c_session ?c = Some r" "r < length (sess (y_gw y))"
      "KeyOffered k now (session_id (sess_at (y_gw y) r)) key \<in> set es"
      "c_role ?c = Some ''agent'' \<Longrightarrow> agent_key P (sess_at (y_gw y) r) key"
    using gw_inv_conn(3) [OF inv k] au by (auto simp: conn_ok_def)
  have pe: "peers [?e] = []" by (simp add: peers_def)
  show ?thesis
  proof (cases "fst (server_requested host prt ?c (y_gw y))")
    case False
    then have "gw_step P ?e y = y" by (auto simp: server_requested_def r(1) split: if_splits)
    then show ?thesis using gw_inv_same [OF inv pe] by simp
  next
    case True
    let ?b = "(sess_at (y_gw y) r)\<lparr>s_status := ''connected'', tunnel_up := True\<rparr>"
    from True have g: "c_role ?c = Some ''agent''" "prt = reverse_port (sess_at (y_gw y) r)" "host \<in> set loopback_hosts"
      "snd (server_requested host prt ?c (y_gw y)) = set_sess r ?b (y_gw y)"
      by (auto simp: server_requested_def r(1) split: if_splits)
    have id: "same_identity (sess_at (y_gw y) r) ?b" by (simp add: same_identity_def)
    have "sess_ok P (es @ [?e]) ?b"
    proof -
      have "agent_key P ?b key" using r(4) [OF g(1)] agent_key_identity [OF id] by simp
      then have "\<exists>k host now key. ForwardAsked k host (reverse_port ?b) \<in> set (es @ [?e]) \<and> host \<in> set loopback_hosts \<and>
          KeyOffered k now (session_id ?b) key \<in> set (es @ [?e]) \<and> agent_key P ?b key"
        using r(3) g(2,3) by fastforce
      moreover have "sess_ok P (es @ [?e]) (sess_at (y_gw y) r)"
        by (rule sess_ok_append [OF gw_inv_conn(4) [OF inv r(2)]])
      ultimately show ?thesis by (simp add: sess_ok_def)
    qed
    from gw_inv_set_sess [OF inv pe r(2) id this, of "reg (y_gw y)"] show ?thesis
      using g(4) by (simp add: set_sess_def)
  qed
qed

lemma inv_opened:
  assumes inv: "gw_inv P (es, y)"
  shows "gw_inv P (es @ [Opened peer], gw_step P (Opened peer) y)"
proof -
  let ?e = "Opened peer" and ?c = "fst (connection_made (gp_nets P) peer new_conn)"
  have al: "c_allowed ?c = peer_ok P peer"
    by (auto simp: connection_made_def peer_ok_def Let_def)
  have "conn_ok P (es @ [?e]) (y_gw y) k (y_conns y ! k)" if "k < length (y_conns y)" for k
    by (rule conn_ok_mono [OF gw_inv_conn(3) [OF inv that]]) auto
  moreover have "conn_ok P (es @ [?e]) (y_gw y) k \<lparr>cs_conn = ?c, cs_auth = False\<rparr>" for k
    by (simp add: conn_ok_def)
  ultimately show ?thesis
    using gw_inv_conn(1,2) [OF inv] gw_inv_reg(1,2) [OF inv] gw_inv_conn(4) [OF inv] al
    by (auto simp: gw_inv_def peers_def nth_append less_Suc_eq intro: sess_ok_append)
qed

lemma inv_session_made:
  assumes inv: "gw_inv P (es, y)"
  shows "gw_inv P (es @ [SessionMade d dt kd own], gw_step P (SessionMade d dt kd own) y)"
proof -
  let ?e = "SessionMade d dt kd own" and ?g = "y_gw y"
  let ?b = "new_session (dr_private d) (dr_public d) (dr_hex d) (dr_port d) (dr_now d) dt kd own"
  let ?h = "?g\<lparr>sess := sess ?g @ [?b], reg := dict_set (session_id ?b) (length (sess ?g)) (reg ?g)\<rparr>"
  have "gw_inv P (es @ [?e], y\<lparr>y_gw := ?h\<rparr>)"
  proof (rule gw_inv_sessions [OF inv])
    show "gw_extends ?g ?h" by (simp add: gw_extends_def)
    show "r < length (sess ?h) \<and> session_id (sess_at ?h r) = i"
      if "dict_get (reg ?h) i = Some r" for i r
      using that gw_inv_reg(1,2) [OF inv, of i r] by (auto split: if_splits)
    have "sess_ok P (es @ [?e]) ?b" by (simp add: sess_ok_def new_session_def)
    then show "sess_ok P (es @ [?e]) (sess_at ?h r)" if "r < length (sess ?h)" for r
      using that gw_inv_conn(4) [OF inv, of r] by (auto simp: less_Suc_eq intro: sess_ok_append)
  qed (simp add: peers_def)
  then show ?thesis by (simp add: create_session_def Let_def)
qed

lemma inv_human_attached:
  assumes inv: "gw_inv P (es, y)"
  shows "gw_inv P (es @ [HumanAttached i kp now], gw_step P (HumanAttached i kp now) y)"
proof (cases "dict_get (reg (y_gw y)) i")
  case None
  then show ?thesis using gw_inv_same [OF inv, of "HumanAttached i kp now"]
    by (simp add: attach_human_def get_session_def peers_def)
next
  case (Some r)
  let ?e = "HumanAttached i kp now" and ?a = "sess_at (y_gw y) r"
  let ?b = "snd (authorize_human (snd kp) (cf_human_ttl (gp_cfg P)) now ?a)"
  note rg = gw_inv_reg [OF inv Some]
  have pe: "peers [?e] = []" by (simp add: peers_def)
  have id: "same_identity ?a ?b" by (simp add: same_identity_def authorize_human_def Let_def)
  have k: "(pub, till) \<in> set (human_keys ?b) \<Longrightarrow> (pub, till) \<in> set (human_keys ?a) \<or>
      (pub = strip (snd kp) \<and> till = now + cf_human_ttl (gp_cfg P))" for pub till
    using dict_set_items by (fastforce simp: authorize_human_def Let_def split: if_splits)
  have ok: "sess_ok P (es @ [?e]) ?b"
  proof -
    have a: "sess_ok P (es @ [?e]) ?a" by (rule sess_ok_append [OF rg(3)])
    have eqs: "tunnel_up ?b = tunnel_up ?a" "s_status ?b = s_status ?a" "reverse_port ?b = reverse_port ?a"
      "session_id ?b = session_id ?a" "agent_key P ?b = agent_key P ?a"
      by (simp_all add: authorize_human_def Let_def agent_key_def fun_eq_iff)
    have "\<exists>kp t. HumanAttached (session_id ?a) kp t \<in> set (es @ [?e]) \<and> pub = strip (snd kp) \<and>
        till = t + cf_human_ttl (gp_cfg P)" if "(pub, till) \<in> set (human_keys ?b)" for pub till
      using k [OF that]
    proof
      assume "(pub, till) \<in> set (human_keys ?a)"
      then show ?thesis using a by (fastforce simp: sess_ok_def)
    next
      assume "pub = strip (snd kp) \<and> till = now + cf_human_ttl (gp_cfg P)"
      then show ?thesis using rg(2) by (intro exI [of _ kp] exI [of _ now]) simp
    qed
    then show ?thesis using a unfolding sess_ok_def eqs by blast
  qed
  have "gw_step P ?e y = y\<lparr>y_gw := set_sess r ?b (y_gw y)\<rparr>"
    using Some by (simp add: attach_human_def get_session_def split: prod.splits)
  with gw_inv_set_sess [OF inv pe rg(1) id ok, of "reg (y_gw y)"] show ?thesis by (simp add: set_sess_def)
qed

lemma inv_minor_change:
  assumes inv: "gw_inv P (es, y)" and pe: "peers [e] = []" and r: "r < length (sess (y_gw y))"
    and id: "same_identity (sess_at (y_gw y) r) b"
    and hk: "set (human_keys b) \<subseteq> set (human_keys (sess_at (y_gw y) r))"
    and up: "tunnel_up b \<or> s_status b = ''connected'' \<Longrightarrow>
       tunnel_up (sess_at (y_gw y) r) \<or> s_status (sess_at (y_gw y) r) = ''connected''"
    and d: "\<And>i q. dict_get d i = Some q \<Longrightarrow> dict_get (reg (y_gw y)) i = Some q"
  shows "gw_inv P (es @ [e], y\<lparr>y_gw := (set_sess r b (y_gw y))\<lparr>reg := d\<rparr>\<rparr>)"
  using sess_ok_mono [OF gw_inv_conn(4) [OF inv r] id _ hk up, of "es @ [e]"]
  by (intro gw_inv_set_sess [OF inv pe r id _ d]) auto

lemma gw_step_inv:
  assumes inv: "gw_inv P (es, y)" and env: "gw_env e y"
  shows "gw_inv P (es @ [e], gw_step P e y)"
proof (cases e)
  case (AuthBegun k user)
  have "gw_inv P (es @ [e], set_conn k \<lparr>cs_conn = snd (begin_auth user (cs_conn (y_conns y ! k))), cs_auth = False\<rparr> y)"
    using env AuthBegun by (intro gw_inv_conns [OF inv]) (simp_all add: peers_def begin_auth_def conn_ok_def)
  then show ?thesis using AuthBegun by simp
next
  case (TunnelAsked k host prt)
  then show ?thesis using gw_inv_same [OF inv, of e] by (simp add: peers_def)
next
  case (TargetSet ok i host prt)
  show ?thesis
  proof (cases "dict_get (reg (y_gw y)) i")
    case None
    then show ?thesis using gw_inv_same [OF inv, of e] TargetSet
      by (simp add: peers_def set_console_target_def get_session_def)
  next
    case (Some r)
    have "gw_inv P (es @ [e], y\<lparr>y_gw := (set_sess r ((sess_at (y_gw y) r)\<lparr>console_target := Some (host, prt)\<rparr>) (y_gw y))\<lparr>reg := reg (y_gw y)\<rparr>\<rparr>)"
      using TargetSet by (intro inv_minor_change [OF inv _ gw_inv_reg(1) [OF inv Some]])
        (simp_all add: peers_def same_identity_def)
    then show ?thesis
      using TargetSet Some by (auto simp: set_console_target_def get_session_def set_sess_def Let_def)
  qed
next
  case (JobNoted r j con)
  have "gw_inv P (es @ [e], y\<lparr>y_gw := (set_sess r ((sess_at (y_gw y) r)\<lparr>s_job_id := j, console_session_id := con\<rparr>) (y_gw y))\<lparr>reg := reg (y_gw y)\<rparr>\<rparr>)"
    using JobNoted env by (intro inv_minor_change [OF inv]) (simp_all add: peers_def same_identity_def)
  then show ?thesis using JobNoted by (simp add: set_sess_def)
next
  case (SessionClosed i)
  show ?thesis
  proof (cases "dict_get (reg (y_gw y)) i")
    case None
    have "dict_pop i (reg (y_gw y)) = reg (y_gw y)" using None by (simp add: dict_pop_absent dict_get_None_iff)
    then show ?thesis using gw_inv_same [OF inv, of e] SessionClosed None
      by (simp add: peers_def close_session_def remove_session_def)
  next
    case (Some r)
    let ?b = "(revoke_human_keys (sess_at (y_gw y) r))\<lparr>s_status := ''closed''\<rparr>"
    have "gw_inv P (es @ [e], y\<lparr>y_gw := (set_sess r ?b (y_gw y))\<lparr>reg := dict_pop i (reg (y_gw y))\<rparr>\<rparr>)"
      using SessionClosed
      by (intro inv_minor_change [OF inv _ gw_inv_reg(1) [OF inv Some]])
        (auto simp: peers_def same_identity_def revoke_human_keys_def split: if_splits)
    moreover have "gw_step P e y = y\<lparr>y_gw := (set_sess r ?b (y_gw y))\<lparr>reg := dict_pop i (reg (y_gw y))\<rparr>\<rparr>"
      using SessionClosed Some
      by (simp add: close_session_def remove_session_def set_sess_def sess_at_def)
    ultimately show ?thesis by simp
  qed
qed (use env inv in \<open>auto intro: inv_opened inv_key_offered inv_forward_asked inv_session_made
    inv_human_attached simp del: gw_step.simps\<close>)

interpretation gateway: machine "traced P" "gw_inv P" traced_env for P
  by unfold_locales (auto simp: traced_def traced_env_def gw_step_inv)

lemma gw_start_inv: "gw_inv P ([], gw_start)"
  by (simp add: gw_inv_def gw_start_def peers_def)

lemma gw_run_inv:
  "valid_run gw_env (gw_step P) es gw_start \<Longrightarrow> gw_inv P (es, fold (gw_step P) es gw_start)"
  using gateway.run_inv [OF gw_start_inv] by (simp add: fold_traced valid_traced)

section \<open>Who gets through\<close>

text \<open>A history the library and the tools may produce, and the state it leads to.\<close>

definition gw_history :: "gw_params \<Rightarrow> ssh_event list \<Rightarrow> bool" where
  "gw_history P es \<longleftrightarrow> valid_run gw_env (gw_step P) es gw_start"

definition gw_after :: "gw_params \<Rightarrow> ssh_event list \<Rightarrow> ssh_sys" where
  "gw_after P es = fold (gw_step P) es gw_start"

definition conn_at :: "ssh_sys \<Rightarrow> nat \<Rightarrow> ssh_conn" where
  "conn_at y k = cs_conn (y_conns y ! k)"

text \<open>A short history for the examples: a session, its container dialling in, a human attached.\<close>

definition demo_params :: gw_params where
  "demo_params = \<lparr>gp_cfg = default_config, gp_nets = [Net4 0x0A000000 8], gp_imp = Some\<rparr>"

definition demo_draw :: session_draw where
  "demo_draw = \<lparr>dr_private = ''priv'', dr_public = ''pub'', dr_hex = ''abc'', dr_port = 4000, dr_now = 0\<rparr>"

definition demo_dial :: "ssh_event list" where
  "demo_dial = [SessionMade demo_draw None ''container'' (Some ''ann''), Opened (Some ''127.0.0.1''),
     KeyOffered 0 1 ''s-abc'' ''pub'', ForwardAsked 0 ''127.0.0.1'' 4000,
     HumanAttached ''s-abc'' (''hpriv'', ''hpub'') 2, Opened (Some ''127.0.0.1''),
     KeyOffered 1 3 ''s-abc'' ''hpub'']"

lemma loopback_v4: "is_loopback ''127.0.0.1''"
  by (simp add: is_loopback_def ip_address_def parse_v4_def parse_octet_def is_digit_def digits_val_def
      digit_val_def unmap_def)

lemmas gw_eval = gw_start_def create_session_def new_session_def connection_made_def new_conn_def
  loopback_v4 validate_public_key_def get_session_def key_matches_def active_human_keys_def
  server_requested_def loopback_hosts_def attach_human_def authorize_human_def set_conn_def
  sess_at_def set_sess_def Let_def demo_params_def demo_draw_def demo_dial_def
  connection_requested_def strip_if_id is_space_def

lemma demo_dial_history: "gw_history demo_params demo_dial"
  by (simp add: gw_history_def gw_eval default_config_def)



text \<open>C11: A human reaches a session only with a key a tool handed out for that very
  session and before it ran out: when the gateway lets a connection forward to a port, the
  connection came from a loopback or allowlisted peer, the port is the session's and on
  loopback, and at some time an offered key matched one that was minted for the session
  less than the key lifetime earlier.\<close>

theorem human_needs_fresh_key:
  assumes "gw_history P es" and y: "y = gw_after P es"
    and k: "k < length (y_conns y)" "cs_auth (y_conns y ! k)"
    and g: "connection_requested host prt (conn_at y k) (y_gw y)"
  shows "peer_ok P (peers es ! k) \<and> host \<in> {''127.0.0.1'', ''localhost'', ''::1''} \<and>
    (\<exists>r now key kp t. r < length (sess (y_gw y)) \<and> prt = reverse_port (sess_at (y_gw y) r) \<and>
       KeyOffered k now (session_id (sess_at (y_gw y) r)) key \<in> set es \<and>
       HumanAttached (session_id (sess_at (y_gw y) r)) kp t \<in> set es \<and>
       gp_imp P (strip (snd kp)) = Some key \<and> now < t + cf_human_ttl (gp_cfg P))"
proof -
  have inv: "gw_inv P (es, y)" using gw_run_inv assms(1) y by (simp add: gw_history_def gw_after_def)
  obtain r now key where r: "c_session (conn_at y k) = Some r" "r < length (sess (y_gw y))"
      "KeyOffered k now (session_id (sess_at (y_gw y) r)) key \<in> set es"
      "c_role (conn_at y k) = Some ''human'' \<Longrightarrow> human_key P es (sess_at (y_gw y) r) now key"
    using gw_inv_conn(3) [OF inv k(1)] k(2) by (auto simp: conn_ok_def conn_at_def)
  have c: "c_allowed (conn_at y k)" "c_role (conn_at y k) = Some ''human''"
      "prt = reverse_port (sess_at (y_gw y) r)" "host \<in> set loopback_hosts"
    using g by (auto simp: connection_requested_def r(1))
  obtain kp t where kp: "HumanAttached (session_id (sess_at (y_gw y) r)) kp t \<in> set es"
      "gp_imp P (strip (snd kp)) = Some key" "now < t + cf_human_ttl (gp_cfg P)"
    using r(4) [OF c(2)] by (auto simp: human_key_def key_matches_def split: option.splits)
  have "peer_ok P (peers es ! k)" using gw_inv_conn(2) [OF inv k(1)] c(1) by (simp add: conn_at_def)
  moreover have "host \<in> {''127.0.0.1'', ''localhost'', ''::1''}" using c(4) by (simp add: loopback_hosts_def)
  ultimately show ?thesis using r(2,3) c(3) kp by blast
qed

lemma human_needs_fresh_key_witness:
  "\<exists>kp t. HumanAttached ''s-abc'' kp t \<in> set demo_dial"
proof -
  let ?y = "gw_after demo_params demo_dial"
  have "1 < length (y_conns ?y)" "cs_auth (y_conns ?y ! 1)"
    "connection_requested ''127.0.0.1'' 4000 (conn_at ?y 1) (y_gw ?y)"
    by (simp_all add: gw_after_def conn_at_def gw_eval default_config_def)
  from human_needs_fresh_key [OF demo_dial_history refl this]
  show ?thesis by (auto simp: demo_dial_def)
qed

text \<open>C12: A session is reported connected only after its own key was offered and a forward
  of its own port to loopback was asked for; no other event, on any connection, makes it
  so.\<close>

theorem connected_means_dialled:
  assumes "gw_history P es" and y: "y = gw_after P es"
    and r: "r < length (sess (y_gw y))" and b: "b = sess_at (y_gw y) r"
    and up: "s_status b = ''connected'' \<or> tunnel_up b"
  shows "\<exists>k j host now key. ForwardAsked k host (reverse_port b) \<in> set es \<and>
    host \<in> {''127.0.0.1'', ''localhost'', ''::1''} \<and>
    KeyOffered j now (session_id b) key \<in> set es \<and> gp_imp P (public_key b) = Some key"
proof -
  have inv: "gw_inv P (es, y)" using gw_run_inv assms(1) y by (simp add: gw_history_def gw_after_def)
  obtain k host now key where "ForwardAsked k host (reverse_port b) \<in> set es" "host \<in> set loopback_hosts"
      "KeyOffered k now (session_id b) key \<in> set es" "agent_key P b key"
    using gw_inv_conn(4) [OF inv r] up b by (auto simp: sess_ok_def)
  moreover have "gp_imp P (public_key b) = Some key"
    using calculation(4) by (simp add: agent_key_def key_matches_def split: option.splits)
  ultimately show ?thesis unfolding loopback_hosts_def by auto
qed

lemma connected_means_dialled_witness:
  "\<exists>k host. ForwardAsked k host 4000 \<in> set demo_dial"
proof -
  let ?y = "gw_after demo_params demo_dial"
  have "0 < length (sess (y_gw ?y))" "s_status (sess_at (y_gw ?y) 0) = ''connected'' \<or> tunnel_up (sess_at (y_gw ?y) 0)"
    and p: "reverse_port (sess_at (y_gw ?y) 0) = 4000"
    by (simp_all add: gw_after_def gw_eval default_config_def)
  from connected_means_dialled [OF demo_dial_history refl this(1) refl this(2)]
  show ?thesis unfolding p by blast
qed

text \<open>C28: Closing a session bars newcomers only. After any history, a close takes the session out
  of the registry, revokes its human keys and accepts no key under its name any more; but every
  connection that has authenticated keeps exactly the access it had, human forwards and reverse
  forwards alike, and a reverse forward granted to its container afterwards marks the closed
  session connected again.\<close>

theorem closing_bars_newcomers_only:
  assumes h: "gw_history P es" and y: "y = gw_after P es" and i: "get_session i (y_gw y) = Some r"
    and z: "z = gw_after P (es @ [SessionClosed i])"
  shows "get_session i (y_gw z) = None \<and> s_status (sess_at (y_gw z) r) = ''closed'' \<and>
    human_keys (sess_at (y_gw z) r) = [] \<and>
    (\<forall>now key c. \<not> fst (validate_public_key (gp_imp P) now i key (y_gw z) c)) \<and>
    y_conns z = y_conns y \<and>
    (\<forall>c host prt. connection_requested host prt c (y_gw z) = connection_requested host prt c (y_gw y) \<and>
       fst (server_requested host prt c (y_gw z)) = fst (server_requested host prt c (y_gw y)) \<and>
       (c_session c = Some r \<and> fst (server_requested host prt c (y_gw z)) \<longrightarrow>
          s_status (sess_at (snd (server_requested host prt c (y_gw z))) r) = ''connected''))"
proof -
  let ?b = "(revoke_human_keys (sess_at (y_gw y) r))\<lparr>s_status := ''closed''\<rparr>"
  have inv: "gw_inv P (es, y)" using gw_run_inv h y by (simp add: gw_history_def gw_after_def)
  have d: "dict_get (reg (y_gw y)) i = Some r" using i by (simp add: get_session_def)
  have r: "r < length (sess (y_gw y))" by (rule gw_inv_reg(1) [OF inv d])
  have g: "y_gw z = set_sess r ?b ((y_gw y)\<lparr>reg := dict_pop i (reg (y_gw y))\<rparr>)" and c: "y_conns z = y_conns y"
    using d by (simp_all add: z gw_after_def close_session_def remove_session_def sess_at_def y)
  have at: "sess_at (y_gw z) k = (if k = r then ?b else sess_at (y_gw y) k)"
    and len: "length (sess (y_gw z)) = length (sess (y_gw y))" for k
    using r by (simp_all add: g sess_at_def set_sess_def)
  have gone: "get_session i (y_gw z) = None" by (simp add: g get_session_def)
  have prt: "reverse_port (sess_at (y_gw z) k) = reverse_port (sess_at (y_gw y) k)" for k
    by (simp add: at revoke_human_keys_def)
  show ?thesis
    using gone r by (auto simp: c at prt len revoke_human_keys_def validate_public_key_def connection_requested_def
        server_requested_def split: option.splits)
qed

lemma closing_bars_newcomers_only_witness:
  "let z = gw_after demo_params (demo_dial @ [SessionClosed ''s-abc'']) in
     get_session ''s-abc'' (y_gw z) = None \<and> connection_requested ''127.0.0.1'' 4000 (conn_at z 1) (y_gw z) \<and>
     s_status (sess_at (snd (server_requested ''127.0.0.1'' 4000 (conn_at z 0) (y_gw z))) 0) = ''connected''"
proof -
  let ?y = "gw_after demo_params demo_dial"
  have i: "get_session ''s-abc'' (y_gw ?y) = Some 0"
    and c: "connection_requested ''127.0.0.1'' 4000 (conn_at ?y 1) (y_gw ?y)"
      "fst (server_requested ''127.0.0.1'' 4000 (conn_at ?y 0) (y_gw ?y))" "c_session (conn_at ?y 0) = Some 0"
    by (simp_all add: gw_after_def conn_at_def gw_eval default_config_def)
  show ?thesis
    using closing_bars_newcomers_only [OF demo_dial_history refl i refl] c by (simp add: Let_def conn_at_def)
qed

section \<open>The bridge\<close>

text \<open>C13: The WebSocket bridge lets in exactly the allowlisted. When the configured entries
  parse, a WebSocket is relayed exactly when the SSH listener is up and the address of its
  forwarding headers (the real address if there is one, else the first of the list) reads as
  one that shares all leading bits with some entry, or no entry but blank ones is configured;
  otherwise it is closed, with 4403 when it is the address, even with the listener down.\<close>

theorem bridge_admits_exactly:
  assumes "parse_networks entries = Inr nets"
  shows "bridge_websocket nets (Some hs) up =
    (let first = (case header hs ''X-Forwarded-For'' of None \<Rightarrow> [] | Some f \<Rightarrow> before_char CHR '','' f);
         ip = strip (or_str (header hs ''X-Real-Ip'') first)
     in if \<not> ((\<forall>e \<in> set entries. e = []) \<or>
          (\<exists>addr. ip_address ip = Some addr \<and>
            (\<exists>e \<in> set entries. \<exists>n. e \<noteq> [] \<and> ip_network e = Inr n \<and> same_prefix (unmap addr) n)))
        then BridgeClose 4403 else if up then Bridged else BridgeClose 1011)"
proof -
  have "forwarded_client_ip (Some hs) = strip (or_str (header hs ''X-Real-Ip'')
      (case header hs ''X-Forwarded-For'' of None \<Rightarrow> [] | Some f \<Rightarrow> before_char CHR '','' f))"
    by (simp add: forwarded_client_ip_def or_str_def before_char_def strip_if_def lstrip_if_def rstrip_if_def
        split: option.splits)
  then show ?thesis
    unfolding bridge_websocket_def allowlist_exact [OF assms] by (simp add: Let_def)
qed

lemma lab_entry: "parse_networks [[], ''10.1.9.9/16''] = Inr [Net4 0x0A010000 16]"
  by (simp add: parse_networks_def ip_network_def parse_v4_def parse_octet_def is_digit_def digits_val_def digit_val_def
      parse_mask4_def parse_prefix_def netmask_def Let_def mask_eq_exp_minus_1)

definition spoofed :: headers where
  "spoofed = [(''x-real-ip'', ''nobody''), (''X-Forwarded-For'', ''10.1.2.3, 192.0.2.1'')]"

lemma bridge_admits_exactly_witness:
  "bridge_websocket [Net4 0x0A010000 16] (Some spoofed) True = BridgeClose 4403 \<and>
   bridge_websocket [Net4 0x0A010000 16] (Some []) False = BridgeClose 4403"
proof
  have "ip_address (strip (or_str (header spoofed ''X-Real-Ip'') f)) = None" for f
  proof -
    have "header spoofed ''X-Real-Ip'' = Some ''nobody''" by code_simp
    moreover have "ip_address (strip ''nobody'') = None" by code_simp
    ultimately show ?thesis by (simp add: or_str_def)
  qed
  then show "bridge_websocket [Net4 0x0A010000 16] (Some spoofed) True = BridgeClose 4403"
    by (simp add: bridge_admits_exactly [OF lab_entry] Let_def)
  have "ip_address (strip []) = None" by code_simp
  then show "bridge_websocket [Net4 0x0A010000 16] (Some []) False = BridgeClose 4403"
    by (simp add: bridge_admits_exactly [OF lab_entry] header_def or_str_def)
qed

text \<open>The relay sends on what it receives, in order, and no empty message.\<close>

lemma relay_to_tcp: "ws_to_tcp (map Got ds @ ms) = concat ds @ ws_to_tcp ms"
  by (induction ds) simp_all

lemma relay_to_ws: "[] \<notin> set ds \<Longrightarrow> tcp_to_ws (map Got ds @ ms) = ds @ tcp_to_ws ms"
  by (induction ds) auto

end
