(* ===== verification/ConsoleProxy.thy ===== *)
theory ConsoleProxy
  imports Gateway
begin

text \<open>
  The serial console relay, \<^verbatim>\<open>interactive/ser2net-proxy/console-proxy.py\<close>, as a
  state machine: the loop that holds the connection to the console, the watchers, the
  control line that sets the endpoint, and the gate that drops watchers' input until the
  console shows the sentinel. A coroutine's stretch between two waits is one event; input
  to the board goes one byte per event.
\<close>

section \<open>State\<close>

record proxy =
  px_sentinel :: "char list"
  px_epoch :: nat
  px_up :: bool
  px_writable :: bool
  px_endpoint :: "(string \<times> int) option"
  px_ready :: bool
  px_tail :: "char list"
  px_backoff :: nat
  px_console :: "char list"
  px_watchers :: "nat list"
  px_seen :: "nat \<Rightarrow> char list"
  px_pending :: "(nat, nat \<times> char list) dict"
  px_board :: "char list"

definition proxy_init :: "char list \<Rightarrow> proxy" where
  "proxy_init sentinel = \<lparr>px_sentinel = sentinel, px_epoch = 0, px_up = False, px_writable = (sentinel = []),
     px_endpoint = None, px_ready = False, px_tail = [], px_backoff = 1, px_console = [],
     px_watchers = [], px_seen = (\<lambda>_. []), px_pending = [], px_board = []\<rparr>"

definition set_endpoint :: "string \<Rightarrow> string \<Rightarrow> proxy \<Rightarrow> proxy" where
  "set_endpoint host prt p = (case py_int prt of
      None \<Rightarrow> p
    | Some n \<Rightarrow> if px_endpoint p = Some (host, n) then p
        else p\<lparr>px_endpoint := Some (host, n), px_ready := True\<rparr>)"

section \<open>The console\<close>

text \<open>
  One pass of the loop connects to the endpoint, or fails; then chunks of at most 4096 bytes
  arrive, until one is empty or reading raises. \<open>broken\<close> are the watchers a chunk can not be
  written to.
\<close>

definition console_connected :: "proxy \<Rightarrow> proxy" where
  "console_connected p = p\<lparr>px_up := True, px_epoch := Suc (px_epoch p), px_backoff := 1\<rparr>"

definition last_n :: "nat \<Rightarrow> 'a list \<Rightarrow> 'a list" where
  "last_n n xs = drop (length xs - n) xs"

definition unlock :: "char list \<Rightarrow> proxy \<Rightarrow> proxy" where
  "unlock data p =
     (if px_writable p then p
      else (let t = last_n 4096 (px_tail p @ data) in
        p\<lparr>px_tail := t, px_writable := contains (px_sentinel p) t\<rparr>))"

definition fan_out :: "nat set \<Rightarrow> char list \<Rightarrow> proxy \<Rightarrow> proxy" where
  "fan_out broken data p = p\<lparr>px_watchers := filter (\<lambda>w. w \<notin> broken) (px_watchers p),
     px_seen := (\<lambda>w. if w \<in> set (px_watchers p) \<and> w \<notin> broken then px_seen p w @ data else px_seen p w)\<rparr>"

definition console_data :: "nat set \<Rightarrow> char list \<Rightarrow> proxy \<Rightarrow> proxy" where
  "console_data broken data p = unlock data (fan_out broken data (p\<lparr>px_console := px_console p @ data\<rparr>))"

definition console_lost :: "proxy \<Rightarrow> proxy" where
  "console_lost p = p\<lparr>px_up := False, px_backoff := min (px_backoff p * 2) 15\<rparr>"

section \<open>Watchers\<close>

text \<open>
  Sniffing for the control prefix: reads of at most what is missing, until it is complete,
  the stream ends, or a read times out.
\<close>

datatype sniff = Bits "char list" | Eof | Timeout

fun read_control_prefix :: "char list \<Rightarrow> sniff list \<Rightarrow> char list" where
  "read_control_prefix head [] = head"
| "read_control_prefix head (Eof # rs) = head"
| "read_control_prefix head (Timeout # rs) = head"
| "read_control_prefix head (Bits b # rs) =
     (if length head \<ge> length setport_prefix then head
      else if b = [] then head
      else read_control_prefix (head @ take (length setport_prefix - length head) b) rs)"

text \<open>
  \<^verbatim>\<open>bytes.decode(errors="replace")\<close>: UTF-8; a question mark stands for every character
  beyond code point 255 and for the replacement character.
\<close>

fun decode_replace :: "char list \<Rightarrow> string" where
  "decode_replace [] = []"
| "decode_replace [c] = (if code c < (128::nat) then [c] else ''?'')"
| "decode_replace (c # d # cs) =
     (if code c < (128::nat) then c # decode_replace (d # cs)
      else if (code c = (194::nat) \<or> code c = (195::nat)) \<and> 128 \<le> (code d :: nat) \<and> code d < (192::nat)
      then char_of ((code c - 192) * 64 + (code d - 128) :: nat) # decode_replace cs
      else CHR ''?'' # decode_replace (d # cs))"

text \<open>The line after the prefix: up to and with the first line feed.\<close>

definition read_line :: "char list \<Rightarrow> char list" where
  "read_line bs = takeWhile (\<lambda>c. c \<noteq> CHR 0x0A) bs @ (if CHR 0x0A \<in> set bs then [CHR 0x0A] else [])"

definition control_line :: "char list \<Rightarrow> proxy \<Rightarrow> proxy" where
  "control_line bs p = (case split_ws (decode_replace (read_line bs)) of
      h # q # _ \<Rightarrow> set_endpoint h q p
    | _ \<Rightarrow> p)"

text \<open>Input for the board is taken only when the gate is open and the console is up.\<close>

definition to_board :: "nat \<Rightarrow> char list \<Rightarrow> proxy \<Rightarrow> proxy" where
  "to_board w data p =
     (if \<not> px_writable p \<or> \<not> px_up p then p
      else p\<lparr>px_pending := dict_set w (px_epoch p, data) (px_pending p)\<rparr>)"

text \<open>
  The next byte of a watcher's input, to the connection it was taken for: one that has been
  lost takes no more.
\<close>

definition board_byte :: "nat \<Rightarrow> proxy \<Rightarrow> proxy" where
  "board_byte w p = (case dict_get (px_pending p) w of
      Some (ep, b # bs) \<Rightarrow>
        p\<lparr>px_pending := dict_set w (ep, bs) (px_pending p),
          px_board := (if px_up p \<and> ep = px_epoch p then px_board p @ [b] else px_board p)\<rparr>
    | _ \<Rightarrow> p)"

definition handle_watcher :: "nat \<Rightarrow> sniff list \<Rightarrow> char list \<Rightarrow> proxy \<Rightarrow> proxy" where
  "handle_watcher w reads rest p =
     (let head = read_control_prefix [] reads in
      if head = setport_prefix then control_line rest p
      else (let q = p\<lparr>px_watchers := w # px_watchers p\<rparr> in
        if head = [] then q else to_board w head q))"

definition watcher_left :: "nat \<Rightarrow> proxy \<Rightarrow> proxy" where
  "watcher_left w p = p\<lparr>px_watchers := filter (\<lambda>v. v \<noteq> w) (px_watchers p), px_pending := dict_pop w (px_pending p)\<rparr>"

section \<open>The machine\<close>

datatype proxy_event =
    EndpointFromEnv "string option" "string option"
  | ConsoleUp
  | ConsoleData "nat set" "char list"
  | ConsoleLost
  | WatcherCame nat "sniff list" "char list"
  | WatcherSent nat "char list"
  | BoardByte nat
  | WatcherLeft nat

definition endpoint_from_env :: "string option \<Rightarrow> string option \<Rightarrow> proxy \<Rightarrow> proxy" where
  "endpoint_from_env host prt p = (case (host, prt) of
      (Some h, Some q) \<Rightarrow> if h \<noteq> [] \<and> q \<noteq> [] then set_endpoint h q p else p
    | _ \<Rightarrow> p)"

fun proxy_step :: "proxy_event \<Rightarrow> proxy \<Rightarrow> proxy" where
  "proxy_step (EndpointFromEnv h q) p = endpoint_from_env h q p"
| "proxy_step ConsoleUp p = console_connected p"
| "proxy_step (ConsoleData broken d) p = console_data broken d p"
| "proxy_step ConsoleLost p = console_lost p"
| "proxy_step (WatcherCame w reads rest) p = handle_watcher w reads rest p"
| "proxy_step (WatcherSent w d) p = to_board w d p"
| "proxy_step (BoardByte w) p = board_byte w p"
| "proxy_step (WatcherLeft w) p = watcher_left w p"

text \<open>
  What asyncio guarantees: the loop connects only once an endpoint is known and while not
  connected, reads only while connected and never more than it asked for, a watcher that
  comes is new, and sends only while it is there and has no input under way.
\<close>

fun proxy_env :: "proxy_event \<Rightarrow> proxy \<Rightarrow> bool" where
  "proxy_env ConsoleUp p = (px_ready p \<and> \<not> px_up p)"
| "proxy_env (ConsoleData broken d) p = (px_up p \<and> d \<noteq> [] \<and> length d \<le> 4096)"
| "proxy_env (WatcherCame w reads rest) p = (w \<notin> set (px_watchers p))"
| "proxy_env (WatcherSent w d) p = (w \<in> set (px_watchers p) \<and>
     (case dict_get (px_pending p) w of None \<Rightarrow> True | Some (ep, bs) \<Rightarrow> bs = []))"
| "proxy_env _ p = True"

section \<open>The gate\<close>

definition gate_inv :: "proxy \<Rightarrow> bool" where
  "gate_inv p \<longleftrightarrow>
     (px_writable p \<longrightarrow> contains (px_sentinel p) (px_console p)) \<and>
     (\<not> px_writable p \<longrightarrow> px_board p = [] \<and> px_pending p = [] \<and> px_sentinel p \<noteq> [] \<and>
        suffix (px_tail p) (px_console p)) \<and>
     (px_ready p \<longleftrightarrow> px_endpoint p \<noteq> None)"

lemma last_n_suffix: "suffix (last_n n xs) xs"
  by (simp add: last_n_def suffix_drop)

lemma contains_suffix: "contains s t \<Longrightarrow> suffix t u \<Longrightarrow> contains s u"
  by (auto simp: contains_append_iff suffix_def) (metis append_assoc)

lemma contains_prefix: "contains s t \<Longrightarrow> contains s (t @ u)"
  by (auto simp: contains_append_iff) (metis append_assoc)

lemma contains_Nil [simp]: "contains [] t"
  by (cases t) simp_all

lemma gate_set_endpoint [simp]:
  "gate_inv p \<Longrightarrow> gate_inv (set_endpoint h q p)"
  by (auto simp: gate_inv_def set_endpoint_def split: option.splits)

lemma gate_data: "gate_inv p \<Longrightarrow> gate_inv (console_data broken d p)"
proof -
  assume inv: "gate_inv p"
  let ?t = "last_n 4096 (px_tail p @ d)"
  have "\<not> px_writable p \<Longrightarrow> suffix ?t (px_console p @ d)"
  proof -
    assume "\<not> px_writable p"
    then have "suffix (px_tail p @ d) (px_console p @ d)" using inv by (auto simp: gate_inv_def suffix_def)
    then show ?thesis using last_n_suffix suffix_order.trans by blast
  qed
  then show ?thesis
    using inv contains_suffix [of "px_sentinel p" ?t "px_console p @ d"]
    by (auto simp: gate_inv_def console_data_def fan_out_def unlock_def Let_def contains_prefix)
qed

lemma gate_to_board: "gate_inv p \<Longrightarrow> gate_inv (to_board w d p)"
  by (simp add: gate_inv_def to_board_def)

lemma gate_step: "gate_inv p \<Longrightarrow> gate_inv (proxy_step e p)"
proof (cases e)
  case (EndpointFromEnv h q)
  then show "gate_inv p \<Longrightarrow> ?thesis"
    by (auto simp: endpoint_from_env_def split: option.splits)
next
  case (ConsoleData broken d)
  then show "gate_inv p \<Longrightarrow> ?thesis" by (simp add: gate_data)
next
  case (WatcherCame w reads rest)
  assume inv: "gate_inv p"
  then have "gate_inv (p\<lparr>px_watchers := w # px_watchers p\<rparr>)" by (simp add: gate_inv_def)
  then show ?thesis
    using WatcherCame inv gate_to_board
    by (auto simp: handle_watcher_def control_line_def Let_def split: list.splits)
next
  case (WatcherSent w d)
  then show "gate_inv p \<Longrightarrow> ?thesis" by (simp add: gate_to_board)
next
  case (BoardByte w)
  then show "gate_inv p \<Longrightarrow> ?thesis"
    by (auto simp: board_byte_def gate_inv_def split: option.splits list.splits)
next
  case (WatcherLeft w)
  then show "gate_inv p \<Longrightarrow> ?thesis"
    by (auto simp: watcher_left_def gate_inv_def dict_pop_def)
qed (auto simp: gate_inv_def console_connected_def console_lost_def)

interpretation proxy_gate: machine proxy_step gate_inv proxy_env
  by unfold_locales (rule gate_step)

section \<open>The gate opens in time\<close>

definition bounded_chunks :: "nat \<Rightarrow> proxy_event \<Rightarrow> bool" where
  "bounded_chunks n e = (case e of ConsoleData broken d \<Rightarrow> length d + n \<le> 4097 | _ \<Rightarrow> True)"

definition tail_inv :: "char list \<Rightarrow> proxy \<Rightarrow> bool" where
  "tail_inv s p \<longleftrightarrow> px_sentinel p = s \<and>
     (px_writable p \<or> px_tail p = last_n 4096 (px_console p) \<and> \<not> contains s (px_console p))"

lemma last_n_append: "last_n n (last_n n xs @ ys) = last_n n (xs @ ys)"
proof (cases "length xs \<le> n")
  case False
  let ?k = "length xs - n"
  have k: "length (drop ?k xs) = n" "drop ?k (xs @ ys) = drop ?k xs @ ys" using False by simp_all
  have "last_n n (last_n n xs @ ys) = drop (length ys) (drop ?k (xs @ ys))"
    using k by (simp add: last_n_def)
  also have "\<dots> = drop (length (xs @ ys) - n) (xs @ ys)"
    using False by (simp add: add.commute)
  finally show ?thesis by (simp only: last_n_def)
qed (simp add: last_n_def)

lemma suffix_last_n: "suffix xs ys \<Longrightarrow> length xs \<le> n \<Longrightarrow> suffix xs (last_n n ys)"
proof -
  assume "suffix xs ys" "length xs \<le> n"
  then obtain u where ys: "ys = u @ xs" by (auto simp: suffix_def)
  then have "last_n n ys = drop (length u + length xs - n) u @ xs"
    using \<open>length xs \<le> n\<close> by (simp add: last_n_def)
  then show ?thesis by (simp add: suffix_def)
qed

lemma new_occurrence:
  assumes "contains s (c @ d)" "\<not> contains s c" "length d + length s \<le> Suc n"
  shows "contains s (last_n n (c @ d))"
proof -
  obtain u v where uv: "c @ d = u @ s @ v" using assms(1) by (auto simp: contains_append_iff)
  have "length v < length d"
  proof (rule ccontr)
    assume "\<not> length v < length d"
    then have "length (u @ s) \<le> length c" using arg_cong [OF uv, of length] by simp
    then have "prefix (u @ s) c" using uv by (metis append.assoc prefix_length_prefix prefixI)
    then have "contains s c" by (auto simp: contains_append_iff prefix_def)
    then show False using assms(2) by simp
  qed
  then have "length (s @ v) \<le> n" using assms(3) by simp
  moreover have "suffix (s @ v) (c @ d)" using uv by (metis suffixI)
  ultimately have "suffix (s @ v) (last_n n (c @ d))" by (rule suffix_last_n [rotated])
  moreover have "contains s (s @ v)" using contains_append_iff [of s "s @ v"] by (metis append_Nil)
  ultimately show ?thesis by (rule contains_suffix [rotated])
qed

lemma tail_set_endpoint [simp]: "tail_inv s (set_endpoint h q p) = tail_inv s p"
  by (auto simp: tail_inv_def set_endpoint_def split: option.splits)

lemma tail_step:
  assumes inv: "tail_inv s p" and b: "bounded_chunks (length s) e"
  shows "tail_inv s (proxy_step e p)"
proof (cases e)
  case (ConsoleData broken d)
  have "length d + length s \<le> Suc 4096" using b ConsoleData by (simp add: bounded_chunks_def)
  then show ?thesis
    using ConsoleData inv new_occurrence [of s "px_console p" d 4096]
      contains_suffix [OF _ last_n_suffix, of s 4096 "px_console p @ d"]
    by (auto simp: tail_inv_def console_data_def fan_out_def unlock_def Let_def last_n_append)
next
  case (EndpointFromEnv h q)
  then show ?thesis using inv by (auto simp: endpoint_from_env_def split: option.splits)
next
  case (WatcherCame w reads rest)
  then show ?thesis
    using inv by (auto simp: handle_watcher_def control_line_def Let_def to_board_def split: list.splits)
      (auto simp: tail_inv_def)
qed (use inv in \<open>auto simp: tail_inv_def console_connected_def console_lost_def to_board_def board_byte_def
      watcher_left_def split: option.splits list.splits\<close>)

interpretation proxy_tail: machine proxy_step "tail_inv s" "\<lambda>e p. bounded_chunks (length s) e" for s
  by unfold_locales (rule tail_step)

definition proxy_after :: "char list \<Rightarrow> proxy_event list \<Rightarrow> proxy" where
  "proxy_after s es = fold proxy_step es (proxy_init s)"

definition proxy_history :: "char list \<Rightarrow> proxy_event list \<Rightarrow> bool" where
  "proxy_history s es \<longleftrightarrow> valid_run proxy_env proxy_step es (proxy_init s)"

lemma proxy_sentinel [simp]: "px_sentinel (proxy_after s es) = s"
proof -
  have "px_sentinel (proxy_step e p) = px_sentinel p" for e p
    by (cases e) (auto simp: endpoint_from_env_def set_endpoint_def console_connected_def console_data_def
        fan_out_def unlock_def Let_def console_lost_def handle_watcher_def control_line_def to_board_def
        board_byte_def watcher_left_def split: option.splits list.splits)
  then have "px_sentinel (fold proxy_step es p) = px_sentinel p" for p
    by (induction es arbitrary: p) simp_all
  then show ?thesis by (simp add: proxy_after_def proxy_init_def)
qed

lemma valid_run_all: "(\<And>e. e \<in> set es \<Longrightarrow> ok e) \<Longrightarrow> valid_run (\<lambda>e s. ok e) step es s"
  by (induction es arbitrary: s) simp_all

text \<open>C14: The console is read-only until the board says it is up. Whatever watchers send and
  whenever, no byte of theirs reaches the board, and none is accepted for it, before the
  sentinel has appeared in what the console printed; and if every chunk leaves room for
  the sentinel within 4097 bytes, the gate is open exactly when it has appeared, however
  the chunks cut it.\<close>

theorem read_only_until_ready:
  assumes "proxy_history s es"
  shows "(px_board (proxy_after s es) \<noteq> [] \<or> px_pending (proxy_after s es) \<noteq> [] \<longrightarrow>
      contains s (px_console (proxy_after s es))) \<and>
    ((\<forall>e \<in> set es. bounded_chunks (length s) e) \<longrightarrow>
      px_writable (proxy_after s es) = contains s (px_console (proxy_after s es)))"
proof -
  let ?p = "proxy_after s es"
  have "gate_inv (proxy_init s)" by (simp add: gate_inv_def proxy_init_def)
  from proxy_gate.run_inv [OF this] assms have g: "gate_inv ?p"
    by (simp add: proxy_history_def proxy_after_def)
  have "tail_inv s ?p" if "\<forall>e \<in> set es. bounded_chunks (length s) e"
  proof -
    have "tail_inv s (proxy_init s)"
      by (cases s) (simp_all add: tail_inv_def proxy_init_def last_n_def)
    from proxy_tail.run_inv [OF this valid_run_all] that show ?thesis by (simp add: proxy_after_def)
  qed
  then show ?thesis using g by (auto simp: gate_inv_def tail_inv_def)
qed

definition demo_proxy :: "proxy_event list" where
  "demo_proxy = [EndpointFromEnv (Some ''h'') (Some ''7''), ConsoleUp, WatcherCame 1 [Timeout] [],
     WatcherSent 1 ''x'', ConsoleData {} ''..RE'', ConsoleData {} ''ADY'', WatcherSent 1 ''ls'', BoardByte 1]"

lemma demo_proxy_history: "proxy_history ''READY'' demo_proxy"
  by (simp add: proxy_history_def demo_proxy_def proxy_init_def endpoint_from_env_def set_endpoint_def
      py_int_def strip_if_id is_space_def is_digit_def Let_def console_connected_def handle_watcher_def
      setport_prefix_def to_board_def console_data_def unlock_def fan_out_def last_n_def board_byte_def)

lemma read_only_until_ready_witness:
  "px_writable (proxy_after ''READY'' demo_proxy) = contains ''READY'' (px_console (proxy_after ''READY'' demo_proxy))"
proof -
  have "\<forall>e \<in> set demo_proxy. bounded_chunks (length ''READY'') e" by (simp add: demo_proxy_def bounded_chunks_def)
  with read_only_until_ready [OF demo_proxy_history] show ?thesis by blast
qed

section \<open>What the gate computes\<close>

text \<open>
  A reference for the gate that keeps no state: over all chunks ever read, in whatever
  connections, it is open when at the end of some chunk the last 4096 bytes of everything
  printed by then showed the sentinel.
\<close>

definition console_chunks :: "proxy_event list \<Rightarrow> char list list" where
  "console_chunks es = concat (map (\<lambda>e. case e of ConsoleData broken d \<Rightarrow> [d] | _ \<Rightarrow> []) es)"

definition gate_reference :: "char list \<Rightarrow> char list list \<Rightarrow> bool" where
  "gate_reference s chunks =
     list_ex (\<lambda>k. contains s (last_n 4096 (concat (take k chunks)))) [0..<Suc (length chunks)]"

lemma gate_reference_Nil: "gate_reference s [] \<longleftrightarrow> s = []"
  by (simp add: gate_reference_def last_n_def)

lemma gate_reference_snoc:
  "gate_reference s (cs @ [d]) \<longleftrightarrow> gate_reference s cs \<or> contains s (last_n 4096 (concat cs @ d))"
  by (auto simp: gate_reference_def list_ex_iff less_Suc_eq)

lemma console_chunks_snoc:
  "console_chunks (es @ [e]) = console_chunks es @ (case e of ConsoleData broken d \<Rightarrow> [d] | _ \<Rightarrow> [])"
  by (simp add: console_chunks_def)

definition gate_tracks :: "char list \<Rightarrow> char list list \<Rightarrow> proxy \<Rightarrow> bool" where
  "gate_tracks s cs p \<longleftrightarrow> px_sentinel p = s \<and> px_console p = concat cs \<and>
     px_writable p = gate_reference s cs \<and> (\<not> px_writable p \<longrightarrow> px_tail p = last_n 4096 (concat cs))"

lemma gate_tracks_set_endpoint [simp]: "gate_tracks s cs (set_endpoint h q p) = gate_tracks s cs p"
  by (auto simp: gate_tracks_def set_endpoint_def split: option.splits)

lemma gate_tracks_step:
  assumes "gate_tracks s cs p"
  shows "gate_tracks s (cs @ (case e of ConsoleData broken d \<Rightarrow> [d] | _ \<Rightarrow> [])) (proxy_step e p)"
proof (cases e)
  case (EndpointFromEnv h q)
  then show ?thesis using assms by (auto simp: endpoint_from_env_def split: option.splits)
next
  case (ConsoleData broken d)
  then show ?thesis
    using assms by (auto simp: gate_tracks_def console_data_def fan_out_def unlock_def Let_def
        gate_reference_snoc last_n_append)
next
  case (WatcherCame w reads rest)
  then show ?thesis
    using assms by (auto simp: handle_watcher_def control_line_def Let_def to_board_def split: list.splits)
      (auto simp: gate_tracks_def)
qed (use assms in \<open>auto simp: gate_tracks_def console_connected_def console_lost_def to_board_def board_byte_def
      watcher_left_def split: option.splits list.splits\<close>)


definition straddling :: "proxy_event list" where
  "straddling = [EndpointFromEnv (Some ''h'') (Some ''7''), ConsoleUp, ConsoleData {} ''O'',
     ConsoleData {} (CHR ''K'' # replicate 4095 CHR ''x'')]"

text \<open>A sentinel cut by a chunk boundary is missed when the chunk that completes it is
  full: the last 4096 bytes are then that chunk alone, and the console stays read-only
  although the sentinel was printed.\<close>

lemma straddling_sentinel_missed:
  "proxy_history ''OK'' straddling \<and> contains ''OK'' (px_console (proxy_after ''OK'' straddling)) \<and>
   \<not> px_writable (proxy_after ''OK'' straddling)"
proof -
  let ?d = "CHR ''K'' # replicate 4095 CHR ''x''"
  have t: "last_n 4096 (''O'' @ ?d) = ?d" by (simp add: last_n_def)
  have no: "\<not> contains ''OK'' ?d"
  proof -
    have "CHR ''O'' \<notin> set ?d" by (simp only: set_simps set_replicate_conv_if) auto
    moreover have "CHR ''O'' \<in> set ?d" if "?d = u @ ''OK'' @ v" for u v
      by (subst that) simp
    ultimately show ?thesis unfolding contains_append_iff by blast
  qed
  have p: "fold proxy_step straddling (proxy_init ''OK'') =
      (console_connected (set_endpoint ''h'' ''7'' (proxy_init ''OK'')))\<lparr>px_tail := ?d, px_console := ''O'' @ ?d\<rparr>"
    using no t
    by (simp add: straddling_def endpoint_from_env_def console_data_def unlock_def fan_out_def Let_def
        proxy_init_def console_connected_def set_endpoint_def py_int_def strip_if_id is_space_def is_digit_def
        last_n_def)
  have "proxy_history ''OK'' straddling"
    by (simp add: proxy_history_def straddling_def endpoint_from_env_def console_data_def unlock_def fan_out_def
        Let_def proxy_init_def console_connected_def set_endpoint_def py_int_def strip_if_id is_space_def is_digit_def
        last_n_def)
  moreover have "contains ''OK'' (''O'' @ ?d)" by simp
  moreover have "\<not> px_writable (console_connected (set_endpoint ''h'' ''7'' (proxy_init ''OK'')))"
    by (simp add: console_connected_def set_endpoint_def proxy_init_def split: option.splits)
  ultimately show ?thesis unfolding proxy_after_def p by simp
qed

section \<open>Watching\<close>

text \<open>What the console prints in the course of a run.\<close>

definition console_bytes :: "proxy_event list \<Rightarrow> char list" where
  "console_bytes es = concat (map (\<lambda>e. case e of ConsoleData broken d \<Rightarrow> d | _ \<Rightarrow> []) es)"

definition stays :: "nat \<Rightarrow> proxy_event \<Rightarrow> bool" where
  "stays w e = (case e of ConsoleData broken d \<Rightarrow> w \<notin> broken | WatcherLeft v \<Rightarrow> v \<noteq> w | _ \<Rightarrow> True)"

lemma set_endpoint_keeps [simp]:
  "px_watchers (set_endpoint h q p) = px_watchers p" "px_seen (set_endpoint h q p) = px_seen p"
  "px_pending (set_endpoint h q p) = px_pending p" "px_board (set_endpoint h q p) = px_board p"
  "px_console (set_endpoint h q p) = px_console p" "px_writable (set_endpoint h q p) = px_writable p"
  by (simp_all add: set_endpoint_def split: option.splits)

lemma seen_step:
  assumes "w \<in> set (px_watchers p)" "stays w e"
  shows "w \<in> set (px_watchers (proxy_step e p)) \<and>
    px_seen (proxy_step e p) w = px_seen p w @ (case e of ConsoleData broken d \<Rightarrow> d | _ \<Rightarrow> [])"
  using assms
  by (cases e) (auto simp: stays_def endpoint_from_env_def console_connected_def console_data_def fan_out_def
      unlock_def Let_def console_lost_def handle_watcher_def control_line_def to_board_def board_byte_def
      watcher_left_def split: option.splits list.splits)

text \<open>C16: A watcher sees the console as it is: from the moment it is connected, as long as
  it stays and can be written to, it gets every byte the console prints, in order, once,
  read-only or not, whatever other watchers come, go, type or break.\<close>

theorem watcher_sees_all:
  assumes "w \<in> set (px_watchers p)" "list_all (stays w) es"
  shows "px_seen (fold proxy_step es p) w = px_seen p w @ console_bytes es \<and>
    w \<in> set (px_watchers (fold proxy_step es p))"
  using assms
proof (induction es arbitrary: p)
  case (Cons e es)
  have "w \<in> set (px_watchers (proxy_step e p))"
    "px_seen (proxy_step e p) w = px_seen p w @ (case e of ConsoleData broken d \<Rightarrow> d | _ \<Rightarrow> [])"
    using seen_step [OF Cons.prems(1)] Cons.prems(2) by auto
  then show ?case using Cons.IH Cons.prems(2) by (simp add: console_bytes_def)
qed (simp add: console_bytes_def)

lemma watcher_sees_all_witness:
  "px_seen (fold proxy_step [ConsoleData {} ''boot'', WatcherCame 2 [Timeout] [], ConsoleData {2} ''ing'']
      ((proxy_init ''R'')\<lparr>px_watchers := [1]\<rparr>)) 1 = ''booting''"
  using watcher_sees_all [of 1 "(proxy_init ''R'')\<lparr>px_watchers := [1]\<rparr>"
      "[ConsoleData {} ''boot'', WatcherCame 2 [Timeout] [], ConsoleData {2} ''ing'']"]
  by (simp add: stays_def console_bytes_def) (simp add: proxy_init_def)

section \<open>The control line of the gateway\<close>

lemma decode_ascii: "\<forall>c \<in> set s. code c < (128::nat) \<Longrightarrow> decode_replace s = s"
  by (induction s rule: decode_replace.induct) auto

lemma utf8_bytes:
  fixes n :: nat
  assumes "n < 256"
  shows "n < 128 \<or> n div 64 = 2 \<or> n div 64 = 3" "192 + n div 64 < 256" "128 + n mod 64 < 256"
  using assms by linarith+

lemma decode_utf8_cons: "decode_replace (utf8_char c @ bs) = c # decode_replace bs"
proof (cases "code c < (128::nat)")
  case True
  then show ?thesis by (cases bs) (simp_all add: utf8_char_def)
next
  case False
  let ?n = "code c :: nat"
  have "?n div 64 = 2 \<or> ?n div 64 = 3" using False utf8_bytes(1) [of ?n] by simp
  moreover have "char_of (128 + ?n mod 64) = c" if "?n div 64 = 2"
  proof -
    have "128 + ?n mod 64 = ?n" using div_mult_mod_eq [of ?n 64] that by simp
    then show ?thesis by (simp only: char_of_char)
  qed
  moreover have "char_of (192 + ?n mod 64) = c" if "?n div 64 = 3"
  proof -
    have "192 + ?n mod 64 = ?n" using div_mult_mod_eq [of ?n 64] that by simp
    then show ?thesis by (simp only: char_of_char)
  qed
  moreover have "?n mod 64 < 64" by simp
  ultimately show ?thesis using False
    by (auto simp: utf8_char_def Let_def of_char_of)
qed

lemma decode_encode: "decode_replace (encode s) = s"
  by (induction s) (simp_all add: encode_def decode_utf8_cons)

lemma read_prefix_chunks:
  "[] \<notin> set cs \<Longrightarrow> length head + length (concat cs) = length setport_prefix \<Longrightarrow>
     read_control_prefix head (map Bits cs) = head @ concat cs"
  by (induction cs arbitrary: head) (auto simp: neq_Nil_conv)

lemma split_two_words:
  assumes "h \<noteq> []" "q \<noteq> []" "\<forall>c \<in> set (h @ q). \<not> is_space c"
  shows "split_ws (h @ '' '' @ q @ [CHR 0x0A]) = [h, q]"
proof -
  have sp: "is_space CHR '' ''" "is_space CHR 0x0A" by (simp_all add: is_space_def)
  have word: "split_ws (w @ c # r) = w # split_ws (c # r)"
    if "w \<noteq> []" "\<forall>x \<in> set w. \<not> is_space x" "is_space c" for w c r
    using that by (cases w) (simp_all add: takeWhile_append2 dropWhile_append2)
  show ?thesis
    using word [of h "CHR '' ''" "q @ [CHR 0x0A]"] word [of q "CHR 0x0A" "[]"] assms sp by simp
qed

lemma encode_append: "encode (a @ b) = encode a @ encode b"
  by (simp add: encode_def)

lemma encode_no_lf: "\<forall>c \<in> set s. \<not> is_space c \<Longrightarrow> CHR 0x0A \<notin> set (encode s)"
proof
  assume s: "\<forall>c \<in> set s. \<not> is_space c" and "CHR 0x0A \<in> set (encode s)"
  then obtain c where c: "c \<in> set s" "CHR 0x0A \<in> set (utf8_char c)" by (auto simp: encode_def)
  let ?n = "code c :: nat"
  have "code (char_of (192 + ?n div 64) :: char) = 192 + ?n div 64"
      "code (char_of (128 + ?n mod 64) :: char) = 128 + ?n mod 64"
    using utf8_bytes(2,3) [of ?n] by (simp_all only: code_char_of nat_of_char_less_256)
  then have "char_of (192 + ?n div 64) \<noteq> CHR 0x0A" "char_of (128 + ?n mod 64) \<noteq> CHR 0x0A"
    by (auto dest: arg_cong [where f = "code :: char \<Rightarrow> nat"])
  then have "c = CHR 0x0A"
    using c(2) by (auto simp: utf8_char_def Let_def split: if_splits)
  then show False using s c(1) by (auto simp: is_space_def)
qed



end
