(* ===== verification/Url.thy ===== *)
theory Url
  imports IPAddr
begin

text \<open>
  Python's \<^verbatim>\<open>urllib.parse\<close> as the program uses it: splitting a URL, putting it
  together, and joining a relative path to a base, with the resolution of dot segments.
  The LAVA client builds every address it talks to with it.
\<close>

section \<open>Splitting\<close>

record url_parts =
  u_scheme :: string
  u_netloc :: string
  u_path :: string
  u_params :: string
  u_query :: string
  u_fragment :: string

definition is_c0_space :: "char \<Rightarrow> bool" where
  "is_c0_space c \<longleftrightarrow> code c \<le> (32::nat)"

definition unsafe_url_char :: "char \<Rightarrow> bool" where
  "unsafe_url_char c \<longleftrightarrow> code c \<in> {9, 10, 13 :: nat}"

definition scheme_char :: "char \<Rightarrow> bool" where
  "scheme_char c \<longleftrightarrow> is_alpha c \<or> is_digit c \<or> c = CHR ''+'' \<or> c = CHR ''-'' \<or> c = CHR ''.''"

text \<open>\<^verbatim>\<open>s.partition(c)\<close> without the separator: what is before it, and what is after it, if it is there.\<close>

definition cut :: "char \<Rightarrow> string \<Rightarrow> string \<times> string option" where
  "cut c s = (before_char c s, if c \<in> set s then Some (tl (dropWhile (\<lambda>x. x \<noteq> c) s)) else None)"

definition cut_scheme :: "string \<Rightarrow> string \<Rightarrow> string \<times> string" where
  "cut_scheme dflt s = (case cut CHR '':'' s of
      (sc, Some rest) \<Rightarrow>
        if sc \<noteq> [] \<and> is_alpha (hd sc) \<and> list_all scheme_char sc then (lower sc, rest) else (dflt, s)
    | (_, None) \<Rightarrow> (dflt, s))"

definition netloc_end :: "char \<Rightarrow> bool" where
  "netloc_end c \<longleftrightarrow> c = CHR ''/'' \<or> c = CHR ''?'' \<or> c = CHR ''#''"

text \<open>A host in brackets must be an IPv6 address (or an address of a future version).\<close>

definition bracketed_host_ok :: "string \<Rightarrow> bool" where
  "bracketed_host_ok h =
     (if h \<noteq> [] \<and> hd h = CHR ''v''
      then (case cut CHR ''.'' (tl h) of
          (v, Some rest) \<Rightarrow> v \<noteq> [] \<and> list_all is_hex v \<and> rest \<noteq> [] \<and> CHR 0x0A \<notin> set rest
        | _ \<Rightarrow> False)
      else (case ip_address h of Some (V6 a) \<Rightarrow> True | _ \<Rightarrow> False))"

definition netloc_ok :: "string \<Rightarrow> bool" where
  "netloc_ok n =
     (let l = CHR 0x5B \<in> set n; r = CHR 0x5D \<in> set n in
      if l \<noteq> r then False
      else if \<not> l then True
      else (let hp = after_last CHR ''@'' n in
        case cut CHR 0x5B hp of
          (pre0, Some br) \<Rightarrow> pre0 = [] \<and>
            (case cut CHR 0x5D br of
               (h, Some prt) \<Rightarrow> (prt = [] \<or> hd prt = CHR '':'') \<and> bracketed_host_ok h
             | (h, None) \<Rightarrow> bracketed_host_ok h)
        | (pre0, None) \<Rightarrow> bracketed_host_ok (before_char CHR '':'' hp)))"

definition uses_params :: "string list" where
  "uses_params = ['''', ''ftp'', ''hdl'', ''prospero'', ''http'', ''imap'', ''https'', ''shttp'', ''rtsp'',
     ''rtsps'', ''rtspu'', ''sip'', ''sips'', ''mms'', ''sftp'', ''tel'']"

definition uses_relative :: "string list" where
  "uses_relative = ['''', ''ftp'', ''http'', ''gopher'', ''nntp'', ''imap'', ''wais'', ''file'', ''https'',
     ''shttp'', ''mms'', ''prospero'', ''rtsp'', ''rtsps'', ''rtspu'', ''sftp'', ''svn'', ''svn+ssh'', ''ws'', ''wss'']"

definition uses_netloc :: "string list" where
  "uses_netloc = ['''', ''ftp'', ''http'', ''gopher'', ''nntp'', ''telnet'', ''imap'', ''wais'', ''file'', ''mms'',
     ''https'', ''shttp'', ''snews'', ''prospero'', ''rtsp'', ''rtsps'', ''rtspu'', ''rsync'', ''svn'', ''svn+ssh'',
     ''sftp'', ''nfs'', ''git'', ''git+ssh'', ''ws'', ''wss'']"

text \<open>The parameters are cut from the last segment of the path.\<close>

definition split_params :: "string \<Rightarrow> string \<times> string" where
  "split_params p =
     (let lst = after_last CHR ''/'' p; ini = take (length p - length lst) p in
      case cut CHR '';'' lst of
        (a, Some b) \<Rightarrow> (ini @ a, b)
      | (a, None) \<Rightarrow> (p, []))"

definition opt_str :: "string option \<Rightarrow> string" where
  "opt_str x = (case x of None \<Rightarrow> [] | Some s \<Rightarrow> s)"

definition urlparse :: "string \<Rightarrow> string \<Rightarrow> exc + url_parts" where
  "urlparse url0 dflt =
     (let url1 = filter (\<lambda>c. \<not> unsafe_url_char c) (lstrip_if is_c0_space url0);
          (sc, rest1) = cut_scheme dflt url1;
          has = prefix ''//'' rest1;
          net = (if has then takeWhile (\<lambda>c. \<not> netloc_end c) (drop 2 rest1) else []);
          rest2 = (if has then dropWhile (\<lambda>c. \<not> netloc_end c) (drop 2 rest1) else rest1);
          (rest3, frag) = cut CHR ''#'' rest2;
          (path0, qry) = cut CHR ''?'' rest3;
          (path, par) = (if sc \<in> set uses_params then split_params path0 else (path0, []))
      in if \<not> netloc_ok net then Inl ValueError
         else Inr \<lparr>u_scheme = sc, u_netloc = net, u_path = path, u_params = par,
                   u_query = opt_str qry, u_fragment = opt_str frag\<rparr>)"

section \<open>Putting together\<close>

definition urlunparse :: "url_parts \<Rightarrow> string" where
  "urlunparse u =
     (let p0 = (if u_params u \<noteq> [] then u_path u @ '';'' @ u_params u else u_path u);
          p1 = (if u_netloc u \<noteq> []
                then ''//'' @ u_netloc u @ (if p0 \<noteq> [] \<and> hd p0 \<noteq> CHR ''/'' then ''/'' @ p0 else p0)
                else if prefix ''//'' p0 then ''//'' @ p0
                else if u_scheme u \<noteq> [] \<and> u_scheme u \<in> set uses_netloc \<and> (p0 = [] \<or> hd p0 = CHR ''/'')
                then ''//'' @ p0
                else p0);
          p2 = (if u_scheme u \<noteq> [] then u_scheme u @ '':'' @ p1 else p1);
          p3 = (if u_query u \<noteq> [] then p2 @ ''?'' @ u_query u else p2)
      in if u_fragment u \<noteq> [] then p3 @ ''#'' @ u_fragment u else p3)"

section \<open>Joining\<close>

fun resolve_dots :: "string list \<Rightarrow> string list \<Rightarrow> string list" where
  "resolve_dots done0 [] = done0"
| "resolve_dots done0 (s # ss) =
     (if s = ''..'' then resolve_dots (butlast done0) ss
      else if s = ''.'' then resolve_dots done0 ss
      else resolve_dots (done0 @ [s]) ss)"

text \<open>Empty segments are dropped, but for the first and the last.\<close>

definition squeeze :: "string list \<Rightarrow> string list" where
  "squeeze xs = (case xs of
      [] \<Rightarrow> []
    | [x] \<Rightarrow> [x]
    | x # y # ys \<Rightarrow> x # filter (\<lambda>s. s \<noteq> []) (butlast (y # ys)) @ [last (y # ys)])"

definition join_path :: "string \<Rightarrow> string \<Rightarrow> string" where
  "join_path bpath path =
     (let bp = split_char CHR ''/'' bpath;
          base = (if last bp \<noteq> [] then butlast bp else bp);
          segs = (if path \<noteq> [] \<and> hd path = CHR ''/'' then split_char CHR ''/'' path
                  else squeeze (base @ split_char CHR ''/'' path));
          res = resolve_dots [] segs;
          res1 = (if last segs = ''.'' \<or> last segs = ''..'' then res @ [[]] else res);
          p = join_char CHR ''/'' res1
      in if p = [] then ''/'' else p)"

definition urljoin :: "string \<Rightarrow> string \<Rightarrow> exc + string" where
  "urljoin base url =
     (if base = [] then Inr url
      else if url = [] then Inr base
      else bind_res (urlparse base []) (\<lambda>b.
           bind_res (urlparse url (u_scheme b)) (\<lambda>u.
             if u_scheme u \<noteq> u_scheme b \<or> u_scheme u \<notin> set uses_relative then Inr url
             else if u_scheme u \<in> set uses_netloc \<and> u_netloc u \<noteq> [] then Inr (urlunparse u)
             else (let v = (if u_scheme u \<in> set uses_netloc then u\<lparr>u_netloc := u_netloc b\<rparr> else u) in
               if u_path u = [] \<and> u_params u = []
               then Inr (urlunparse (v\<lparr>u_path := u_path b, u_params := u_params b,
                      u_query := (if u_query u = [] then u_query b else u_query u)\<rparr>))
               else Inr (urlunparse (v\<lparr>u_path := join_path (u_path b) (u_path u)\<rparr>))))))"

section \<open>Relative paths stay on the host\<close>

lemma after_last_append: "c \<in> set b \<Longrightarrow> after_last c (a @ b) = after_last c b"
  by (simp add: after_last_def takeWhile_append1)

lemma before_char_append: "c \<notin> set a \<Longrightarrow> before_char c (a @ b) = a @ before_char c b"
  unfolding before_char_def by (subst takeWhile_append2) auto

lemma cut_fst: "fst (cut c s) = before_char c s"
  by (simp add: cut_def)

lemma split_params_prefix: "\<exists>r. fst (split_params (a @ CHR ''/'' # b)) = a @ CHR ''/'' # r"
proof -
  let ?p = "a @ CHR ''/'' # b" and ?l = "after_last CHR ''/'' (a @ CHR ''/'' # b)"
  have al: "?l = after_last CHR ''/'' (CHR ''/'' # b)" by (rule after_last_append) simp
  have "length (after_last CHR ''/'' (CHR ''/'' # b)) \<le> length b"
  proof (cases "CHR ''/'' \<in> set b")
    case True
    then have "after_last CHR ''/'' (CHR ''/'' # b) = after_last CHR ''/'' b"
      using after_last_append [of "CHR ''/''" b "[CHR ''/'']"] by simp
    then show ?thesis using length_takeWhile_le [of _ "rev b"] by (simp add: after_last_def)
  next
    case False
    then have "takeWhile (\<lambda>x. x \<noteq> CHR ''/'') (rev b @ [CHR ''/'']) = rev b"
      by (subst takeWhile_append2) auto
    then show ?thesis by (simp add: after_last_def)
  qed
  then have "length a + 1 \<le> length ?p - length ?l" using al by simp
  then have t: "take (length ?p - length ?l) ?p = a @ CHR ''/'' # take (length ?p - length ?l - length a - 1) b"
    by (simp add: take_Cons')
  show ?thesis
  proof (cases "cut CHR '';'' ?l")
    case (Pair x y)
    then show ?thesis
    proof (cases y)
      case None
      then show ?thesis using Pair by (simp add: split_params_def Let_def)
    next
      case (Some z)
      have "fst (split_params ?p) = take (length ?p - length ?l) ?p @ x"
        using Pair Some by (simp add: split_params_def Let_def)
      then show ?thesis by (simp only: t append.assoc append_Cons) blast
    qed
  qed
qed

text \<open>A relative path whose first segment is an ordinary word.\<close>

definition word_seg :: "string \<Rightarrow> bool" where
  "word_seg w \<longleftrightarrow> w \<noteq> [] \<and> (\<forall>c \<in> set w. is_alpha c \<or> is_digit c \<or> c = CHR ''-'')"

lemma word_seg_chars:
  assumes "word_seg w" "c \<in> set w"
  shows "c \<noteq> CHR ''/''" "c \<noteq> CHR '':''" "c \<noteq> CHR ''?''" "c \<noteq> CHR ''#''" "c \<noteq> CHR '';''"
    "\<not> is_c0_space c" "\<not> unsafe_url_char c"
  using assms by (auto simp: word_seg_def is_alpha_def is_digit_def is_c0_space_def unsafe_url_char_def)

lemma urlparse_relative:
  assumes w: "word_seg w"
  shows "\<exists>u r. urlparse (w @ CHR ''/'' # rest) sc = Inr u \<and> u_scheme u = sc \<and> u_netloc u = [] \<and>
    u_path u = w @ CHR ''/'' # r"
proof -
  note ch = word_seg_chars [OF w]
  have hd: "w = hd w # tl w" "hd w \<in> set w" using w by (auto simp: word_seg_def)
  have strip: "lstrip_if is_c0_space (w @ CHR ''/'' # rest) = w @ CHR ''/'' # rest"
    using ch(6) [OF hd(2)] hd(1) by (intro lstrip_if_id) (metis append_is_Nil_conv hd_append2 list.distinct(1))
  define url1 where "url1 = filter (\<lambda>c. \<not> unsafe_url_char c) (lstrip_if is_c0_space (w @ CHR ''/'' # rest))"
  have fw: "filter (\<lambda>c. \<not> unsafe_url_char c) w = w" using ch(7) by (simp add: filter_id_conv)
  have url1: "\<exists>t. url1 = w @ CHR ''/'' # t"
    unfolding url1_def strip by (simp add: fw) (simp add: unsafe_url_char_def)
  then obtain t where t: "url1 = w @ CHR ''/'' # t" by blast
  have sch: "cut_scheme sc url1 = (sc, url1)"
  proof -
    have "CHR '':'' \<notin> set (w @ [CHR ''/''])" using ch(2) by auto
    then have "before_char CHR '':'' url1 = (w @ [CHR ''/'']) @ before_char CHR '':'' t"
      unfolding t using before_char_append [of "CHR '':''" "w @ [CHR ''/'']" t] by simp
    then have "\<not> list_all scheme_char (before_char CHR '':'' url1)"
      by (simp add: scheme_char_def is_alpha_def is_digit_def)
    then show ?thesis by (auto simp: cut_scheme_def cut_def)
  qed
  have nopre: "\<not> prefix ''//'' url1" using t ch(1) [OF hd(2)] hd(1) by (cases w) auto
  have p: "\<exists>x. before_char CHR ''?'' (before_char CHR ''#'' url1) = w @ CHR ''/'' # x"
  proof -
    have "CHR ''#'' \<notin> set (w @ [CHR ''/''])" "CHR ''?'' \<notin> set (w @ [CHR ''/''])" using ch(3,4) by auto
    then have "before_char CHR ''?'' (before_char CHR ''#'' ((w @ [CHR ''/'']) @ t)) =
        (w @ [CHR ''/'']) @ before_char CHR ''?'' (before_char CHR ''#'' t)"
      by (metis before_char_append)
    then show ?thesis using t by simp
  qed
  then obtain x where x: "before_char CHR ''?'' (before_char CHR ''#'' url1) = w @ CHR ''/'' # x" by blast
  obtain r where r: "fst (split_params (w @ CHR ''/'' # x)) = w @ CHR ''/'' # r"
    using split_params_prefix by blast
  have "netloc_ok []" by (simp add: netloc_ok_def)
  then show ?thesis
    using sch nopre x r
    by (cases "split_params (w @ CHR ''/'' # x)")
      (auto simp: urlparse_def Let_def cut_def case_prod_beta simp flip: url1_def)
qed

definition rooted :: "string \<Rightarrow> string" where
  "rooted p = (if p \<noteq> [] \<and> hd p \<noteq> CHR ''/'' then ''/'' @ p else p)"

lemma rooted_ne: "p \<noteq> [] \<Longrightarrow> \<exists>q. rooted p = CHR ''/'' # q"
  by (cases p) (auto simp: rooted_def)

lemma urlunparse_on_host:
  assumes "u_netloc u \<noteq> []" "u_scheme u \<noteq> []" "u_path u \<noteq> []"
  shows "\<exists>q. urlunparse u = u_scheme u @ ''://'' @ u_netloc u @ CHR ''/'' # q"
proof -
  let ?p0 = "if u_params u \<noteq> [] then u_path u @ '';'' @ u_params u else u_path u"
  have ne: "?p0 \<noteq> []" using assms(3) by simp
  from rooted_ne [OF ne] obtain q where q: "rooted ?p0 = CHR ''/'' # q" by blast
  have "urlunparse u = (u_scheme u @ '':'' @ ''//'' @ u_netloc u @ rooted ?p0) @
      (if u_query u \<noteq> [] then ''?'' @ u_query u else []) @ (if u_fragment u \<noteq> [] then ''#'' @ u_fragment u else [])"
    using assms(1,2) by (simp add: urlunparse_def rooted_def [symmetric] Let_def)
  then show ?thesis unfolding q by simp
qed

lemma join_path_ne: "join_path b p \<noteq> []"
  by (simp add: join_path_def Let_def)

lemma urljoin_on_host:
  assumes b: "urlparse base [] = Inr b" "u_scheme b \<in> {''http'', ''https''}" "u_netloc b \<noteq> []" "base \<noteq> []"
    and w: "word_seg w"
  shows "\<exists>q. urljoin base (w @ CHR ''/'' # rest) = Inr (u_scheme b @ ''://'' @ u_netloc b @ CHR ''/'' # q)"
proof -
  obtain u r where u: "urlparse (w @ CHR ''/'' # rest) (u_scheme b) = Inr u" "u_scheme u = u_scheme b"
      "u_netloc u = []" "u_path u = w @ CHR ''/'' # r"
    using urlparse_relative [OF w, of rest "u_scheme b"] by blast
  have sch: "u_scheme b \<in> set uses_relative" "u_scheme b \<in> set uses_netloc" "u_scheme b \<noteq> []"
    using b(2) by (auto simp: uses_relative_def uses_netloc_def)
  let ?v = "u\<lparr>u_netloc := u_netloc b, u_path := join_path (u_path b) (u_path u)\<rparr>"
  have "urljoin base (w @ CHR ''/'' # rest) = Inr (urlunparse ?v)"
    using b u sch by (simp add: urljoin_def)
  moreover have "\<exists>q. urlunparse ?v = u_scheme ?v @ ''://'' @ u_netloc ?v @ CHR ''/'' # q"
    using b(3) sch(3) u(2) join_path_ne by (intro urlunparse_on_host) simp_all
  ultimately show ?thesis using u(2) by auto
qed

section \<open>Plain paths\<close>

text \<open>A segment that joining leaves alone, and a directory of such segments.\<close>

definition plain_char :: "char \<Rightarrow> bool" where
  "plain_char c \<longleftrightarrow> is_alpha c \<or> is_digit c \<or> c = CHR ''-'' \<or> c = CHR ''.'' \<or> c = CHR ''_''"

definition plain_word :: "string \<Rightarrow> bool" where
  "plain_word w \<longleftrightarrow> w \<noteq> [] \<and> list_all plain_char w"

definition plain_seg :: "string \<Rightarrow> bool" where
  "plain_seg w \<longleftrightarrow> w \<noteq> [] \<and> w \<noteq> ''.'' \<and> w \<noteq> ''..'' \<and> list_all plain_char w"

lemma plain_words: "list_all plain_seg ws \<Longrightarrow> list_all plain_word ws"
  by (auto simp: list_all_iff plain_seg_def plain_word_def)

definition slashed :: "string list \<Rightarrow> string" where
  "slashed ws = concat (map (\<lambda>w. w @ [CHR ''/'']) ws)"

lemma plain_char_not [simp]:
  "\<not> plain_char CHR ''/''" "\<not> plain_char CHR '':''" "\<not> plain_char CHR ''?''" "\<not> plain_char CHR ''#''"
  "\<not> plain_char CHR '';''" "\<not> plain_char CHR 0x5B" "\<not> plain_char CHR 0x5D"
  by (simp_all add: plain_char_def is_alpha_def is_digit_def)

lemma plain_char_safe: "plain_char c \<Longrightarrow> \<not> is_c0_space c \<and> \<not> unsafe_url_char c"
  by (auto simp: plain_char_def is_alpha_def is_digit_def is_c0_space_def unsafe_url_char_def)

lemma slashed_chars: "list_all plain_word ws \<Longrightarrow> c \<in> set (slashed ws) \<Longrightarrow> c = CHR ''/'' \<or> plain_char c"
  by (auto simp: slashed_def plain_word_def list_all_iff split: if_splits)

lemma squeeze_Cons: "zs \<noteq> [] \<Longrightarrow> squeeze (x # zs) = x # filter (\<lambda>s. s \<noteq> []) (butlast zs) @ [last zs]"
  by (cases zs) (simp_all add: squeeze_def)

lemma split_slashed: "list_all plain_word ws \<Longrightarrow> split_char CHR ''/'' (slashed ws) = ws @ [[]]"
proof (induction ws)
  case (Cons w ws)
  then have "CHR ''/'' \<notin> set w" by (auto simp: plain_word_def list_all_iff)
  then have "split_char CHR ''/'' (w @ CHR ''/'' # slashed ws) = w # split_char CHR ''/'' (slashed ws)"
    by (rule split_char_append)
  with Cons show ?case by (simp add: slashed_def)
qed (simp add: slashed_def)

lemma join_slashed: "join_char CHR ''/'' (ws @ [[]]) = slashed ws"
  by (induction ws rule: induct_list012) (simp_all add: slashed_def)

lemma resolve_plain: "(\<forall>s \<in> set ss. s \<noteq> ''.'' \<and> s \<noteq> ''..'') \<Longrightarrow> resolve_dots d ss = d @ ss"
  by (induction d ss rule: resolve_dots.induct) auto

lemma join_path_plain:
  assumes "list_all plain_seg bs" "list_all plain_seg ws" "ws \<noteq> []"
  shows "join_path (CHR ''/'' # slashed bs) (slashed ws) = CHR ''/'' # slashed (bs @ ws)"
proof -
  have bp: "split_char CHR ''/'' (CHR ''/'' # slashed bs) = [] # bs @ [[]]"
    using split_slashed [OF plain_words [OF assms(1)]] by simp
  have hd: "\<not> (slashed ws \<noteq> [] \<and> hd (slashed ws) = CHR ''/'')"
    using assms(2,3) by (cases ws) (auto simp: slashed_def plain_seg_def neq_Nil_conv)
  have ne: "filter (\<lambda>s. s \<noteq> []) bs = bs" "filter (\<lambda>s. s \<noteq> []) ws = ws"
    using assms(1,2) by (auto simp: filter_id_conv plain_seg_def list_all_iff)
  have sq: "squeeze ([] # bs @ [[]] @ ws @ [[]]) = [] # bs @ ws @ [[]]"
    using ne by (simp add: squeeze_Cons butlast_append)
  have "\<forall>s \<in> set ([] # bs @ ws @ [[]]). s \<noteq> ''.'' \<and> s \<noteq> ''..''"
    using assms(1,2) by (auto simp: plain_seg_def list_all_iff)
  then have "resolve_dots [] ([] # bs @ ws @ [[]]) = [] # bs @ ws @ [[]]"
    using resolve_plain by fastforce
  moreover have "join_char CHR ''/'' ([] # bs @ ws @ [[]]) = CHR ''/'' # slashed (bs @ ws)"
    using join_slashed [of "[] # bs @ ws"] by (simp add: slashed_def)
  ultimately show ?thesis
    using sq bp split_slashed [OF plain_words [OF assms(2)]] by (simp only: join_path_def Let_def hd if_False) simp
qed

text \<open>A base address as a deployment configures it.\<close>

definition base_addr :: "string \<Rightarrow> string \<Rightarrow> string list \<Rightarrow> string" where
  "base_addr sc n bs = sc @ ''://'' @ n @ CHR ''/'' # slashed bs"

definition plain_host :: "string \<Rightarrow> bool" where
  "plain_host n \<longleftrightarrow> n \<noteq> [] \<and> list_all (\<lambda>c. plain_char c \<or> c = CHR '':'') n"

lemma filter_none: "\<forall>c \<in> set s. \<not> P c \<Longrightarrow> filter (\<lambda>c. \<not> P c) s = s"
  by (simp add: filter_id_conv)

lemma cut_free: "c \<notin> set s \<Longrightarrow> cut c s = (s, None)"
  by (auto simp: cut_def before_char_def takeWhile_eq_all_conv)

lemma split_params_free: "CHR '';'' \<notin> set p \<Longrightarrow> split_params p = (p, [])"
proof -
  assume "CHR '';'' \<notin> set p"
  then have "CHR '';'' \<notin> set (after_last CHR ''/'' p)" using set_after_last by blast
  then show ?thesis by (simp add: split_params_def cut_free Let_def)
qed

definition path_char :: "char \<Rightarrow> bool" where
  "path_char c \<longleftrightarrow> plain_char c \<or> c = CHR ''/''"

lemma urlparse_addr:
  assumes sc: "sc \<in> {''http'', ''https'', ''ws'', ''wss''}" and n: "plain_host n" and p: "list_all path_char p"
  shows "urlparse (sc @ ''://'' @ n @ CHR ''/'' # p) [] = Inr \<lparr>u_scheme = sc, u_netloc = n, u_path = CHR ''/'' # p,
     u_params = [], u_query = [], u_fragment = []\<rparr>"
proof -
  define u where "u = sc @ ''://'' @ n @ CHR ''/'' # p"
  have nc: "c \<in> set n \<Longrightarrow> plain_char c \<or> c = CHR '':''" for c using n by (auto simp: plain_host_def list_all_iff)
  have pc: "c \<in> set p \<Longrightarrow> plain_char c \<or> c = CHR ''/''" for c using p by (auto simp: path_char_def list_all_iff)
  have un: "\<forall>c \<in> set u. \<not> unsafe_url_char c"
  proof
    fix c assume "c \<in> set u"
    then have "c \<in> set ''htpsw:/'' \<or> plain_char c"
      using sc nc [of c] pc [of c] by (auto simp: u_def)
    then show "\<not> unsafe_url_char c"
      using plain_char_safe [of c] by (auto simp: unsafe_url_char_def)
  qed
  have c0: "lstrip_if is_c0_space u = u"
    using sc by (intro lstrip_if_id) (auto simp: u_def is_c0_space_def)
  have sch: "cut_scheme [] u = (sc, ''//'' @ n @ CHR ''/'' # p)"
    using sc by (auto simp: u_def cut_scheme_def cut_def before_char_def scheme_char_def
        is_alpha_def is_digit_def lower_def lower_char_def Let_def)
  have ends: "\<forall>c \<in> set n. \<not> netloc_end c"
    using nc by (force simp: netloc_end_def)
  have net: "takeWhile (\<lambda>c. \<not> netloc_end c) (n @ CHR ''/'' # p) = n"
    "dropWhile (\<lambda>c. \<not> netloc_end c) (n @ CHR ''/'' # p) = CHR ''/'' # p"
    using ends by (auto simp: takeWhile_append2 dropWhile_append2 netloc_end_def)
  have free: "c \<notin> set (CHR ''/'' # p)" if "\<not> plain_char c" "c \<noteq> CHR ''/''" for c
    using pc that by auto
  have nb: "CHR 0x5B \<notin> set n" "CHR 0x5D \<notin> set n" using nc by force+
  have "netloc_ok n" using nb by (simp add: netloc_ok_def)
  then have "urlparse u [] = Inr \<lparr>u_scheme = sc, u_netloc = n, u_path = CHR ''/'' # p,
     u_params = [], u_query = [], u_fragment = []\<rparr>"
    using net free [of "CHR ''#''"] free [of "CHR ''?''"] free [of "CHR '';''"]
    by (simp add: urlparse_def Let_def c0 filter_none [OF un] sch cut_free split_params_free opt_str_def)
  then show ?thesis by (simp only: u_def)
qed

lemma urlparse_base:
  assumes sc: "sc \<in> {''http'', ''https''}" and n: "plain_host n" and bs: "list_all plain_seg bs"
  shows "urlparse (base_addr sc n bs) [] = Inr \<lparr>u_scheme = sc, u_netloc = n, u_path = CHR ''/'' # slashed bs,
     u_params = [], u_query = [], u_fragment = []\<rparr>"
proof -
  have "list_all path_char (slashed bs)"
    using slashed_chars [OF plain_words [OF bs]] by (auto simp: list_all_iff path_char_def)
  with urlparse_addr [of sc n "slashed bs"] sc n show ?thesis by (auto simp: base_addr_def)
qed

lemma urlparse_plain:
  assumes "list_all plain_word ws" "ws \<noteq> []" "sc \<in> set uses_params"
  shows "urlparse (slashed ws) sc = Inr \<lparr>u_scheme = sc, u_netloc = [], u_path = slashed ws,
     u_params = [], u_query = [], u_fragment = []\<rparr>"
proof -
  have hd: "slashed ws \<noteq> []" "plain_char (hd (slashed ws))"
    using assms(1,2) by (cases ws; auto simp: slashed_def plain_word_def neq_Nil_conv)+
  have free: "c \<notin> set (slashed ws)" if "\<not> plain_char c" "c \<noteq> CHR ''/''" for c
    using slashed_chars [OF assms(1)] that by auto
  have un: "\<forall>c \<in> set (slashed ws). \<not> unsafe_url_char c"
  proof
    fix c assume "c \<in> set (slashed ws)"
    then have "c = CHR ''/'' \<or> plain_char c" by (rule slashed_chars [OF assms(1)])
    then show "\<not> unsafe_url_char c" using plain_char_safe [of c] by (auto simp: unsafe_url_char_def)
  qed
  have "lstrip_if is_c0_space (slashed ws) = slashed ws"
    using hd plain_char_safe by (intro lstrip_if_id) auto
  moreover have "\<not> prefix ''//'' (slashed ws)" using hd by (cases "slashed ws") auto
  moreover have "cut_scheme sc (slashed ws) = (sc, slashed ws)"
    using free [of "CHR '':''"] by (simp add: cut_scheme_def cut_free)
  ultimately show ?thesis
    using assms(3) free [of "CHR ''#''"] free [of "CHR ''?''"] free [of "CHR '';''"]
    by (simp add: urlparse_def Let_def filter_none [OF un] cut_free split_params_free opt_str_def netloc_ok_def)
qed

lemma urljoin_plain:
  assumes sc: "sc \<in> {''http'', ''https''}" and n: "plain_host n" and bs: "list_all plain_seg bs"
    and ws: "list_all plain_seg ws" "ws \<noteq> []"
  shows "urljoin (base_addr sc n bs) (slashed ws) = Inr (base_addr sc n bs @ slashed ws)"
proof -
  have u: "sc \<in> set uses_params" "sc \<in> set uses_relative" "sc \<in> set uses_netloc" "sc \<noteq> []"
    using sc by (auto simp: uses_params_def uses_relative_def uses_netloc_def)
  have ne: "base_addr sc n bs \<noteq> []" "slashed ws \<noteq> []" "n \<noteq> []"
    using ws(2) n by (auto simp: base_addr_def slashed_def plain_host_def neq_Nil_conv)
  show ?thesis
    using u ne join_path_plain [OF bs ws]
    by (simp add: urljoin_def urlparse_base [OF sc n bs] urlparse_plain [OF plain_words [OF ws(1)] ws(2) u(1)] urlunparse_def Let_def)
       (simp add: base_addr_def slashed_def)
qed

text \<open>A dot-dot segment takes back the one before it.\<close>

lemma resolve_dots_append: "resolve_dots d (a @ b) = resolve_dots (resolve_dots d a) b"
  by (induction d a rule: resolve_dots.induct) simp_all

lemma urljoin_back:
  assumes sc: "sc \<in> {''http'', ''https''}" and n: "plain_host n" and bs: "list_all plain_seg bs"
    and ws: "list_all plain_seg ws" "ws \<noteq> []" and w: "plain_seg w"
  shows "urljoin (base_addr sc n bs) (slashed (w # ''..'' # ws)) = Inr (base_addr sc n bs @ slashed ws)"
proof -
  let ?vs = "w # ''..'' # ws"
  have vs: "list_all plain_word ?vs" "?vs \<noteq> []"
    using plain_words [OF ws(1)] plain_words [of "[w]"] w by (auto simp: plain_word_def plain_char_def)
  have u: "sc \<in> set uses_params" "sc \<in> set uses_relative" "sc \<in> set uses_netloc" "sc \<noteq> []"
    using sc by (auto simp: uses_params_def uses_relative_def uses_netloc_def)
  have ne: "base_addr sc n bs \<noteq> []" "slashed ?vs \<noteq> []" "n \<noteq> []"
    using n by (auto simp: base_addr_def slashed_def plain_host_def)
  have hd: "\<not> (slashed ?vs \<noteq> [] \<and> hd (slashed ?vs) = CHR ''/'')"
    using w by (cases w) (auto simp: slashed_def plain_seg_def)
  have full: "filter (\<lambda>s. s \<noteq> []) bs = bs" "filter (\<lambda>s. s \<noteq> []) ws = ws" "w \<noteq> []" "w \<noteq> ''.''" "w \<noteq> ''..''"
    using bs ws w by (auto simp: filter_id_conv plain_seg_def list_all_iff)
  have nodots: "\<forall>s \<in> set ([] # bs). s \<noteq> ''.'' \<and> s \<noteq> ''..''" "\<forall>s \<in> set (ws @ [[]]). s \<noteq> ''.'' \<and> s \<noteq> ''..''"
    using bs ws(1) by (auto simp: plain_seg_def list_all_iff)
  have bp: "split_char CHR ''/'' (CHR ''/'' # slashed bs) = [] # bs @ [[]]"
    using split_slashed [OF plain_words [OF bs]] by simp
  have sq: "squeeze ([] # bs @ [[]] @ ?vs @ [[]]) = ([] # bs) @ [w, ''..''] @ ws @ [[]]"
    using full by (simp add: squeeze_Cons butlast_append)
  have "resolve_dots [] ([] # bs) = [] # bs" "resolve_dots ([] # bs) (ws @ [[]]) = [] # bs @ ws @ [[]]"
    using resolve_plain [OF nodots(1), of "[]"] resolve_plain [OF nodots(2), of "[] # bs"] by simp_all
  moreover have "resolve_dots ([] # bs) [w, ''..''] = [] # bs" using full by simp
  ultimately have "resolve_dots [] (([] # bs) @ [w, ''..''] @ ws @ [[]]) = [] # bs @ ws @ [[]]"
    by (simp only: resolve_dots_append)
  moreover have "join_char CHR ''/'' ([] # bs @ ws @ [[]]) = CHR ''/'' # slashed (bs @ ws)"
    using join_slashed [of "[] # bs @ ws"] by (simp add: slashed_def)
  ultimately have "join_path (CHR ''/'' # slashed bs) (slashed ?vs) = CHR ''/'' # slashed (bs @ ws)"
    using sq bp split_slashed [OF vs(1)] by (simp only: join_path_def Let_def hd if_False) simp
  then show ?thesis
    using u ne
    by (simp add: urljoin_def urlparse_base [OF sc n bs] urlparse_plain [OF vs u(1)] urlunparse_def Let_def)
       (simp add: base_addr_def slashed_def)
qed

end
