(* ===== verification/Client.thy ===== *)
theory Client
  imports Url Config
begin

text \<open>
  The client of the LAVA REST API, \<^verbatim>\<open>lava_mcp/client.py\<close>. The LAVA server is a
  parameter: what it answers to a request may depend on all the requests before it. The
  state is the log of requests sent, so that what is sent, to which address and with which
  token is part of the model. Reading YAML is a parameter too.
\<close>

section \<open>The outside\<close>

record http_req =
  q_method :: string
  q_url :: string
  q_params :: "(string \<times> jval) list option"
  q_json :: "jval option"
  q_auth :: "string option"
  q_timeout :: rat

record http_resp =
  h_status :: int
  h_text :: string
  h_json :: "jval option"

text \<open>
  \<open>ex_http\<close> answers a request given the ones before it, or fails with the text of a
  \<^verbatim>\<open>requests\<close> exception; \<open>ex_load\<close> and \<open>ex_dump\<close> read and write YAML;
  \<open>ex_float\<close> prints a float.
\<close>

record lava_ext =
  ex_http :: "http_req list \<Rightarrow> http_req \<Rightarrow> string + http_resp"
  ex_load :: "string \<Rightarrow> exc + jval"
  ex_dump :: "jval \<Rightarrow> string"
  ex_float :: "rat \<Rightarrow> string"

type_synonym 'a lava = "(http_req list, exc, 'a) act"

section \<open>Building a client\<close>

record lava_client =
  lc_base :: string
  lc_auth :: "string option"
  lc_timeout :: rat

definition make_client :: "config \<Rightarrow> lava_client" where
  "make_client cfg = \<lparr>lc_base = rstrip_char CHR ''/'' (cf_url cfg) @ ''/api/'' @ cf_api_version cfg @ ''/'',
     lc_auth = (case cf_token cfg of Some t \<Rightarrow> if t \<noteq> [] then Some (''Token '' @ t) else None | None \<Rightarrow> None),
     lc_timeout = cf_timeout cfg\<rparr>"

definition header_of :: "headers option \<Rightarrow> string \<Rightarrow> string option" where
  "header_of hdrs k = (case hdrs of None \<Rightarrow> None | Some hs \<Rightarrow> if hs = [] then None else header hs k)"

definition nonempty :: "string option \<Rightarrow> string option" where
  "nonempty x = (case x of Some s \<Rightarrow> if s = [] then None else Some s | None \<Rightarrow> None)"

definition client_from :: "config \<Rightarrow> headers option \<Rightarrow> exc + lava_client" where
  "client_from cfg hdrs =
     (let header_url = header_of hdrs ''x-lava-url'';
          header_token = header_of hdrs ''x-lava-token'';
          url = (if cf_url cfg \<noteq> [] then Some (cf_url cfg) else header_url);
          token = (if nonempty header_token \<noteq> None then header_token else cf_token cfg)
      in case nonempty url of
           None \<Rightarrow> Inl (LavaError
             (''No LAVA URL: set LAVA_URL on the server to pin it to a LAVA '' @
              ''instance, or send an '' @ [char_of (39::nat)] @ ''X-Lava-Url'' @ [char_of (39::nat)] @
              '' header (with '' @ [char_of (39::nat)] @ ''X-Lava-Token'' @ [char_of (39::nat)] @ '').''))
         | Some u \<Rightarrow> Inr (make_client (cfg\<lparr>cf_url := u, cf_token := token\<rparr>)))"

section \<open>Requests\<close>

definition clean :: "(string \<times> jval) list \<Rightarrow> (string \<times> jval) list option" where
  "clean ps = (if ps = [] then None else Some (filter (\<lambda>(k, v). v \<noteq> JNull) ps))"

definition request :: "lava_ext \<Rightarrow> lava_client \<Rightarrow> string \<Rightarrow> string \<Rightarrow> (string \<times> jval) list \<Rightarrow> jval option \<Rightarrow>
    http_resp lava" where
  "request X c meth path ps js =
     bind_act (lift_res (urljoin (lc_base c) (lstrip_char CHR ''/'' path))) (\<lambda>url. (\<lambda>log.
       let q = \<lparr>q_method = meth, q_url = url, q_params = clean ps, q_json = js,
                q_auth = lc_auth c, q_timeout = lc_timeout c\<rparr>
       in (case ex_http X log q of
            Inl m \<Rightarrow> Inl (LavaError (''request to '' @ url @ '' failed: '' @ m))
          | Inr r \<Rightarrow> if h_status r \<ge> 400
              then Inl (LavaError (meth @ '' '' @ url @ '' -> HTTP '' @ str_int (h_status r) @ '': '' @ take 500 (h_text r)))
              else Inr r,
          log @ [q])))"

definition resp_json :: "http_resp \<Rightarrow> exc + jval" where
  "resp_json r = (case h_json r of None \<Rightarrow> Inl ValueError | Some v \<Rightarrow> Inr v)"

definition get_json :: "lava_ext \<Rightarrow> lava_client \<Rightarrow> string \<Rightarrow> (string \<times> jval) list \<Rightarrow> jval lava" where
  "get_json X c path ps = bind_act (request X c ''GET'' path ps None) (\<lambda>r. lift_res (resp_json r))"

definition list_page :: "lava_ext \<Rightarrow> lava_client \<Rightarrow> string \<Rightarrow> int \<Rightarrow> (string \<times> jval) list \<Rightarrow> jval lava" where
  "list_page X c path limit filters =
     bind_act (get_json X c path ((''limit'', JInt limit) # filters)) (\<lambda>data. lift_res (case data of
        JDict d \<Rightarrow> (case item_of d ''results'' of
            Some rs \<Rightarrow> Inr (obj [(''count'', case item_of d ''count'' of None \<Rightarrow> JNull | Some n \<Rightarrow> n), (''results'', rs)])
          | None \<Rightarrow> bind_res (py_len data) (\<lambda>n. Inr (obj [(''count'', JInt n), (''results'', data)])))
      | _ \<Rightarrow> bind_res (py_len data) (\<lambda>n. Inr (obj [(''count'', JInt n), (''results'', data)]))))"

definition maybe_json :: "http_resp \<Rightarrow> jval" where
  "maybe_json r = (case h_json r of
      Some v \<Rightarrow> v
    | None \<Rightarrow> obj [(''status'', JInt (h_status r)), (''text'', JStr (take 200 (h_text r)))])"

section \<open>The operations\<close>

definition whoami :: "lava_ext \<Rightarrow> lava_client \<Rightarrow> jval lava" where
  "whoami X c = get_json X c ''system/whoami/'' []"

definition version :: "lava_ext \<Rightarrow> lava_client \<Rightarrow> jval lava" where
  "version X c = get_json X c ''system/version/'' []"

definition list_devices :: "lava_ext \<Rightarrow> lava_client \<Rightarrow> int \<Rightarrow> (string \<times> jval) list \<Rightarrow> jval lava" where
  "list_devices X c limit filters = list_page X c ''devices/'' limit filters"

definition get_device :: "lava_ext \<Rightarrow> lava_client \<Rightarrow> string \<Rightarrow> jval lava" where
  "get_device X c host = get_json X c (''devices/'' @ host @ ''/'') []"

definition get_device_dictionary :: "lava_ext \<Rightarrow> lava_client \<Rightarrow> string \<Rightarrow> bool \<Rightarrow> string lava" where
  "get_device_dictionary X c host render =
     bind_act (request X c ''GET'' (''devices/'' @ host @ ''/dictionary/'')
       (if render then [(''render'', JStr ''true'')] else []) None) (\<lambda>r. ret (h_text r))"

definition load_dict :: "lava_ext \<Rightarrow> string \<Rightarrow> exc + jval" where
  "load_dict X s = bind_res (ex_load X s) (\<lambda>v. Inr (py_or v (obj [])))"

text \<open>\<^verbatim>\<open>sorted(keys)\<close>: strings among themselves, numbers among themselves.\<close>

fun num_key :: "jval \<Rightarrow> rat option" where
  "num_key (JInt i) = Some (of_int i)"
| "num_key (JFloat x) = Some x"
| "num_key (JBool b) = Some (if b then 1 else 0)"
| "num_key _ = None"

fun str_key :: "jval \<Rightarrow> string option" where
  "str_key (JStr s) = Some s"
| "str_key _ = None"

fun insert_num :: "jval \<Rightarrow> jval list \<Rightarrow> jval list" where
  "insert_num x [] = [x]"
| "insert_num x (y # ys) = (if the (num_key x) \<le> the (num_key y) then x # y # ys else y # insert_num x ys)"

definition sort_keys :: "jval list \<Rightarrow> exc + jval list" where
  "sort_keys ks =
     (if length ks \<le> 1 then Inr ks
      else if list_all (\<lambda>k. str_key k \<noteq> None) ks then Inr (map JStr (sort_strs (map (\<lambda>k. the (str_key k)) ks)))
      else if list_all (\<lambda>k. num_key k \<noteq> None) ks then Inr (foldr insert_num ks [])
      else Inl TypeError)"

definition methods_of :: "jval \<Rightarrow> string \<Rightarrow> exc + jval" where
  "methods_of actions k =
     bind_res (py_get actions k (obj [])) (\<lambda>d. bind_res (py_get d ''methods'' (obj [])) (\<lambda>m. Inr (py_or m (obj []))))"

definition qdl_info :: "string \<Rightarrow> jval \<Rightarrow> exc + jval" where
  "qdl_info host data =
     bind_res (if is_dict data then py_get data ''actions'' (obj []) else Inr (obj [])) (\<lambda>actions.
     bind_res (methods_of actions ''deploy'') (\<lambda>deploy.
     bind_res (methods_of actions ''boot'') (\<lambda>boot.
     bind_res (py_in ''qdl'' deploy) (\<lambda>in_deploy.
     bind_res (if in_deploy then Inr True else py_in ''qdl'' boot) (\<lambda>supports.
     bind_res (py_get deploy ''qdl'' JNull) (\<lambda>qd.
     bind_res (py_get boot ''qdl'' JNull) (\<lambda>qb.
     bind_res (bind_res (py_keys deploy) sort_keys) (\<lambda>dk.
     bind_res (bind_res (py_keys boot) sort_keys) (\<lambda>bk.
       Inr (obj [(''hostname'', JStr host), (''supports_qdl'', JBool supports), (''qdl_deploy'', qd),
         (''qdl_boot'', qb), (''deploy_methods'', JList dk), (''boot_methods'', JList bk)]))))))))))"

definition get_qdl_info :: "lava_ext \<Rightarrow> lava_client \<Rightarrow> string \<Rightarrow> jval lava" where
  "get_qdl_info X c host = bind_act (get_device_dictionary X c host True) (\<lambda>t.
     lift_res (bind_res (load_dict X t) (qdl_info host)))"

text \<open>
  The serial console's connect command: of the first connection tagged primary, else of the
  first connection, else of the device.
\<close>

fun primary_conn :: "jval list \<Rightarrow> exc + jval" where
  "primary_conn [] = Inr JNull"
| "primary_conn (v # vs) =
     (if is_dict v
      then bind_res (py_get v ''tags'' JNull) (\<lambda>t. bind_res (py_in ''primary'' (py_or t (JList []))) (\<lambda>b.
        if b then py_get v ''connect'' JNull else primary_conn vs))
      else primary_conn vs)"

definition connect_command :: "jval \<Rightarrow> exc + string option" where
  "connect_command data =
     bind_res (if is_dict data then py_get data ''commands'' (obj []) else Inr (obj [])) (\<lambda>commands.
     bind_res (py_get commands ''connections'' (obj [])) (\<lambda>conns0.
     (let conns = py_or conns0 (obj []) in
     bind_res (py_values conns) (\<lambda>vs.
     bind_res (primary_conn vs) (\<lambda>cmd0.
     bind_res (if cmd0 = JNull \<and> vs \<noteq> []
               then (if is_dict (hd vs) then py_get (hd vs) ''connect'' JNull else Inr JNull) else Inr cmd0) (\<lambda>cmd1.
     bind_res (if cmd1 = JNull then py_get commands ''connect'' JNull else Inr cmd1) (\<lambda>cmd.
       Inr (case cmd of JStr s \<Rightarrow> Some s | _ \<Rightarrow> None))))))))"

definition console_connection_command :: "lava_ext \<Rightarrow> lava_client \<Rightarrow> string \<Rightarrow> string option lava" where
  "console_connection_command X c host = bind_act (get_device_dictionary X c host True) (\<lambda>t.
     lift_res (bind_res (load_dict X t) connect_command))"

definition ser2net_endpoint :: "string \<Rightarrow> (string \<times> string) option" where
  "ser2net_endpoint cmd = (case split_ws cmd of
      p0 # p1 # p2 # _ \<Rightarrow>
        if p0 \<in> {''telnet'', ''nc'', ''ncat''} \<and> contains ''ser2net'' cmd then Some (p1, p2) else None
    | _ \<Rightarrow> None)"

definition console_endpoint :: "lava_ext \<Rightarrow> lava_client \<Rightarrow> string \<Rightarrow> (string \<times> string) option lava" where
  "console_endpoint X c host = bind_act (console_connection_command X c host) (\<lambda>cmd.
     ret (ser2net_endpoint (case cmd of None \<Rightarrow> [] | Some s \<Rightarrow> s)))"

definition dict_allows_test_services :: "lava_ext \<Rightarrow> string \<Rightarrow> exc + bool" where
  "dict_allows_test_services X t = bind_res (load_dict X t) (\<lambda>data.
     if \<not> is_dict data then Inr False
     else bind_res (py_get data ''parameters'' JNull) (\<lambda>p0.
       (let p = py_or p0 (obj []) in
        if \<not> is_dict p then Inr False
        else bind_res (py_get p ''allow_test_services'' JNull) (\<lambda>v. Inr (v = JBool True)))))"

definition allows_test_services :: "lava_ext \<Rightarrow> lava_client \<Rightarrow> string \<Rightarrow> bool lava" where
  "allows_test_services X c host = bind_act (get_device_dictionary X c host True) (\<lambda>t.
     lift_res (dict_allows_test_services X t))"

definition list_device_types :: "lava_ext \<Rightarrow> lava_client \<Rightarrow> int \<Rightarrow> (string \<times> jval) list \<Rightarrow> jval lava" where
  "list_device_types X c limit filters = list_page X c ''devicetypes/'' limit filters"

definition list_workers :: "lava_ext \<Rightarrow> lava_client \<Rightarrow> int \<Rightarrow> jval lava" where
  "list_workers X c limit = list_page X c ''workers/'' limit []"

definition list_jobs :: "lava_ext \<Rightarrow> lava_client \<Rightarrow> int \<Rightarrow> (string \<times> jval) list \<Rightarrow> jval lava" where
  "list_jobs X c limit filters = list_page X c ''jobs/'' limit filters"

text \<open>A job id is an integer or whatever a caller read from an answer; it is printed into the path.\<close>

definition job_path :: "lava_ext \<Rightarrow> jval \<Rightarrow> string \<Rightarrow> string" where
  "job_path X j rest = ''jobs/'' @ py_str (ex_float X) j @ ''/'' @ rest"

definition get_job :: "lava_ext \<Rightarrow> lava_client \<Rightarrow> jval \<Rightarrow> jval lava" where
  "get_job X c j = get_json X c (job_path X j []) []"

definition definition_of :: "jval \<Rightarrow> exc + jval" where
  "definition_of job = bind_res (py_get job ''original_definition'' JNull) (\<lambda>a.
     if truthy a then Inr a
     else bind_res (py_get job ''definition'' JNull) (\<lambda>b. Inr (py_or b (JStr []))))"

definition get_job_definition :: "lava_ext \<Rightarrow> lava_client \<Rightarrow> jval \<Rightarrow> jval lava" where
  "get_job_definition X c j = bind_act (get_job X c j) (\<lambda>job. lift_res (definition_of job))"

definition get_job_logs :: "lava_ext \<Rightarrow> lava_client \<Rightarrow> jval \<Rightarrow> int option \<Rightarrow> int option \<Rightarrow> string lava" where
  "get_job_logs X c j lo hi =
     bind_act (request X c ''GET'' (job_path X j ''logs/'') [(''start'', jopt JInt lo), (''end'', jopt JInt hi)] None)
       (\<lambda>r. ret (h_text r))"

definition get_job_results :: "lava_ext \<Rightarrow> lava_client \<Rightarrow> jval \<Rightarrow> int \<Rightarrow> jval lava" where
  "get_job_results X c j limit = list_page X c (job_path X j ''tests/'') limit []"

definition dashboard_queue :: "lava_ext \<Rightarrow> lava_client \<Rightarrow> jval lava" where
  "dashboard_queue X c = get_json X c ''dashboard/queue/'' []"

definition dashboard_running :: "lava_ext \<Rightarrow> lava_client \<Rightarrow> jval lava" where
  "dashboard_running X c = get_json X c ''dashboard/running/'' []"

definition dashboard_lab_health :: "lava_ext \<Rightarrow> lava_client \<Rightarrow> jval lava" where
  "dashboard_lab_health X c = get_json X c ''dashboard/lab-health/'' []"

definition validate_job :: "lava_ext \<Rightarrow> lava_client \<Rightarrow> string \<Rightarrow> jval lava" where
  "validate_job X c d = bind_act (request X c ''POST'' ''jobs/validate/'' [] (Some (obj [(''definition'', JStr d)])))
     (\<lambda>r. lift_res (resp_json r))"

definition submit_job :: "lava_ext \<Rightarrow> lava_client \<Rightarrow> string \<Rightarrow> jval lava" where
  "submit_job X c d = bind_act (request X c ''POST'' ''jobs/'' [] (Some (obj [(''definition'', JStr d)])))
     (\<lambda>r. lift_res (resp_json r))"

definition cancel_job :: "lava_ext \<Rightarrow> lava_client \<Rightarrow> jval \<Rightarrow> jval lava" where
  "cancel_job X c j = bind_act (request X c ''GET'' (job_path X j ''cancel/'') [] None) (\<lambda>r. ret (maybe_json r))"

definition resubmit_job :: "lava_ext \<Rightarrow> lava_client \<Rightarrow> jval \<Rightarrow> jval lava" where
  "resubmit_job X c j = bind_act (request X c ''POST'' (job_path X j ''resubmit/'') [] None) (\<lambda>r. ret (maybe_json r))"

definition add_remote_token :: "lava_ext \<Rightarrow> lava_client \<Rightarrow> string \<Rightarrow> string \<Rightarrow> unit lava" where
  "add_remote_token X c name token =
     bind_act (request X c ''POST'' ''remote-artifact-tokens/'' [] (Some (obj [(''name'', JStr name), (''token'', JStr token)])))
       (\<lambda>_. ret ())"

definition delete_remote_token :: "lava_ext \<Rightarrow> lava_client \<Rightarrow> string \<Rightarrow> unit lava" where
  "delete_remote_token X c name =
     bind_act (request X c ''DELETE'' (''remote-artifact-tokens/'' @ name @ ''/'') [] None) (\<lambda>_. ret ())"

definition list_remote_tokens :: "lava_ext \<Rightarrow> lava_client \<Rightarrow> jval lava" where
  "list_remote_tokens X c = get_json X c ''remote-artifact-tokens/'' []"


section \<open>Sessions of calls\<close>

text \<open>One call of the client, whichever operation it is; what it returns is one value.\<close>

datatype lava_call =
    Whoami | Version
  | ListDevices int "(string \<times> jval) list"
  | GetDevice string
  | DeviceDictionary string bool
  | QdlInfo string
  | ConsoleEndpoint string
  | AllowsTestServices string
  | ListDeviceTypes int "(string \<times> jval) list"
  | ListWorkers int
  | ListJobs int "(string \<times> jval) list"
  | GetJob jval
  | JobDefinition jval
  | JobLogs jval "int option" "int option"
  | JobResults jval int
  | DashQueue | DashRunning | DashHealth
  | ValidateJob string
  | SubmitJob string
  | CancelJob jval
  | ResubmitJob jval
  | AddToken string string
  | DeleteToken string
  | ListTokens

definition map_act :: "('a \<Rightarrow> 'b) \<Rightarrow> 'a lava \<Rightarrow> 'b lava" where
  "map_act f m = bind_act m (\<lambda>x. ret (f x))"

fun run_call :: "lava_ext \<Rightarrow> lava_client \<Rightarrow> lava_call \<Rightarrow> jval lava" where
  "run_call X c Whoami = whoami X c"
| "run_call X c Version = version X c"
| "run_call X c (ListDevices l f) = list_devices X c l f"
| "run_call X c (GetDevice h) = get_device X c h"
| "run_call X c (DeviceDictionary h b) = map_act JStr (get_device_dictionary X c h b)"
| "run_call X c (QdlInfo h) = get_qdl_info X c h"
| "run_call X c (ConsoleEndpoint h) =
     map_act (jopt (\<lambda>(a, b). JList [JStr a, JStr b])) (console_endpoint X c h)"
| "run_call X c (AllowsTestServices h) = map_act JBool (allows_test_services X c h)"
| "run_call X c (ListDeviceTypes l f) = list_device_types X c l f"
| "run_call X c (ListWorkers l) = list_workers X c l"
| "run_call X c (ListJobs l f) = list_jobs X c l f"
| "run_call X c (GetJob j) = get_job X c j"
| "run_call X c (JobDefinition j) = get_job_definition X c j"
| "run_call X c (JobLogs j a b) = map_act JStr (get_job_logs X c j a b)"
| "run_call X c (JobResults j l) = get_job_results X c j l"
| "run_call X c DashQueue = dashboard_queue X c"
| "run_call X c DashRunning = dashboard_running X c"
| "run_call X c DashHealth = dashboard_lab_health X c"
| "run_call X c (ValidateJob d) = validate_job X c d"
| "run_call X c (SubmitJob d) = submit_job X c d"
| "run_call X c (CancelJob j) = cancel_job X c j"
| "run_call X c (ResubmitJob j) = resubmit_job X c j"
| "run_call X c (AddToken n t) = map_act (\<lambda>_. JNull) (add_remote_token X c n t)"
| "run_call X c (DeleteToken n) = map_act (\<lambda>_. JNull) (delete_remote_token X c n)"
| "run_call X c ListTokens = list_remote_tokens X c"

text \<open>The requests a sequence of calls leaves behind, whichever of them fail.\<close>

definition requests_of :: "lava_ext \<Rightarrow> lava_client \<Rightarrow> lava_call list \<Rightarrow> http_req list" where
  "requests_of X c calls = fold (\<lambda>k lg. snd (run_call X c k lg)) calls []"

section \<open>A client of a deployment\<close>

text \<open>
  The address a deployment configures: a scheme, a host (with a port or not) and ordinary
  path segments, ended by any number of slashes.
\<close>

definition lava_url :: "string \<Rightarrow> string \<Rightarrow> string list \<Rightarrow> string \<Rightarrow> bool" where
  "lava_url sc n bs u \<longleftrightarrow> sc \<in> {''http'', ''https''} \<and> plain_host n \<and> list_all plain_seg bs \<and>
     (\<exists>k. u = sc @ ''://'' @ n @ concat (map (\<lambda>w. CHR ''/'' # w) bs) @ replicate k CHR ''/'')"

lemma slashed_shift: "concat (map (\<lambda>w. CHR ''/'' # w) bs) @ ''/'' = CHR ''/'' # slashed bs"
  by (induction bs) (simp_all add: slashed_def)

lemma slashed_append: "slashed (a @ b) = slashed a @ slashed b"
  by (simp add: slashed_def)

lemma rstrip_slashes:
  assumes "s \<noteq> []" "last s \<noteq> CHR ''/''"
  shows "rstrip_char CHR ''/'' (s @ replicate k CHR ''/'') = s"
proof -
  have "dropWhile (\<lambda>x. x = CHR ''/'') (rev s) = rev s"
    using assms by (simp add: dropWhile_eq_self_iff hd_rev)
  moreover have "dropWhile P (replicate k c @ t) = dropWhile P t" if "P c" for P and c :: char and t
    using that by (induction k) auto
  ultimately show ?thesis by (simp add: rstrip_if_def)
qed

lemma last_segs: "list_all plain_seg bs \<Longrightarrow> plain_host n \<Longrightarrow>
    last (sc @ ''://'' @ n @ concat (map (\<lambda>w. CHR ''/'' # w) bs)) \<noteq> CHR ''/''"
proof -
  assume bs: "list_all plain_seg bs" and n: "plain_host n"
  have plain: "plain_char c \<or> c = CHR '':'' \<Longrightarrow> c \<noteq> CHR ''/''" for c by auto
  show ?thesis
  proof (cases bs rule: rev_cases)
    case Nil
    then have "last (sc @ ''://'' @ n @ concat (map (\<lambda>w. CHR ''/'' # w) bs)) = last n" "last n \<in> set n"
      using n by (simp_all add: plain_host_def)
    then show ?thesis using n plain [of "last n"] by (simp add: plain_host_def list_all_iff)
  next
    case (snoc xs x)
    then have "last x \<in> set x" "x \<noteq> []" "list_all plain_char x" using bs by (auto simp: plain_seg_def)
    then show ?thesis using snoc plain [of "last x"] by (simp add: list_all_iff)
  qed
qed

lemma make_client_base:
  assumes "lava_url sc n bs (cf_url cfg)"
  shows "lc_base (make_client cfg) = base_addr sc n (bs @ [''api'', cf_api_version cfg])"
proof -
  let ?s = "sc @ ''://'' @ n @ concat (map (\<lambda>w. CHR ''/'' # w) bs)"
  obtain k where u: "cf_url cfg = ?s @ replicate k CHR ''/''" "list_all plain_seg bs" "plain_host n"
    using assms by (auto simp: lava_url_def)
  have "rstrip_char CHR ''/'' (cf_url cfg) = ?s"
    unfolding u(1) by (rule rstrip_slashes) (use last_segs [OF u(2,3)] in simp_all)
  then have "lc_base (make_client cfg) = ?s @ ''/api/'' @ cf_api_version cfg @ ''/''"
    by (simp add: make_client_def)
  also have "\<dots> = sc @ ''://'' @ n @ (concat (map (\<lambda>w. CHR ''/'' # w) bs) @ ''/'') @ ''api/'' @ cf_api_version cfg @ ''/''"
    by simp
  also have "\<dots> = base_addr sc n (bs @ [''api'', cf_api_version cfg])"
    unfolding slashed_shift by (simp add: base_addr_def slashed_def)
  finally show ?thesis .
qed

text \<open>The address and the token a client is built from, and what its requests then carry.\<close>

definition chosen_url :: "config \<Rightarrow> headers option \<Rightarrow> string" where
  "chosen_url cfg hdrs = (if cf_url cfg \<noteq> [] then cf_url cfg
     else (case header_of hdrs ''x-lava-url'' of None \<Rightarrow> [] | Some u \<Rightarrow> u))"

definition chosen_token :: "config \<Rightarrow> headers option \<Rightarrow> string option" where
  "chosen_token cfg hdrs = (case nonempty (header_of hdrs ''x-lava-token'') of
     Some t \<Rightarrow> Some t | None \<Rightarrow> nonempty (cf_token cfg))"

lemma client_from_chosen:
  assumes "client_from cfg hdrs = Inr c"
  shows "chosen_url cfg hdrs \<noteq> [] \<and> c = make_client (cfg\<lparr>cf_url := chosen_url cfg hdrs, cf_token := chosen_token cfg hdrs\<rparr>)"
  using assms
  by (auto simp: client_from_def chosen_url_def chosen_token_def nonempty_def make_client_def Let_def
      split: option.splits if_splits)


section \<open>Every request stays at home\<close>

definition at_home :: "lava_client \<Rightarrow> string \<Rightarrow> http_req \<Rightarrow> bool" where
  "at_home c home q \<longleftrightarrow> prefix home (q_url q) \<and> q_auth q = lc_auth c \<and> q_timeout q = lc_timeout c"

definition based_at :: "lava_client \<Rightarrow> string \<Rightarrow> bool" where
  "based_at c home \<longleftrightarrow> (\<forall>w rest. word_seg w \<longrightarrow>
     (\<exists>q. urljoin (lc_base c) (w @ CHR ''/'' # rest) = Inr (home @ q)))"

definition all_home :: "lava_client \<Rightarrow> string \<Rightarrow> http_req list \<Rightarrow> bool" where
  "all_home c home lg \<longleftrightarrow> (\<forall>q \<in> set lg. at_home c home q)"

lemma based_at_base:
  assumes "sc \<in> {''http'', ''https''}" "plain_host n" "list_all plain_seg bs" "lc_base c = base_addr sc n bs"
  shows "based_at c (sc @ ''://'' @ n @ ''/'')"
  unfolding based_at_def
proof (intro allI impI)
  fix w rest assume w: "word_seg w"
  let ?b = "\<lparr>u_scheme = sc, u_netloc = n, u_path = CHR ''/'' # slashed bs, u_params = [], u_query = [], u_fragment = []\<rparr>"
  have "\<exists>q. urljoin (base_addr sc n bs) (w @ CHR ''/'' # rest) = Inr (u_scheme ?b @ ''://'' @ u_netloc ?b @ CHR ''/'' # q)"
    by (rule urljoin_on_host [OF urlparse_base [OF assms(1-3)] _ _ _ w])
      (use assms in \<open>auto simp: plain_host_def base_addr_def\<close>)
  then show "\<exists>q. urljoin (lc_base c) (w @ CHR ''/'' # rest) = Inr ((sc @ ''://'' @ n @ ''/'') @ q)"
    using assms(4) by auto
qed

lemma request_home:
  assumes "based_at c home" "word_seg w"
  shows "keeps (all_home c home) (request X c m (w @ CHR ''/'' # rest) ps js)"
proof -
  have "w \<noteq> []" "hd w \<noteq> CHR ''/''"
    using assms(2) word_seg_chars(1) [OF assms(2), of "hd w"] by (auto simp: word_seg_def)
  then have "lstrip_char CHR ''/'' (w @ CHR ''/'' # rest) = w @ CHR ''/'' # rest"
    by (intro lstrip_if_id) simp
  moreover obtain q where "urljoin (lc_base c) (w @ CHR ''/'' # rest) = Inr (home @ q)"
    using assms unfolding based_at_def by blast
  ultimately show ?thesis
    by (simp add: keeps_def request_def bind_act_lift Let_def all_home_def at_home_def)
qed

lemma word_segs [simp]:
  "word_seg ''system''" "word_seg ''devices''" "word_seg ''devicetypes''" "word_seg ''workers''"
  "word_seg ''jobs''" "word_seg ''dashboard''" "word_seg ''remote-artifact-tokens''"
  by (simp_all add: word_seg_def is_alpha_def is_digit_def)

lemmas request_home_at [keeps_intros] =
  request_home [where w = "''system''", simplified] request_home [where w = "''devices''", simplified]
  request_home [where w = "''devicetypes''", simplified] request_home [where w = "''workers''", simplified]
  request_home [where w = "''jobs''", simplified] request_home [where w = "''dashboard''", simplified]
  request_home [where w = "''remote-artifact-tokens''", simplified]

lemmas lava_ops =
  whoami_def version_def list_devices_def get_device_def get_device_dictionary_def get_qdl_info_def
  console_endpoint_def console_connection_command_def allows_test_services_def list_device_types_def
  list_workers_def list_jobs_def get_job_def get_job_definition_def get_job_logs_def get_job_results_def
  dashboard_queue_def dashboard_running_def dashboard_lab_health_def validate_job_def submit_job_def
  cancel_job_def resubmit_job_def add_remote_token_def delete_remote_token_def list_remote_tokens_def
  get_json_def list_page_def job_path_def map_act_def

lemma run_call_home: "based_at c home \<Longrightarrow> keeps (all_home c home) (run_call X c k)"
  by (cases k) (simp_all add: lava_ops keeps_intros)

lemma requests_home: "based_at c home \<Longrightarrow> all_home c home (requests_of X c ks)"
proof -
  assume b: "based_at c home"
  have "all_home c home lg \<Longrightarrow> all_home c home (fold (\<lambda>k lg. snd (run_call X c k lg)) ks lg)" for lg
    by (induction ks arbitrary: lg) (use run_call_home [OF b] in \<open>auto simp: keeps_def\<close>)
  from this [of "[]"] show ?thesis by (simp add: requests_of_def) (simp add: all_home_def)
qed

text \<open>C19: The server talks to one host only, with one token. Whatever hostnames, job ids,
  definitions and filters its callers pass, even hostile ones, every request of every
  operation goes to the scheme and host the deployment is pinned to (a client's own address
  counts only when the server has none), carries the caller's own token, the server's only
  when the caller sent none, and waits no longer than the configured time.\<close>

theorem requests_stay_home:
  assumes c: "client_from cfg hdrs = Inr c"
    and u: "lava_url sc n bs (chosen_url cfg hdrs)" and v: "plain_seg (cf_api_version cfg)"
    and q: "q \<in> set (requests_of X c calls)"
  shows "prefix (sc @ ''://'' @ n @ ''/'') (q_url q) \<and>
    q_auth q = map_option (\<lambda>t. ''Token '' @ t) (chosen_token cfg hdrs) \<and> q_timeout q = cf_timeout cfg"
proof -
  let ?cfg = "cfg\<lparr>cf_url := chosen_url cfg hdrs, cf_token := chosen_token cfg hdrs\<rparr>"
  have cm: "c = make_client ?cfg" using client_from_chosen [OF c] by blast
  have "lc_base c = base_addr sc n (bs @ [''api'', cf_api_version cfg])"
    using make_client_base [of sc n bs ?cfg] u cm by simp
  moreover have "list_all plain_seg (bs @ [''api'', cf_api_version cfg])"
    using u v by (simp add: lava_url_def plain_seg_def plain_char_def is_alpha_def is_digit_def)
  moreover have "sc \<in> {''http'', ''https''}" "plain_host n" using u by (simp_all add: lava_url_def)
  ultimately have "based_at c (sc @ ''://'' @ n @ ''/'')"
    using based_at_base by blast
  from requests_home [OF this] have "at_home c (sc @ ''://'' @ n @ ''/'') q"
    using q by (auto simp: all_home_def)
  moreover have "lc_auth c = map_option (\<lambda>t. ''Token '' @ t) (chosen_token cfg hdrs)"
    by (auto simp: cm make_client_def chosen_token_def nonempty_def split: option.splits)
  ultimately show ?thesis by (simp add: at_home_def cm make_client_def)
qed


definition demo_cfg :: config where
  "demo_cfg = default_config\<lparr>cf_url := ''https://lava.lab/'', cf_token := Some ''srv''\<rparr>"

definition demo_headers :: headers where
  "demo_headers = [(''X-Lava-Url'', ''https://evil''), (''X-Lava-Token'', ''abc'')]"

definition demo_ext :: lava_ext where
  "demo_ext = \<lparr>ex_http = (\<lambda>_ _. Inr \<lparr>h_status = 200, h_text = [], h_json = Some (obj [])\<rparr>),
     ex_load = (\<lambda>_. Inr JNull), ex_dump = (\<lambda>_. []), ex_float = (\<lambda>_. [])\<rparr>"

lemma demo_url: "lava_url ''https'' ''lava.lab'' [] (cf_url demo_cfg)"
  unfolding lava_url_def
  by (auto simp: demo_cfg_def default_config_def plain_host_def plain_char_def is_alpha_def is_digit_def
      intro: exI [of _ 1])

lemma demo_header: "header demo_headers ''x-lava-token'' = Some ''abc''" "header demo_headers ''x-lava-url'' = Some ''https://evil''"
  by code_simp+

lemma demo_client: "client_from demo_cfg (Some demo_headers) = Inr (make_client (demo_cfg\<lparr>cf_token := Some ''abc''\<rparr>))"
proof -
  have "demo_headers \<noteq> []" by (simp add: demo_headers_def)
  then show ?thesis
    by (simp add: client_from_def demo_header header_of_def nonempty_def Let_def) (simp add: demo_cfg_def default_config_def)
qed

lemma request_log: "\<exists>tl. snd (request X c m p ps js lg) = lg @ tl"
  by (cases "urljoin (lc_base c) (lstrip_char CHR ''/'' p)") (simp_all add: request_def bind_act_lift Let_def)

lemma requests_stay_home_witness:
  "\<exists>c q. client_from demo_cfg (Some demo_headers) = Inr c \<and> q \<in> set (requests_of demo_ext c [GetDevice ''//evil/'']) \<and>
     prefix ''https://lava.lab/'' (q_url q) \<and> q_auth q = Some ''Token abc''"
proof -
  let ?c = "make_client (demo_cfg\<lparr>cf_token := Some ''abc''\<rparr>)"
  have c: "client_from demo_cfg (Some demo_headers) = Inr ?c" by (rule demo_client)
  have u: "lava_url ''https'' ''lava.lab'' [] (chosen_url demo_cfg (Some demo_headers))"
    using demo_url by (simp add: chosen_url_def demo_cfg_def)
  have v: "plain_seg (cf_api_version demo_cfg)"
    by (simp add: demo_cfg_def default_config_def plain_seg_def plain_char_def is_alpha_def is_digit_def)
  have tok: "chosen_token demo_cfg (Some demo_headers) = Some ''abc''"
    using demo_header by (simp add: chosen_token_def nonempty_def header_of_def split: if_splits) (simp add: demo_headers_def)
  have "lc_base ?c = base_addr ''https'' ''lava.lab'' [''api'', ''v0.3'']"
    using make_client_base [of "''https''" "''lava.lab''" "[]" "demo_cfg\<lparr>cf_token := Some ''abc''\<rparr>"] demo_url
    by (simp add: demo_cfg_def default_config_def)
  moreover have "list_all plain_seg [''api'', ''v0.3'']"
    by (simp add: plain_seg_def plain_char_def is_alpha_def is_digit_def)
  moreover have "plain_host ''lava.lab''" using demo_url by (simp add: lava_url_def)
  ultimately have "based_at ?c (''https'' @ ''://'' @ ''lava.lab'' @ ''/'')"
    using based_at_base [of "''https''" "''lava.lab''" "[''api'', ''v0.3'']" ?c] by blast
  then obtain q where "urljoin (lc_base ?c) (''devices'' @ CHR ''/'' # ''//evil//'') =
      Inr ((''https'' @ ''://'' @ ''lava.lab'' @ ''/'') @ q)"
    unfolding based_at_def using word_segs(2) by blast
  then have "requests_of demo_ext ?c [GetDevice ''//evil/''] \<noteq> []"
    by (simp add: requests_of_def get_device_def get_json_def request_def bind_act_def lift_res_def
        lstrip_if_def demo_ext_def Let_def split: sum.splits)
  then obtain q where q: "q \<in> set (requests_of demo_ext ?c [GetDevice ''//evil/''])"
    by (meson last_in_set)
  from requests_stay_home [OF c u v q] show ?thesis using c q tok by auto
qed

section \<open>The exact request of each operation\<close>

text \<open>The API of LAVA, as its documentation gives it: method, path, parameters, body.\<close>

fun api_line :: "lava_call \<Rightarrow> string \<times> string list \<times> (string \<times> jval) list \<times> jval option" where
  "api_line Whoami = (''GET'', [''system'', ''whoami''], [], None)"
| "api_line Version = (''GET'', [''system'', ''version''], [], None)"
| "api_line (ListDevices l f) = (''GET'', [''devices''], (''limit'', JInt l) # f, None)"
| "api_line (GetDevice h) = (''GET'', [''devices'', h], [], None)"
| "api_line (DeviceDictionary h b) =
     (''GET'', [''devices'', h, ''dictionary''], if b then [(''render'', JStr ''true'')] else [], None)"
| "api_line (QdlInfo h) = (''GET'', [''devices'', h, ''dictionary''], [(''render'', JStr ''true'')], None)"
| "api_line (ConsoleEndpoint h) = (''GET'', [''devices'', h, ''dictionary''], [(''render'', JStr ''true'')], None)"
| "api_line (AllowsTestServices h) = (''GET'', [''devices'', h, ''dictionary''], [(''render'', JStr ''true'')], None)"
| "api_line (ListDeviceTypes l f) = (''GET'', [''devicetypes''], (''limit'', JInt l) # f, None)"
| "api_line (ListWorkers l) = (''GET'', [''workers''], [(''limit'', JInt l)], None)"
| "api_line (ListJobs l f) = (''GET'', [''jobs''], (''limit'', JInt l) # f, None)"
| "api_line (GetJob j) = (''GET'', [''jobs'', py_str (\<lambda>_. []) j], [], None)"
| "api_line (JobDefinition j) = (''GET'', [''jobs'', py_str (\<lambda>_. []) j], [], None)"
| "api_line (JobLogs j a b) = (''GET'', [''jobs'', py_str (\<lambda>_. []) j, ''logs''],
     [(''start'', jopt JInt a), (''end'', jopt JInt b)], None)"
| "api_line (JobResults j l) = (''GET'', [''jobs'', py_str (\<lambda>_. []) j, ''tests''], [(''limit'', JInt l)], None)"
| "api_line DashQueue = (''GET'', [''dashboard'', ''queue''], [], None)"
| "api_line DashRunning = (''GET'', [''dashboard'', ''running''], [], None)"
| "api_line DashHealth = (''GET'', [''dashboard'', ''lab-health''], [], None)"
| "api_line (ValidateJob d) = (''POST'', [''jobs'', ''validate''], [], Some (obj [(''definition'', JStr d)]))"
| "api_line (SubmitJob d) = (''POST'', [''jobs''], [], Some (obj [(''definition'', JStr d)]))"
| "api_line (CancelJob j) = (''GET'', [''jobs'', py_str (\<lambda>_. []) j, ''cancel''], [], None)"
| "api_line (ResubmitJob j) = (''POST'', [''jobs'', py_str (\<lambda>_. []) j, ''resubmit''], [], None)"
| "api_line (AddToken n t) =
     (''POST'', [''remote-artifact-tokens''], [], Some (obj [(''name'', JStr n), (''token'', JStr t)]))"
| "api_line (DeleteToken n) = (''DELETE'', [''remote-artifact-tokens'', n], [], None)"
| "api_line ListTokens = (''GET'', [''remote-artifact-tokens''], [], None)"

text \<open>
  Calls with ordinary arguments: names without slashes, and job ids that are integers or
  strings without slashes.
\<close>

fun plain_id :: "jval \<Rightarrow> bool" where
  "plain_id (JInt i) = True"
| "plain_id (JStr s) = plain_seg s"
| "plain_id _ = False"

fun plain_call :: "lava_call \<Rightarrow> bool" where
  "plain_call (GetDevice h) = plain_seg h"
| "plain_call (DeviceDictionary h b) = plain_seg h"
| "plain_call (QdlInfo h) = plain_seg h"
| "plain_call (ConsoleEndpoint h) = plain_seg h"
| "plain_call (AllowsTestServices h) = plain_seg h"
| "plain_call (GetJob j) = plain_id j"
| "plain_call (JobDefinition j) = plain_id j"
| "plain_call (JobLogs j a b) = plain_id j"
| "plain_call (JobResults j l) = plain_id j"
| "plain_call (CancelJob j) = plain_id j"
| "plain_call (ResubmitJob j) = plain_id j"
| "plain_call (DeleteToken n) = plain_seg n"
| "plain_call _ = True"

definition call_request :: "lava_client \<Rightarrow> lava_call \<Rightarrow> http_req" where
  "call_request c k = (case api_line k of (m, ws, ps, js) \<Rightarrow>
     \<lparr>q_method = m, q_url = lc_base c @ slashed ws, q_params = clean ps, q_json = js,
       q_auth = lc_auth c, q_timeout = lc_timeout c\<rparr>)"

lemma str_int_plain: "plain_seg (str_int i)"
proof -
  have "list_all plain_char (str_nat n)" for n
    using str_nat_digits [of _ n] by (auto simp: list_all_iff plain_char_def)
  moreover have "str_nat n \<noteq> ''.'' \<and> str_nat n \<noteq> ''..''" for n
    using str_nat_digits [of "CHR ''.''" n] by (auto simp: is_digit_def)
  ultimately show ?thesis by (auto simp: plain_seg_def str_int_def plain_char_def)
qed

lemma plain_id_str: "plain_id j \<Longrightarrow> plain_seg (py_str fr j) \<and> py_str fr j = py_str (\<lambda>_. []) j"
  by (cases j) (simp_all add: py_str_def str_int_plain)

lemma api_words [simp]:
  "plain_seg ''system''" "plain_seg ''whoami''" "plain_seg ''version''" "plain_seg ''devices''"
  "plain_seg ''dictionary''" "plain_seg ''devicetypes''" "plain_seg ''workers''" "plain_seg ''jobs''"
  "plain_seg ''logs''" "plain_seg ''tests''" "plain_seg ''dashboard''" "plain_seg ''queue''"
  "plain_seg ''running''" "plain_seg ''lab-health''" "plain_seg ''validate''" "plain_seg ''cancel''"
  "plain_seg ''resubmit''" "plain_seg ''remote-artifact-tokens''" "plain_seg ''api''"
  by code_simp+

lemma api_line_plain: "plain_call k \<Longrightarrow> list_all plain_seg (fst (snd (api_line k))) \<and> fst (snd (api_line k)) \<noteq> []"
  by (cases k) (simp_all add: plain_id_str [THEN conjunct1])


text \<open>One request: what it sends, and how it fails.\<close>

definition one_request :: "lava_ext \<Rightarrow> http_req \<Rightarrow> 'a lava \<Rightarrow> bool" where
  "one_request X q m \<longleftrightarrow> (\<forall>lg. snd (m lg) = lg @ [q] \<and>
     (case ex_http X lg q of
        Inl t \<Rightarrow> fst (m lg) = Inl (LavaError (''request to '' @ q_url q @ '' failed: '' @ t))
      | Inr r \<Rightarrow> h_status r \<ge> 400 \<longrightarrow> fst (m lg) = Inl (LavaError
          (q_method q @ '' '' @ q_url q @ '' -> HTTP '' @ str_int (h_status r) @ '': '' @ take 500 (h_text r)))))"

lemma one_request_post:
  assumes "one_request X q m" "\<And>x lg. snd (f x lg) = lg"
  shows "one_request X q (bind_act m f)"
  unfolding one_request_def
proof
  fix lg
  obtain r where m: "m lg = (r, lg @ [q])" using assms(1) by (metis one_request_def prod.collapse)
  show "snd (bind_act m f lg) = lg @ [q] \<and> (case ex_http X lg q of
      Inl t \<Rightarrow> fst (bind_act m f lg) = Inl (LavaError (''request to '' @ q_url q @ '' failed: '' @ t))
    | Inr r \<Rightarrow> h_status r \<ge> 400 \<longrightarrow> fst (bind_act m f lg) = Inl (LavaError
        (q_method q @ '' '' @ q_url q @ '' -> HTTP '' @ str_int (h_status r) @ '': '' @ take 500 (h_text r))))"
    using assms(1) [unfolded one_request_def, rule_format, of lg] assms(2)
    by (cases r) (auto simp: m bind_act_def split: sum.splits)
qed

lemma request_one:
  assumes "urljoin (lc_base c) p = Inr u" "p = [] \<or> hd p \<noteq> CHR ''/''"
  shows "one_request X \<lparr>q_method = m, q_url = u, q_params = clean ps, q_json = js,
    q_auth = lc_auth c, q_timeout = lc_timeout c\<rparr> (request X c m p ps js)"
proof -
  have "lstrip_char CHR ''/'' p = p" using assms(2) by (intro lstrip_if_id) auto
  then show ?thesis
    using assms(1) by (auto simp: one_request_def request_def bind_act_lift Let_def split: sum.splits)
qed

text \<open>Every operation is one request followed by something that sends nothing.\<close>

lemma post_silent [simp]:
  "snd (ret x lg) = lg" "snd (lift_res r lg) = lg"
  "(\<And>x. snd (f x lg) = lg) \<Longrightarrow> snd (bind_act (lift_res r) f lg) = lg"
  by (cases r; simp add: ret_def lift_res_def bind_act_def)+

lemma slashed_simps: "slashed [] = []" "slashed (w # ws) = w @ CHR ''/'' # slashed ws"
  by (simp_all add: slashed_def)

lemma run_call_one:
  assumes b: "lc_base c = base_addr sc n bs" "sc \<in> {''http'', ''https''}" "plain_host n" "list_all plain_seg bs"
    and k: "plain_call k"
  shows "one_request X (call_request c k) (run_call X c k)"
proof -
  obtain m ws ps js where l: "api_line k = (m, ws, ps, js)" by (cases "api_line k") auto
  have ws: "list_all plain_seg ws" "ws \<noteq> []" using api_line_plain [OF k] l by simp_all
  have u: "urljoin (lc_base c) (slashed ws) = Inr (lc_base c @ slashed ws)"
    unfolding b(1) by (rule urljoin_plain [OF b(2-4) ws])
  have h: "slashed ws = [] \<or> hd (slashed ws) \<noteq> CHR ''/''"
    using ws by (cases ws) (auto simp: slashed_def plain_seg_def hd_append neq_Nil_conv)
  have r: "one_request X (call_request c k) (request X c m (slashed ws) ps js)"
    using request_one [OF u h] by (simp add: call_request_def l)
  have "\<exists>f. (\<forall>x lg. snd (f x lg) = lg) \<and> run_call X c k = bind_act (request X c m (slashed ws) ps js) f"
    using k l plain_id_str [THEN conjunct2, of _ "ex_float X"]
    by (cases k) (auto simp: lava_ops slashed_simps bind_act_assoc intro!: exI)
  then obtain f where "\<forall>x lg. snd (f x lg) = lg" "run_call X c k = bind_act (request X c m (slashed ws) ps js) f"
    by blast
  then show ?thesis using one_request_post [OF r, of f] by simp
qed




text \<open>C27: A device name can reach another operation. Names go into the path unquoted, so a
  name that steps back out of \<^verbatim>\<open>devices/\<close> makes the read-only device query send the very request
  that cancels a job, and on a server started read-only too, where the tool that cancels jobs
  is not offered.\<close>

theorem device_name_cancels_job:
  assumes u: "lava_url sc n bs (cf_url cfg)" and v: "plain_seg (cf_api_version cfg)"
  shows "snd (get_device X (make_client cfg) (''../jobs/'' @ str_int j @ ''/cancel'') lg) =
    snd (cancel_job X (make_client cfg) (JInt j) lg)"
proof -
  let ?c = "make_client cfg" and ?ws = "[''jobs'', str_int j, ''cancel'']"
  have b: "lc_base ?c = base_addr sc n (bs @ [''api'', cf_api_version cfg])" by (rule make_client_base [OF u])
  have bs: "list_all plain_seg (bs @ [''api'', cf_api_version cfg])" using u v by (simp add: lava_url_def)
  have h: "sc \<in> {''http'', ''https''}" "plain_host n" using u by (simp_all add: lava_url_def)
  have ws: "list_all plain_seg ?ws" "?ws \<noteq> []" by (simp_all add: str_int_plain)
  note stepped = urljoin_back [OF h bs ws, of "''devices''", folded b]
  note straight = urljoin_plain [OF h bs ws, folded b]
  let ?q = "\<lparr>q_method = ''GET'', q_url = lc_base ?c @ slashed ?ws, q_params = clean [], q_json = None,
    q_auth = lc_auth ?c, q_timeout = lc_timeout ?c\<rparr>"
  have "one_request X ?q (request X ?c ''GET'' (slashed (''devices'' # ''..'' # ?ws)) [] None)"
    by (rule request_one [OF stepped]) (simp_all add: slashed_def)
  then have dev: "one_request X ?q (get_device X ?c (''../jobs/'' @ str_int j @ ''/cancel''))"
    unfolding get_device_def get_json_def by (intro one_request_post) (simp_all add: slashed_def)
  have "one_request X ?q (request X ?c ''GET'' (slashed ?ws) [] None)"
    by (rule request_one [OF straight]) (simp_all add: slashed_def)
  then have "one_request X ?q (cancel_job X ?c (JInt j))"
    unfolding cancel_job_def by (intro one_request_post) (simp_all add: slashed_def job_path_def py_str_def)
  then show ?thesis using dev by (simp add: one_request_def)
qed

lemma device_name_cancels_job_witness:
  "snd (get_device demo_ext (make_client (demo_cfg\<lparr>cf_read_only := True\<rparr>)) ''../jobs/42/cancel'' []) =
    snd (cancel_job demo_ext (make_client (demo_cfg\<lparr>cf_read_only := True\<rparr>)) (JInt 42) [])"
proof -
  have u: "lava_url ''https'' ''lava.lab'' [] (cf_url (demo_cfg\<lparr>cf_read_only := True\<rparr>))" using demo_url by simp
  have v: "plain_seg (cf_api_version (demo_cfg\<lparr>cf_read_only := True\<rparr>))"
    by (simp add: demo_cfg_def default_config_def plain_seg_def plain_char_def is_alpha_def is_digit_def)
  have "str_int 42 = ''42''" by code_simp
  then show ?thesis using device_name_cancels_job [OF u v, of demo_ext 42 "[]"] by simp
qed


section \<open>Which console a device has\<close>

text \<open>
  The part of a rendered device dictionary that names consoles: connections by name, each with
  its tags and its command if it has one, and the command of the device as a whole.
\<close>

type_synonym connection = "string \<times> string list \<times> string option"

definition connection_entry :: "connection \<Rightarrow> jval \<times> jval" where
  "connection_entry k = (case k of (nm, tags, cmd) \<Rightarrow>
     (JStr nm, obj [(''connect'', jopt JStr cmd), (''tags'', JList (map JStr tags))]))"

definition device_doc :: "connection list \<Rightarrow> string option \<Rightarrow> jval" where
  "device_doc conns dev = obj [(''commands'',
     obj [(''connections'', JDict (map connection_entry conns)), (''connect'', jopt JStr dev)])]"

definition pick_console :: "connection list \<Rightarrow> string option \<Rightarrow> string option" where
  "pick_console conns dev =
     (case List.find (\<lambda>(_, tags, _). ''primary'' \<in> set tags) conns of
        Some (_, _, Some cmd) \<Rightarrow> Some cmd
      | _ \<Rightarrow> (case conns of (_, _, Some cmd) # _ \<Rightarrow> Some cmd | _ \<Rightarrow> dev))"

lemma py_in_strs [simp]: "py_in k (py_or (JList (map JStr ts)) (JList [])) = Inr (k \<in> set ts)"
  by (auto simp: py_in_def py_or_def)

lemma is_dict_obj [simp]: "is_dict (obj kvs)"
  by (simp add: obj_def)

lemma primary_conn_find:
  "primary_conn (map (\<lambda>k. snd (connection_entry k)) conns) =
     Inr (case List.find (\<lambda>(_, tags, _). ''primary'' \<in> set tags) conns of
        None \<Rightarrow> JNull | Some (_, _, cmd) \<Rightarrow> jopt JStr cmd)"
  by (induction conns) (auto simp: connection_entry_def)

lemma jopt_null [simp]: "jopt JStr x = JNull \<longleftrightarrow> x = None"
  by (cases x) simp_all

text \<open>The console is the one the device names: the first connection tagged primary that
  has a command; failing that the first connection's; failing that the device's own. Nothing a
  dictionary of this shape contains makes the choice raise.\<close>

theorem console_choice: "connect_command (device_doc conns dev) = Inr (pick_console conns dev)"
proof -
  let ?cs = "JDict (map connection_entry conns)"
  have cs: "py_values (py_or ?cs (obj [])) = Inr (map (\<lambda>k. snd (connection_entry k)) conns)"
    by (cases conns) (simp_all add: py_or_def py_values_def obj_def)
  have "py_get (device_doc conns dev) ''commands'' d =
      Inr (obj [(''connections'', ?cs), (''connect'', jopt JStr dev)])" for d
    by (simp add: device_doc_def)
  moreover have "is_dict (device_doc conns dev)" by (simp add: device_doc_def)
  ultimately show ?thesis
    using cs primary_conn_find [of conns]
    by (cases conns; cases dev)
      (auto simp: connect_command_def pick_console_def connection_entry_def Let_def split: option.splits)
qed

end
