(* ===== verification/Source.thy ===== *)
theory Source
  imports Client
begin

text \<open>
  The local mirror of the LAVA source, \<^verbatim>\<open>lava_mcp/source.py\<close>, with the two functions of
  \<^verbatim>\<open>lava_mcp/server.py\<close> that tell it which revision is deployed. The checkout is a tree of
  directories, files and symbolic links; \<^verbatim>\<open>Path.resolve\<close> is translated. What
  \<^verbatim>\<open>git\<close> answers to a command and which version the LAVA server reports are given; the
  commands run are logged, each with how it ended.
\<close>

section \<open>A file tree with symbolic links\<close>

text \<open>
  Paths are the names from the root. A file holds the text it reads as, or the error that
  reading it ends in.
\<close>

datatype fnode = FDir | FFile "string + string" | FLink string

type_synonym fsys = "(string list, fnode) dict"

text \<open>Everything lies in directories.\<close>

definition tree_ok :: "fsys \<Rightarrow> bool" where
  "tree_ok fs \<longleftrightarrow> dict_ok fs \<and> (\<forall>p \<in> set (dict_keys fs). \<forall>q. strict_prefix q p \<longrightarrow> q \<noteq> [] \<longrightarrow> dict_get fs q = Some FDir)"

text \<open>
  \<^verbatim>\<open>os.path.realpath\<close>: the names still to visit, among them marks for links whose target
  has been visited; the path so far; the links met, with what they resolved to, if that is
  known already. A link met again while it is being resolved is left as it is.
\<close>

datatype visit = Name string | Resolved "string list"

type_synonym links_seen = "(string list, string list option) dict"

definition unseen :: "fsys \<Rightarrow> links_seen \<Rightarrow> nat" where
  "unseen fs seen = length (filter (\<lambda>(p, n). dict_get seen p = None) fs)"

lemma filter_weaken: "(\<And>x. P x \<Longrightarrow> Q x) \<Longrightarrow> length (filter P xs) \<le> length (filter Q xs)"
  by (induction xs) auto

lemma filter_weaken_strict:
  "(\<And>x. P x \<Longrightarrow> Q x) \<Longrightarrow> y \<in> set xs \<Longrightarrow> Q y \<Longrightarrow> \<not> P y \<Longrightarrow> length (filter P xs) < length (filter Q xs)"
  by (induction xs) (auto simp: less_Suc_eq_le filter_weaken intro: le_imp_less_Suc)

lemma unseen_set: "unseen fs (dict_set p x seen) \<le> unseen fs seen"
  unfolding unseen_def by (rule filter_weaken) (auto split: if_splits)

lemma unseen_new:
  "dict_get fs p = Some n \<Longrightarrow> dict_get seen p = None \<Longrightarrow> unseen fs (dict_set p x seen) < unseen fs seen"
  unfolding unseen_def
  by (rule filter_weaken_strict [of _ _ "(p, n)"]) (auto split: if_splits dest: dict_get_SomeD)

function realpath_loop :: "fsys \<Rightarrow> visit list \<Rightarrow> string list \<Rightarrow> links_seen \<Rightarrow> string list" where
  "realpath_loop fs [] path seen = path"
| "realpath_loop fs (Resolved l # rest) path seen = realpath_loop fs rest path (dict_set l (Some path) seen)"
| "realpath_loop fs (Name n # rest) path seen =
     (if n = [] \<or> n = ''.'' then realpath_loop fs rest path seen
      else if n = ''..'' then realpath_loop fs rest (butlast path) seen
      else (case dict_get fs (path @ [n]) of
          Some (FLink t) \<Rightarrow>
            (case dict_get seen (path @ [n]) of
               Some (Some q) \<Rightarrow> realpath_loop fs rest q seen
             | Some None \<Rightarrow> realpath_loop fs rest (path @ [n]) seen
             | None \<Rightarrow> realpath_loop fs (map Name (split_char CHR ''/'' t) @ Resolved (path @ [n]) # rest)
                 (if t \<noteq> [] \<and> hd t = CHR ''/'' then [] else path) (dict_set (path @ [n]) None seen))
        | _ \<Rightarrow> realpath_loop fs rest (path @ [n]) seen))"
  by pat_completeness auto
termination
proof (relation "measures [\<lambda>(fs, rest, path, seen). unseen fs seen, \<lambda>(fs, rest, path, seen). length rest]", goal_cases)
  case (2 fs l rest path seen)
  then show ?case using unseen_set [of fs l "Some path" seen] by auto
qed (auto simp: unseen_new)

section \<open>Paths inside the checkout\<close>

text \<open>A directory as it was configured: absolute or not, and its parts.\<close>

record src_dir =
  sd_absolute :: bool
  sd_parts :: "string list"

definition resolve_in :: "fsys \<Rightarrow> string list \<Rightarrow> src_dir \<Rightarrow> string list \<Rightarrow> string list" where
  "resolve_in fs cwd d parts =
     realpath_loop fs (map Name (sd_parts d @ parts)) (if sd_absolute d then [] else cwd) []"

definition safe_join :: "fsys \<Rightarrow> string list \<Rightarrow> src_dir \<Rightarrow> string \<Rightarrow> string list option" where
  "safe_join fs cwd d relpath =
     (let rel = before_char CHR ''#'' (lstrip_char CHR ''/'' (strip relpath)) in
      if rel = [] \<or> CHR 0x00 \<in> set rel then None
      else (let target = resolve_in fs cwd d (split_char CHR ''/'' rel); base_r = resolve_in fs cwd d [] in
        if target \<noteq> base_r \<and> \<not> strict_prefix base_r target then None else Some target))"

definition is_dir :: "fsys \<Rightarrow> string list \<Rightarrow> bool" where
  "is_dir fs p \<longleftrightarrow> p = [] \<or> dict_get fs p = Some FDir"

text \<open>\<^verbatim>\<open>Path.is_file\<close> follows links.\<close>

definition is_file :: "fsys \<Rightarrow> string list \<Rightarrow> bool" where
  "is_file fs p = (case dict_get fs (realpath_loop fs (map Name p) [] []) of Some (FFile t) \<Rightarrow> True | _ \<Rightarrow> False)"

section \<open>The mirror\<close>

record mirror =
  mi_repo :: string
  mi_explicit_ref :: string
  mi_dir :: src_dir
  mi_dir_text :: string
  mi_ready :: bool
  mi_ref :: "string option"
  mi_error :: string
  mi_started :: bool

text \<open>The directory of the checkout, and the default under the temporary directory.\<close>

definition path_of :: "string \<Rightarrow> src_dir" where
  "path_of s = \<lparr>sd_absolute = (s \<noteq> [] \<and> hd s = CHR ''/''),
     sd_parts = filter (\<lambda>w. w \<noteq> [] \<and> w \<noteq> ''.'') (split_char CHR ''/'' s)\<rparr>"

definition dir_text :: "src_dir \<Rightarrow> string" where
  "dir_text d = (let s = (if sd_absolute d then ''/'' else []) @ join_char CHR ''/'' (sd_parts d) in if s = [] then ''.'' else s)"

definition new_mirror :: "string \<Rightarrow> string \<Rightarrow> string option \<Rightarrow> string \<Rightarrow> mirror" where
  "new_mirror repo explicit_ref clone_dir tmp =
     (let d = (case clone_dir of Some c \<Rightarrow> if c \<noteq> [] then path_of c else path_of (tmp @ ''/lava-mcp-source'')
                | None \<Rightarrow> path_of (tmp @ ''/lava-mcp-source''))
      in \<lparr>mi_repo = repo, mi_explicit_ref = explicit_ref, mi_dir = d, mi_dir_text = dir_text d,
          mi_ready = False, mi_ref = None, mi_error = [], mi_started = False\<rparr>)"

text \<open>Whether a thread is started, and the mirror.\<close>

definition ensure_mirror_started :: "mirror \<Rightarrow> bool \<times> mirror" where
  "ensure_mirror_started m = (if mi_started m then (False, m) else (True, m\<lparr>mi_started := True\<rparr>))"

text \<open>Which revision is deployed.\<close>

definition describe_sha :: "string \<Rightarrow> string option" where
  "describe_sha s =
     (let h = (case s of c # cs \<Rightarrow> if c = CHR ''g'' then cs else s | [] \<Rightarrow> []) in
      if 7 \<le> length h \<and> length h \<le> 40 \<and> list_all is_hex_lower h then Some h else None)"

text \<open>
  \<^verbatim>\<open>re.search("-[0-9]+-g?([0-9a-f]{7,40})$", v)\<close>: the last two pieces between dashes, with
  a dash before them.
\<close>

definition ref_from_version :: "jval \<Rightarrow> string" where
  "ref_from_version reported =
     (let v = (case reported of JStr s \<Rightarrow> strip s | _ \<Rightarrow> []) in
      if v = [] then []
      else (case rev (split_char CHR ''-'' v) of
          sha # num # _ # _ \<Rightarrow>
            if num \<noteq> [] \<and> list_all is_digit num then (case describe_sha sha of Some h \<Rightarrow> h | None \<Rightarrow> v) else v
        | _ \<Rightarrow> v))"

text \<open>The version as the background thread asks for it, with the server's own credentials.\<close>

definition mirror_version :: "lava_ext \<Rightarrow> config \<Rightarrow> jval lava" where
  "mirror_version X cfg =
     try_act (bind_act (lift_res (client_from cfg None)) (\<lambda>c. bind_act (version X c) (\<lambda>v.
       ret (case v of
           JDict d \<Rightarrow> (case item_of d ''version'' of Some x \<Rightarrow> x | None \<Rightarrow> JStr [])
         | _ \<Rightarrow> JStr (py_str (ex_float X) (py_or v (JStr [])))))))
       (\<lambda>e. case e of LavaError m \<Rightarrow> Some (ret (JStr [])) | _ \<Rightarrow> None)"

definition resolve_ref :: "mirror \<Rightarrow> exc + jval \<Rightarrow> exc + string" where
  "resolve_ref m reported =
     (if mi_explicit_ref m \<noteq> [] then Inr (mi_explicit_ref m)
      else bind_res reported (\<lambda>v. Inr (ref_from_version v)))"

text \<open>Git commands, and how each ended (\<open>None\<close>, or the text of the exception).\<close>

type_synonym git_log = "(string list \<times> string option) list"
type_synonym git = "git_log \<Rightarrow> string list \<Rightarrow> string option"

definition run_git :: "git \<Rightarrow> string list \<Rightarrow> (mirror \<times> git_log, exc, unit) act" where
  "run_git g args = (\<lambda>(m, lg). case g lg args of
      None \<Rightarrow> (Inr (), (m, lg @ [(args, None)]))
    | Some t \<Rightarrow> (Inl (OSError t), (m, lg @ [(args, Some t)])))"

definition clone_cmd :: "mirror \<Rightarrow> string list" where
  "clone_cmd m = [''clone'', ''--filter=blob:none'', ''--no-checkout'', mi_repo m, mi_dir_text m]"

definition fetch_cmd :: "mirror \<Rightarrow> string list" where
  "fetch_cmd m = [''-C'', mi_dir_text m, ''fetch'', ''--filter=blob:none'', ''--tags'', ''--force'', ''origin'']"

definition checkout_cmd :: "mirror \<Rightarrow> string \<Rightarrow> string list" where
  "checkout_cmd m ref = [''-C'', mi_dir_text m, ''-c'', ''advice.detachedHead=false'', ''checkout'', ''--force'', ''--detach'', ref]"

definition mirror_done :: "string \<Rightarrow> mirror \<Rightarrow> mirror" where
  "mirror_done ref m = m\<lparr>mi_ref := Some ref, mi_ready := True, mi_error := []\<rparr>"

text \<open>Making the directory above the checkout, which the file system may refuse.\<close>

definition make_parent :: "string option \<Rightarrow> (mirror \<times> git_log, exc, unit) act" where
  "make_parent refused = (case refused of None \<Rightarrow> ret () | Some t \<Rightarrow> raise (OSError t))"

text \<open>One round; \<open>cloned\<close> says whether the checkout has its \<^verbatim>\<open>.git\<close> already.\<close>

definition sync_once :: "git \<Rightarrow> bool \<Rightarrow> string option \<Rightarrow> exc + jval \<Rightarrow> (mirror \<times> git_log, exc, bool) act" where
  "sync_once g cloned refused reported =
     bind_act (gets fst) (\<lambda>m.
     bind_act (lift_res (resolve_ref m reported)) (\<lambda>ref.
     if ref = [] then ret False
     else bind_act (if cloned then ret ()
                    else bind_act (make_parent refused) (\<lambda>_. run_git g (clone_cmd m))) (\<lambda>_.
          bind_act (run_git g (fetch_cmd m)) (\<lambda>_.
          bind_act (run_git g (checkout_cmd m ref)) (\<lambda>_.
          bind_act (modify (\<lambda>(m, lg). (mirror_done ref m, lg))) (\<lambda>_. ret True))))))"

text \<open>A round of the background loop: an exception is kept as text, and the loop goes on.\<close>

record round =
  rd_git :: git
  rd_cloned :: bool
  rd_parent :: "string option"
  rd_reported :: "exc + jval"
  rd_text :: string

definition run_round :: "round \<Rightarrow> mirror \<times> git_log \<Rightarrow> mirror \<times> git_log" where
  "run_round r s = (case sync_once (rd_git r) (rd_cloned r) (rd_parent r) (rd_reported r) s of
      (Inr _, t) \<Rightarrow> t
    | (Inl e, (m, lg)) \<Rightarrow> (m\<lparr>mi_error := (case e of OSError x \<Rightarrow> x | _ \<Rightarrow> rd_text r)\<rparr>, lg))"

section \<open>Reading\<close>

definition not_ready :: "mirror \<Rightarrow> jval" where
  "not_ready m = obj [(''error'', JStr (
     ''the LAVA source is not mirrored yet '' @ dash @ '' the server is starting up or the LAVA API is unreachable, so the deployed version/ref is unknown. Retry shortly'' @
     (if mi_error m \<noteq> [] then '' (last error: '' @ mi_error m @ '')'' else [])))]"

definition ref_text :: "mirror \<Rightarrow> string" where
  "ref_text m = (case mi_ref m of None \<Rightarrow> ''None'' | Some r \<Rightarrow> r)"

definition mirror_read :: "fsys \<Rightarrow> string list \<Rightarrow> mirror \<Rightarrow> string \<Rightarrow> jval" where
  "mirror_read fs cwd m relpath =
     (if \<not> mi_ready m then not_ready m
      else case safe_join fs cwd (mi_dir m) relpath of
        None \<Rightarrow> obj [(''error'', JStr (''invalid path: '' @ repr_str relpath))]
      | Some target \<Rightarrow> (case dict_get fs target of
          Some (FFile (Inr text)) \<Rightarrow> obj [(''path'', JStr relpath), (''ref'', jopt JStr (mi_ref m)), (''text'', JStr text)]
        | Some (FFile (Inl e)) \<Rightarrow> obj [(''error'', JStr (''read failed: '' @ e))]
        | _ \<Rightarrow> obj [(''error'', JStr (''not found at ref '' @ ref_text m @ '': '' @ relpath))]))"

text \<open>\<^verbatim>\<open>p.relative_to(d)\<close>: a prefix by name, or an error.\<close>

definition relative_to :: "string list \<Rightarrow> src_dir \<Rightarrow> exc + string list" where
  "relative_to p d = (if sd_absolute d \<and> prefix (sd_parts d) p then Inr (drop (length (sd_parts d)) p) else Inl ValueError)"

definition list_files :: "fsys \<Rightarrow> src_dir \<Rightarrow> string list \<Rightarrow> exc + string list" where
  "list_files fs d dir =
     bind_res (map_res (\<lambda>p. bind_res (relative_to p d) (\<lambda>r. Inr (join_char CHR ''/'' r)))
        (filter (is_file fs) (filter (strict_prefix dir) (dict_keys fs)))) (\<lambda>rs.
     Inr (sort_strs (filter (\<lambda>r. \<not> contains ''.git/'' (r @ ''/'')) rs)))"

definition mirror_list :: "fsys \<Rightarrow> string list \<Rightarrow> mirror \<Rightarrow> string \<Rightarrow> exc + jval" where
  "mirror_list fs cwd m relpath =
     (if \<not> mi_ready m then Inr (not_ready m)
      else case safe_join fs cwd (mi_dir m) relpath of
        None \<Rightarrow> Inr (obj [(''error'', JStr (''not a directory at ref '' @ ref_text m @ '': '' @ relpath))])
      | Some dir \<Rightarrow>
         if \<not> is_dir fs dir then Inr (obj [(''error'', JStr (''not a directory at ref '' @ ref_text m @ '': '' @ relpath))])
         else bind_res (list_files fs (mi_dir m) dir) (\<lambda>files.
           Inr (obj [(''dir'', JStr (rstrip_char CHR ''/'' relpath)), (''ref'', jopt JStr (mi_ref m)),
             (''files'', JList (map JStr files))])))"

text \<open>The tool: a path that ends in a slash is listed, any other is read.\<close>

definition read_lava_docs :: "fsys \<Rightarrow> string list \<Rightarrow> mirror \<Rightarrow> string \<Rightarrow> exc + jval" where
  "read_lava_docs fs cwd m path =
     (if endswith (rstrip_if is_space path) ''/'' then mirror_list fs cwd m path else Inr (mirror_read fs cwd m path))"

end
