(* ===== verification/SourceProps.thy ===== *)
theory SourceProps
  imports Source
begin

text \<open>
  What the mirror guarantees: the gate opens with the first successful checkout and names the
  revision of the last one; reading stays inside the checkout and reads everything in it;
  which revision a version denotes.
\<close>

section \<open>The gate\<close>

definition good_checkouts :: "mirror \<Rightarrow> git_log \<Rightarrow> string list" where
  "good_checkouts m lg = map (\<lambda>(a, r). last a) (filter (\<lambda>(a, r). r = None \<and> a = checkout_cmd m (last a)) lg)"

definition gate_ok :: "mirror \<Rightarrow> mirror \<times> git_log \<Rightarrow> bool" where
  "gate_ok m0 s \<longleftrightarrow> (case s of (m, lg) \<Rightarrow>
     mi_repo m = mi_repo m0 \<and> mi_dir_text m = mi_dir_text m0 \<and> mi_explicit_ref m = mi_explicit_ref m0 \<and>
     mi_dir m = mi_dir m0 \<and>
     mi_ready m = (good_checkouts m0 lg \<noteq> []) \<and>
     mi_ref m = (if good_checkouts m0 lg = [] then None else Some (last (good_checkouts m0 lg))) \<and>
     [] \<notin> set (good_checkouts m0 lg))"

lemma good_checkouts_append: "good_checkouts m (xs @ ys) = good_checkouts m xs @ good_checkouts m ys"
  by (simp add: good_checkouts_def)

lemma good_checkouts_one:
  "good_checkouts m [(clone_cmd m', r)] = []" "good_checkouts m [(fetch_cmd m', r)] = []"
  "good_checkouts m [(a, Some t)] = []" "good_checkouts m [(checkout_cmd m ref, None)] = [ref]"
  by (simp_all add: good_checkouts_def clone_cmd_def fetch_cmd_def checkout_cmd_def)

lemma checkout_cmd_cong: "mi_dir_text m = mi_dir_text m0 \<Longrightarrow> checkout_cmd m = checkout_cmd m0"
  by (rule ext) (simp add: checkout_cmd_def)

text \<open>How one round can go: which commands it ran, and whether the last was a good checkout.\<close>

lemma run_round_cases:
  assumes "run_round r (m, lg) = (m', lg')"
  obtains (idle) e tl where "m' = m\<lparr>mi_error := e\<rparr>" "lg' = lg @ tl" "good_checkouts m tl = []"
  | (done0) ref tl where "resolve_ref m (rd_reported r) = Inr ref" "ref \<noteq> []" "m' = mirror_done ref m"
      "lg' = lg @ tl" "good_checkouts m tl = [ref]" "\<exists>h c. rd_git r h c = None"
proof (cases "resolve_ref m (rd_reported r)")
  case (Inl e)
  then have "m' = m\<lparr>mi_error := (case e of OSError x \<Rightarrow> x | _ \<Rightarrow> rd_text r)\<rparr>" "lg' = lg @ []"
    using assms by (auto simp: run_round_def sync_once_def act_apply bind_act_def)
  then show ?thesis using idle [of _ "[]"] by (simp add: good_checkouts_def)
next
  case (Inr ref)
  consider (empty) "ref = []" | (refused) t where "ref \<noteq> []" "\<not> rd_cloned r" "rd_parent r = Some t"
    | (works) "ref \<noteq> []" "rd_cloned r \<or> rd_parent r = None" by blast
  then show ?thesis
  proof cases
    case empty
    then have "m' = m\<lparr>mi_error := mi_error m\<rparr>" "lg' = lg @ []"
      using assms Inr by (auto simp: run_round_def sync_once_def act_apply bind_act_def)
    then show ?thesis using idle [of "mi_error m" "[]"] by (simp add: good_checkouts_def)
  next
    case refused
    then have "m' = m\<lparr>mi_error := t\<rparr>" "lg' = lg @ []"
      using assms Inr by (auto simp: run_round_def sync_once_def make_parent_def act_apply bind_act_def)
    then show ?thesis using idle [of _ "[]"] by (simp add: good_checkouts_def)
  next
    case works
    note False = works(1)
    note unf = run_round_def sync_once_def act_apply bind_act_def run_git_def make_parent_def good_checkouts_append
      good_checkouts_one
    define pre0 where "pre0 = (if rd_cloned r then [] else [(clone_cmd m, rd_git r lg (clone_cmd m))])"
    have pre: "good_checkouts m pre0 = []" by (simp add: pre0_def good_checkouts_one) (simp add: good_checkouts_def)
    let ?lg1 = "lg @ pre0"
    show ?thesis
    proof (cases "\<exists>t. pre0 = [(clone_cmd m, Some t)]")
      case True
      then obtain t where t: "\<not> rd_cloned r" "rd_git r lg (clone_cmd m) = Some t"
        by (auto simp: pre0_def split: if_splits)
      then have "m' = m\<lparr>mi_error := t\<rparr>" "lg' = lg @ [(clone_cmd m, Some t)]"
        using assms Inr works by (auto simp: unf)
      then show ?thesis using idle good_checkouts_one by blast
    next
      case cloned: False
      show ?thesis
      proof (cases "rd_git r ?lg1 (fetch_cmd m)")
        case (Some t)
        then have "m' = m\<lparr>mi_error := t\<rparr>" "lg' = lg @ (pre0 @ [(fetch_cmd m, Some t)])"
          using assms Inr works cloned by (auto simp: unf pre0_def split: if_splits option.splits)
        then show ?thesis using idle pre by (metis good_checkouts_append good_checkouts_one(3) append_Nil)
      next
        case fetched: None
        let ?lg2 = "?lg1 @ [(fetch_cmd m, None)]"
        show ?thesis
        proof (cases "rd_git r ?lg2 (checkout_cmd m ref)")
          case (Some t)
          then have "m' = m\<lparr>mi_error := t\<rparr>"
              "lg' = lg @ (pre0 @ [(fetch_cmd m, None)] @ [(checkout_cmd m ref, Some t)])"
            using assms Inr works cloned fetched by (auto simp: unf pre0_def split: if_splits option.splits)
          then show ?thesis using idle pre by (simp only: good_checkouts_append good_checkouts_one append_Nil)
        next
          case None
          then have "m' = mirror_done ref m"
              "lg' = lg @ (pre0 @ [(fetch_cmd m, None)] @ [(checkout_cmd m ref, None)])"
            using assms Inr works cloned fetched by (auto simp: unf pre0_def split: if_splits option.splits)
          moreover have "good_checkouts m (pre0 @ [(fetch_cmd m, None)] @ [(checkout_cmd m ref, None)]) = [ref]"
            by (simp only: good_checkouts_append good_checkouts_one append_Nil pre)
          ultimately show ?thesis using done0 [OF Inr False] fetched by blast
        qed
      qed
    qed
  qed
qed


lemma mirror_gate_step: "gate_ok m0 s \<Longrightarrow> gate_ok m0 (run_round r s)"
proof -
  assume ok: "gate_ok m0 s"
  obtain m lg m' lg' where s: "s = (m, lg)" "run_round r s = (m', lg')" by (cases s; cases "run_round r s") auto
  have same: "mi_dir_text m = mi_dir_text m0" using ok s by (simp add: gate_ok_def)
  then have gc: "good_checkouts m = good_checkouts m0"
    by (intro ext) (simp add: good_checkouts_def checkout_cmd_cong [OF same])
  have rr: "run_round r (m, lg) = (m', lg')" using s by simp
  then show ?thesis
  proof (cases rule: run_round_cases)
    case (idle e tl)
    then show ?thesis using ok by (simp add: rr s(1) gate_ok_def good_checkouts_append gc)
  next
    case (done0 ref tl)
    then show ?thesis using ok by (simp add: rr s(1) gate_ok_def good_checkouts_append gc mirror_done_def)
  qed
qed

interpretation mirror_gate: machine run_round "gate_ok m0" "\<lambda>r s. True" for m0
  by unfold_locales (rule mirror_gate_step)

definition fresh_mirror :: "mirror \<Rightarrow> bool" where
  "fresh_mirror m \<longleftrightarrow> \<not> mi_ready m \<and> mi_ref m = None \<and> mi_error m = []"

lemma gate_run: "fresh_mirror m0 \<Longrightarrow> gate_ok m0 (fold run_round rs (m0, []))"
  by (rule mirror_gate.run_inv)
    (simp_all add: gate_ok_def fresh_mirror_def good_checkouts_def valid_run_always)

lemma error_only:
  assumes "\<not> mi_ready m"
  shows "\<exists>e. mirror_read fs cwd m p = obj [(''error'', e)] \<and> mirror_list fs cwd m p = Inr (obj [(''error'', e)])"
proof -
  have "\<exists>e. not_ready m = obj [(''error'', e)]" unfolding not_ready_def by blast
  then show ?thesis using assms by (auto simp: mirror_read_def mirror_list_def)
qed

text \<open>C24: Docs are served only at a revision that was checked out. After any rounds of the
  background loop, whatever the LAVA server reported and however git ended, the mirror is ready
  exactly when some checkout has succeeded, and the revision it names is that of the last
  successful one, never empty and never one that was only guessed; until then reading and
  listing answer with an error and nothing else.\<close>

theorem docs_at_checked_out_ref:
  assumes "fresh_mirror m0" and s: "fold run_round rs (m0, []) = (m, lg)"
  shows "mi_ready m = (good_checkouts m0 lg \<noteq> []) \<and>
    mi_ref m = (if good_checkouts m0 lg = [] then None else Some (last (good_checkouts m0 lg))) \<and>
    [] \<notin> set (good_checkouts m0 lg) \<and>
    (\<not> mi_ready m \<longrightarrow> (\<exists>e. mirror_read fs cwd m p = obj [(''error'', e)] \<and>
       mirror_list fs cwd m p = Inr (obj [(''error'', e)])))"
  using gate_run [OF assms(1), of rs] error_only [of m] by (simp add: s gate_ok_def)

definition demo_round :: "(string list \<Rightarrow> string option) \<Rightarrow> exc + jval \<Rightarrow> round" where
  "demo_round f v = \<lparr>rd_git = (\<lambda>_. f), rd_cloned = False, rd_parent = None, rd_reported = v, rd_text = ''down''\<rparr>"

definition demo_mirror :: mirror where
  "demo_mirror = new_mirror ''https://git/lava'' [] None ''/tmp''"

lemma docs_at_checked_out_ref_witness:
  "\<exists>m lg. fold run_round [demo_round (\<lambda>_. None) (Inl (LavaError ''x'')), demo_round (\<lambda>_. None) (Inr (JStr ''2026.07''))]
     (demo_mirror, []) = (m, lg) \<and> mi_ready m \<and> mi_ref m = Some ''2026.07''"
proof -
  have f: "fresh_mirror demo_mirror" by (simp add: fresh_mirror_def demo_mirror_def new_mirror_def Let_def)
  let ?rs = "[demo_round (\<lambda>_. None) (Inl (LavaError ''x'')), demo_round (\<lambda>_. None) (Inr (JStr ''2026.07''))]"
  obtain m lg where s: "fold run_round ?rs (demo_mirror, []) = (m, lg)" by (cases "fold run_round ?rs (demo_mirror, [])")
  have v: "ref_from_version (JStr ''2026.07'') = ''2026.07''" by code_simp
  have "good_checkouts demo_mirror lg = [''2026.07'']"
    using s by (auto simp: demo_round_def run_round_def sync_once_def make_parent_def resolve_ref_def v act_apply bind_act_def
        run_git_def demo_mirror_def new_mirror_def Let_def good_checkouts_def clone_cmd_def fetch_cmd_def
        checkout_cmd_def mirror_done_def)
  then show ?thesis using docs_at_checked_out_ref [OF f s] s by auto
qed



section \<open>Reading stays inside, and reads everything inside\<close>

lemma realpath_append:
  "\<exists>seen'. realpath_loop fs (xs @ rest) path seen = realpath_loop fs rest (realpath_loop fs xs path seen) seen'"
proof (induction fs xs path seen rule: realpath_loop.induct)
  case (1 fs path seen)
  then show ?case by auto
next
  case (3 fs n ns path seen)
  then show ?case by (auto split: option.splits fnode.splits)
qed simp

definition plain_name :: "string \<Rightarrow> bool" where
  "plain_name w \<longleftrightarrow> w \<noteq> [] \<and> w \<noteq> ''.'' \<and> w \<noteq> ''..'' \<and> CHR ''/'' \<notin> set w \<and> CHR ''#'' \<notin> set w \<and> CHR 0x00 \<notin> set w"

lemma realpath_plain:
  assumes "list_all plain_name cs"
    and "\<forall>k. 0 < k \<and> k \<le> length cs \<longrightarrow> (\<forall>t. dict_get fs (path @ take k cs) \<noteq> Some (FLink t))"
  shows "realpath_loop fs (map Name cs) path seen = path @ cs"
  using assms
proof (induction cs arbitrary: path)
  case (Cons c cs)
  have "dict_get fs (path @ [c]) \<noteq> Some (FLink t)" for t using Cons.prems(2) [rule_format, of 1] by simp
  then have "realpath_loop fs (map Name (c # cs)) path seen = realpath_loop fs (map Name cs) (path @ [c]) seen"
    using Cons.prems(1) by (auto simp: plain_name_def split: option.splits fnode.splits)
  also have "\<dots> = (path @ [c]) @ cs"
  proof (rule Cons.IH)
    show "\<forall>k. 0 < k \<and> k \<le> length cs \<longrightarrow> (\<forall>t. dict_get fs ((path @ [c]) @ take k cs) \<noteq> Some (FLink t))"
    proof (intro allI impI)
      fix k t assume "0 < k \<and> k \<le> length cs"
      then show "dict_get fs ((path @ [c]) @ take k cs) \<noteq> Some (FLink t)"
        using Cons.prems(2) [rule_format, of "Suc k" t] by simp
    qed
  qed (use Cons.prems in simp)
  finally show ?case by simp
qed simp

lemma tree_dirs: "tree_ok fs \<Longrightarrow> dict_get fs p = Some n \<Longrightarrow> strict_prefix q p \<Longrightarrow> q \<noteq> [] \<Longrightarrow> dict_get fs q = Some FDir"
  unfolding tree_ok_def by (metis dict_get_None_iff option.distinct(1))

text \<open>A relative path of plain names, as a caller writes it, with any number of slashes before it.\<close>

lemma safe_join_plain:
  assumes fs: "tree_ok fs" and cs: "list_all plain_name cs" "cs \<noteq> []"
    and ends: "\<not> is_space (hd (hd cs))" "\<not> is_space (last (last cs))"
    and f: "dict_get fs (resolve_in fs cwd d [] @ cs) = Some n" "\<nexists>t. n = FLink t"
  shows "safe_join fs cwd d (replicate k CHR ''/'' @ join_char CHR ''/'' cs) = Some (resolve_in fs cwd d [] @ cs)"
proof -
  let ?j = "join_char CHR ''/'' cs" and ?base = "resolve_in fs cwd d []" and ?r = "replicate k CHR ''/''"
  have split: "split_char CHR ''/'' ?j = cs"
    using cs by (intro split_join_char) (auto simp: plain_name_def list_all_iff)
  have join_ends: "list_all (\<lambda>w. w \<noteq> []) ws \<Longrightarrow> ws \<noteq> [] \<Longrightarrow> join_char x ws \<noteq> [] \<and> hd (join_char x ws) = hd (hd ws) \<and>
      last (join_char x ws) = last (last ws)" for x ws
    by (induction x ws rule: join_char.induct) (auto simp: neq_Nil_conv)
  have ne: "list_all (\<lambda>w. w \<noteq> []) cs" using cs(1) by (auto simp: list_all_iff plain_name_def)
  note je = join_ends [OF ne cs(2), of "CHR ''/''"]
  have join_set: "set (join_char x ws) \<subseteq> insert x (\<Union>(set ` set ws))" for x ws
    by (induction x ws rule: join_char.induct) auto
  have in_j: "x \<in> set ?j \<Longrightarrow> x = CHR ''/'' \<or> (\<exists>w \<in> set cs. x \<in> set w)" for x
    using join_set [of "CHR ''/''" cs] by blast
  have "\<forall>w \<in> set cs. CHR ''#'' \<notin> set w \<and> CHR 0x00 \<notin> set w" using cs(1) by (simp add: list_all_iff plain_name_def)
  then have chars: "CHR ''#'' \<notin> set ?j" "CHR 0x00 \<notin> set ?j"
    using in_j [of "CHR ''#''"] in_j [of "CHR 0x00"] by auto
  have first: "hd ?j \<noteq> CHR ''/''"
  proof -
    have h: "hd cs \<in> set cs" using cs(2) by simp
    then have "plain_name (hd cs)" using cs(1) by (simp only: list_all_iff)
    then have "hd cs \<noteq> []" "CHR ''/'' \<notin> set (hd cs)" by (simp_all add: plain_name_def)
    moreover from this(1) have "hd (hd cs) \<in> set (hd cs)" by simp
    ultimately show ?thesis using je by metis
  qed
  have "\<not> is_space CHR ''/''" by (simp add: is_space_def)
  moreover have "hd (?r @ ?j) = CHR ''/'' \<or> hd (?r @ ?j) = hd ?j" by (cases k) simp_all
  moreover have "last (?r @ ?j) = last ?j" using je by simp
  ultimately have "\<not> is_space (hd (?r @ ?j)) \<and> \<not> is_space (last (?r @ ?j))" using je ends by metis
  then have "strip (?r @ ?j) = ?r @ ?j" by (intro strip_if_id) simp
  moreover have "lstrip_char CHR ''/'' (?r @ ?j) = ?j"
    using je first by (induction k) (auto simp: lstrip_if_def dropWhile_eq_self_iff)
  moreover have "before_char CHR ''#'' ?j = ?j"
    using chars(1) by (auto simp: before_char_def takeWhile_eq_all_conv)
  ultimately have rel: "before_char CHR ''#'' (lstrip_char CHR ''/'' (strip (?r @ ?j))) = ?j" by simp
  obtain seen' where a: "resolve_in fs cwd d cs = realpath_loop fs (map Name cs) ?base seen'"
    using realpath_append [of fs "map Name (sd_parts d)" "map Name cs" "if sd_absolute d then [] else cwd" "[]"]
    by (auto simp: resolve_in_def)
  have "realpath_loop fs (map Name cs) ?base seen' = ?base @ cs"
  proof (rule realpath_plain [OF cs(1)], intro allI impI)
    fix i t assume i: "0 < i \<and> i \<le> length cs"
    show "dict_get fs (?base @ take i cs) \<noteq> Some (FLink t)"
    proof (cases "i = length cs")
      case False
      then have "strict_prefix (?base @ take i cs) (?base @ cs)"
        using i by (metis append_take_drop_id drop_eq_Nil le_antisym linorder_not_less nat_less_le
            same_append_eq self_append_conv strict_prefixI' prefix_def prefix_order.dual_order.strict_iff_order append.assoc)
      then show ?thesis using tree_dirs [OF fs f(1)] i cs(2) by auto
    qed (use f in auto)
  qed
  then have t: "resolve_in fs cwd d (split_char CHR ''/'' ?j) = ?base @ cs" using a split by simp
  have "strict_prefix ?base (?base @ cs)" using cs(2) by (simp add: strict_prefix_def)
  then show ?thesis using rel t je chars by (simp add: safe_join_def Let_def)
qed

lemma safe_join_inside: "safe_join fs cwd d p = Some t \<Longrightarrow> prefix (resolve_in fs cwd d []) t"
  by (auto simp: safe_join_def Let_def split: if_splits)


definition demo_tree :: fsys where
  "demo_tree = [([''co''], FDir), ([''co'', ''doc''], FDir), ([''co'', ''doc'', ''a.md''], FFile (Inr ''hi'')),
     ([''co'', ''up''], FLink ''/etc''), ([''etc''], FDir), ([''etc'', ''key''], FFile (Inr ''secret''))]"

definition ready_mirror :: "string \<Rightarrow> mirror" where
  "ready_mirror dir = mirror_done ''2026.07'' (new_mirror ''https://git/lava'' [] (Some dir) ''/tmp'')"

lemma demo_tree_ok: "tree_ok demo_tree"
  by (auto simp: tree_ok_def demo_tree_def dict_ok_def strict_prefix_def prefix_Cons)

lemma ready_mirror_dir:
  "mi_dir (ready_mirror ''/co'') = \<lparr>sd_absolute = True, sd_parts = [''co'']\<rparr>"
  "mi_dir (ready_mirror ''co'') = \<lparr>sd_absolute = False, sd_parts = [''co'']\<rparr>"
  by (simp_all add: ready_mirror_def mirror_done_def new_mirror_def path_of_def Let_def)


section \<open>Listing\<close>

lemma map_res_all: "(\<And>x. x \<in> set xs \<Longrightarrow> f x = Inr (g x)) \<Longrightarrow> map_res f xs = Inr (map g xs)"
  by (induction xs) simp_all

lemma map_res_fail: "(\<And>x. f x = Inl e) \<Longrightarrow> xs \<noteq> [] \<Longrightarrow> map_res f xs = Inl e"
  by (cases xs) simp_all



section \<open>The revision of a version\<close>

lemma rev_split_last:
  assumes "c \<notin> set s" "c \<notin> set n"
  shows "rev (split_char c (t @ c # n @ c # s)) = s # n # rev (split_char c t)"
proof -
  have app: "split_char c (a @ c # b) = split_char c a @ split_char c b" for a b
    by (induction c a rule: split_char.induct) (auto simp: neq_Nil_conv split: list.splits)
  show ?thesis using assms by (simp add: app split_char_free)
qed

text \<open>A reported version denotes the deployed revision: of a \<^verbatim>\<open>git describe\<close> string the
  commit it ends in, with or without the g, whatever the tag before it contains; of any other
  version without a dash, the version itself, as a tag; of anything that is not a text, nothing.\<close>

theorem version_denotes_revision:
  assumes sha: "7 \<le> length sha" "length sha \<le> 40" "list_all is_hex_lower sha"
    and tag: "tag \<noteq> []" "\<not> is_space (hd tag)"
    and rel: "CHR ''-'' \<notin> set rel" "strip rel = rel"
  shows "ref_from_version (JStr (tag @ ''-'' @ str_nat n @ ''-'' @ sha)) = sha \<and>
    ref_from_version (JStr (tag @ ''-'' @ str_nat n @ ''-g'' @ sha)) = sha \<and>
    ref_from_version (JStr rel) = rel \<and> ref_from_version (JInt i) = []"
proof -
  have hexd: "c \<in> set sha \<Longrightarrow> c \<noteq> CHR ''-'' \<and> c \<noteq> CHR ''g'' \<and> \<not> is_space c" for c
    using sha(3) by (auto simp: list_all_iff is_hex_lower_def is_digit_def is_space_def Let_def)
  have ne: "sha \<noteq> []" using sha(1) by auto
  have num: "CHR ''-'' \<notin> set (str_nat n)" "list_all is_digit (str_nat n)"
    using str_nat_digits [of _ n] by (auto simp: list_all_iff) (auto dest: str_nat_digits simp: is_digit_def)
  have g: "\<exists>w ws. rev (split_char CHR ''-'' tag) = w # ws"
    using split_char_ne [of "CHR ''-''" tag] by (metis list.exhaust rev_is_Nil_conv)
  have strip: "strip (tag @ ''-'' @ str_nat n @ t) = tag @ ''-'' @ str_nat n @ t"
    if "t \<noteq> []" "\<not> is_space (last t)" for t
    using that tag by (intro strip_if_id) (simp add: hd_append)
  have "hd sha \<noteq> CHR ''g''" "\<not> is_space (last sha)" using hexd ne by (auto simp: last_in_set)
  then have d: "describe_sha sha = Some sha" "describe_sha (CHR ''g'' # sha) = Some sha" "\<not> is_space (last sha)"
    using sha ne by (auto simp: describe_sha_def Let_def split: list.splits)
  have "CHR ''-'' \<notin> set sha" "CHR ''-'' \<notin> set (CHR ''g'' # sha)" using hexd by auto
  note sp = rev_split_last [OF this(1) num(1), of tag] rev_split_last [OF this(2) num(1), of tag]
  have "ref_from_version (JStr (tag @ ''-'' @ str_nat n @ ''-'' @ sha)) = sha"
    using strip [of "''-'' @ sha"] d sp(1) num g ne by (auto simp: ref_from_version_def Let_def)
  moreover have "ref_from_version (JStr (tag @ ''-'' @ str_nat n @ ''-g'' @ sha)) = sha"
    using strip [of "''-g'' @ sha"] d sp(2) num g ne by (auto simp: ref_from_version_def Let_def)
  moreover have "ref_from_version (JStr rel) = rel"
    using rel by (simp add: ref_from_version_def Let_def split_char_free)
  ultimately show ?thesis by (simp add: ref_from_version_def)
qed

lemma version_denotes_revision_witness:
  "ref_from_version (JStr (''2026.07-qualcomm-2026.07'' @ ''-'' @ str_nat 42 @ ''-'' @ ''7bca805b9'')) = ''7bca805b9''"
  using version_denotes_revision [of "''7bca805b9''" "''2026.07-qualcomm-2026.07''" "''2026.07''" 42 0]
  by (simp add: is_hex_lower_def is_digit_def is_space_def strip_if_id)

end
