(* ===== verification/Cmdline.thy ===== *)
theory Cmdline
  imports Config
begin

text \<open>
  The command line of \<^verbatim>\<open>lava_mcp/cmdline.py\<close>, as \<^verbatim>\<open>argparse\<close> reads it for the options of
  the program: exact names, unique beginnings of names, values joined by an equals sign or as
  the next word. Reading ends without arguments when the program would print its help or a
  usage error instead of starting.
\<close>

section \<open>The options\<close>

datatype opt_kind = Text | Number | OneOf "string list" | Append | Switch | Help

definition cli_options :: "(string \<times> opt_kind) list" where
  "cli_options = [(''-h'', Help), (''--help'', Help),
     (''--url'', Text), (''--token'', Text), (''--api-version'', Text), (''--read-only'', Switch),
     (''--transport'', OneOf [''stdio'', ''streamable-http'']), (''--host'', Text), (''--port'', Number),
     (''--gateway'', Switch), (''--gateway-port'', Number), (''--gateway-advertise-host'', Text),
     (''--gateway-allow-ip'', Append), (''--gateway-ws-url'', Text), (''--http-allow-user'', Append),
     (''--ssh-allow-user'', Append), (''--remote-access-tag'', Text)]"

definition opt_names :: "string list" where
  "opt_names = map fst cli_options"

section \<open>Words\<close>

text \<open>
  A word is a value, an option with what stands behind its equals sign, or neither: then it
  is unknown or begins more than one name, and the program does not start.
\<close>

datatype word_class = Value | Option string "string option" | Neither

definition after_eq :: "string \<Rightarrow> string option" where
  "after_eq w = (if CHR ''='' \<in> set w then Some (drop (Suc (length (before_char CHR ''='' w))) w) else None)"

text \<open>\<^verbatim>\<open>^-\d+$|^-\d*\.\d+$\<close>, where the dollar sign allows one line feed.\<close>

definition negative_number :: "string \<Rightarrow> bool" where
  "negative_number w =
     (let v = (if w \<noteq> [] \<and> last w = CHR 0x0A then butlast w else w);
          b = tl v; ip = before_char CHR ''.'' b; fp = drop (Suc (length ip)) b
      in v \<noteq> [] \<and> hd v = CHR ''-'' \<and> list_all is_digit ip \<and>
         (if CHR ''.'' \<in> set b then fp \<noteq> [] \<and> list_all is_digit fp else ip \<noteq> []))"

definition classify :: "string \<Rightarrow> word_class" where
  "classify w =
     (let n = before_char CHR ''='' w;
          other = (if negative_number w \<or> CHR '' '' \<in> set w then Value else Neither)
      in if w = [] \<or> hd w \<noteq> CHR ''-'' then Value
         else if w \<in> set opt_names then Option w None
         else if w = ''-'' then Value
         else if after_eq w \<noteq> None \<and> n \<in> set opt_names then Option n (after_eq w)
         else if w = ''--'' then Neither
         else if startswith w ''--'' then
           (case filter (\<lambda>m. startswith m n) opt_names of
              [] \<Rightarrow> other
            | [m] \<Rightarrow> Option m (after_eq w)
            | _ \<Rightarrow> Neither)
         else if startswith w ''-h'' then Option ''-h'' (Some (drop 2 w))
         else other)"

section \<open>Reading\<close>

definition put_switch :: "string \<Rightarrow> cli_args \<Rightarrow> cli_args" where
  "put_switch n a = (if n = ''--read-only'' then a\<lparr>ar_read_only := True\<rparr> else a\<lparr>ar_gateway := True\<rparr>)"

definition put_text :: "string \<Rightarrow> string \<Rightarrow> cli_args \<Rightarrow> cli_args" where
  "put_text n v a =
     (if n = ''--url'' then a\<lparr>ar_url := Some v\<rparr>
      else if n = ''--token'' then a\<lparr>ar_token := Some v\<rparr>
      else if n = ''--api-version'' then a\<lparr>ar_api_version := Some v\<rparr>
      else if n = ''--transport'' then a\<lparr>ar_transport := Some v\<rparr>
      else if n = ''--host'' then a\<lparr>ar_host := Some v\<rparr>
      else if n = ''--gateway-advertise-host'' then a\<lparr>ar_advertise_host := Some v\<rparr>
      else if n = ''--gateway-ws-url'' then a\<lparr>ar_ws_url := Some v\<rparr>
      else a\<lparr>ar_remote_tag := Some v\<rparr>)"

definition put_number :: "string \<Rightarrow> int \<Rightarrow> cli_args \<Rightarrow> cli_args" where
  "put_number n i a = (if n = ''--port'' then a\<lparr>ar_port := Some i\<rparr> else a\<lparr>ar_gateway_port := Some i\<rparr>)"

definition append_to :: "string list option \<Rightarrow> string \<Rightarrow> string list option" where
  "append_to xs v = Some ((case xs of None \<Rightarrow> [] | Some ys \<Rightarrow> ys) @ [v])"

definition put_item :: "string \<Rightarrow> string \<Rightarrow> cli_args \<Rightarrow> cli_args" where
  "put_item n v a =
     (if n = ''--gateway-allow-ip'' then a\<lparr>ar_allow_ip := append_to (ar_allow_ip a) v\<rparr>
      else if n = ''--http-allow-user'' then a\<lparr>ar_http_user := append_to (ar_http_user a) v\<rparr>
      else a\<lparr>ar_ssh_user := append_to (ar_ssh_user a) v\<rparr>)"

text \<open>The value of an option that takes one: a number must read, a choice must be offered.\<close>

fun put_value :: "opt_kind \<Rightarrow> string \<Rightarrow> string \<Rightarrow> cli_args \<Rightarrow> cli_args option" where
  "put_value Text n v a = Some (put_text n v a)"
| "put_value Number n v a = map_option (\<lambda>i. put_number n i a) (py_int v)"
| "put_value (OneOf cs) n v a = (if v \<in> set cs then Some (put_text n v a) else None)"
| "put_value Append n v a = Some (put_item n v a)"
| "put_value _ n v a = None"

fun parse_words :: "string list \<Rightarrow> cli_args \<Rightarrow> cli_args option" where
  "parse_words [] a = Some a"
| "parse_words (w # ws) a = (case classify w of
      Option n x \<Rightarrow>
        (case map_of cli_options n of
           None \<Rightarrow> None
         | Some Help \<Rightarrow> None
         | Some Switch \<Rightarrow> (if x = None then parse_words ws (put_switch n a) else None)
         | Some k \<Rightarrow>
             (case x of
                Some v \<Rightarrow> Option.bind (put_value k n v a) (parse_words ws)
              | None \<Rightarrow>
                  (case ws of
                     v # vs \<Rightarrow> if classify v = Value then Option.bind (put_value k n v a) (parse_words vs) else None
                   | [] \<Rightarrow> None)))
    | _ \<Rightarrow> None)"

definition parse_args :: "string list \<Rightarrow> cli_args option" where
  "parse_args argv = parse_words argv no_args"

text \<open>The whole start: \<open>None\<close> when the command line is not one to start with.\<close>

definition main_start :: "environ \<Rightarrow> string list \<Rightarrow> startup option" where
  "main_start env argv = map_option (start env) (parse_args argv)"

section \<open>Spelling arguments\<close>

text \<open>One way to write given arguments on a command line.\<close>

definition say_text :: "string \<Rightarrow> string option \<Rightarrow> string list" where
  "say_text n x = (case x of None \<Rightarrow> [] | Some v \<Rightarrow> [n @ ''='' @ v])"

definition say_number :: "string \<Rightarrow> int option \<Rightarrow> string list" where
  "say_number n x = (case x of None \<Rightarrow> [] | Some i \<Rightarrow> [n @ ''='' @ str_int i])"

definition say_items :: "string \<Rightarrow> string list option \<Rightarrow> string list" where
  "say_items n x = (case x of None \<Rightarrow> [] | Some vs \<Rightarrow> map (\<lambda>v. n @ ''='' @ v) vs)"

definition say_switch :: "string \<Rightarrow> bool \<Rightarrow> string list" where
  "say_switch n b = (if b then [n] else [])"

definition argv_of :: "cli_args \<Rightarrow> string list" where
  "argv_of a =
     say_text ''--url'' (ar_url a) @ say_text ''--token'' (ar_token a) @ say_text ''--api-version'' (ar_api_version a) @
     say_switch ''--read-only'' (ar_read_only a) @ say_text ''--transport'' (ar_transport a) @
     say_text ''--host'' (ar_host a) @ say_number ''--port'' (ar_port a) @ say_switch ''--gateway'' (ar_gateway a) @
     say_number ''--gateway-port'' (ar_gateway_port a) @ say_text ''--gateway-advertise-host'' (ar_advertise_host a) @
     say_items ''--gateway-allow-ip'' (ar_allow_ip a) @ say_text ''--gateway-ws-url'' (ar_ws_url a) @
     say_items ''--http-allow-user'' (ar_http_user a) @ say_items ''--ssh-allow-user'' (ar_ssh_user a) @
     say_text ''--remote-access-tag'' (ar_remote_tag a)"

text \<open>What the command line can say: a transport that is offered, no empty list.\<close>

definition sayable :: "cli_args \<Rightarrow> bool" where
  "sayable a \<longleftrightarrow> plain_num (ar_port a) \<and> plain_num (ar_gateway_port a) \<and>
     ar_transport a \<in> {None, Some ''stdio'', Some ''streamable-http''} \<and>
     ar_allow_ip a \<noteq> Some [] \<and> ar_http_user a \<noteq> Some [] \<and> ar_ssh_user a \<noteq> Some []"

section \<open>Reading what was written\<close>

lemma before_eq: "CHR ''='' \<notin> set n \<Longrightarrow> before_char CHR ''='' (n @ CHR ''='' # v) = n"
  by (induction n) (auto simp: before_char_def)

lemma names_no_eq: "n \<in> set opt_names \<Longrightarrow> CHR ''='' \<notin> set n \<and> n \<noteq> [] \<and> hd n = CHR ''-''"
  by (auto simp: opt_names_def cli_options_def)

lemma classify_name: "n \<in> set opt_names \<Longrightarrow> classify n = Option n None"
  using names_no_eq [of n] by (simp add: classify_def)

lemma classify_eq:
  assumes "n \<in> set opt_names"
  shows "classify (n @ CHR ''='' # v) = Option n (Some v)"
proof -
  let ?w = "n @ CHR ''='' # v"
  have n: "CHR ''='' \<notin> set n" "n \<noteq> []" "hd n = CHR ''-''" using names_no_eq [OF assms] by auto
  have "?w \<notin> set opt_names" using names_no_eq [of ?w] by auto
  moreover have "?w \<noteq> ''-''" using n by (cases n) auto
  ultimately show ?thesis
    using n assms by (simp add: classify_def Let_def before_eq after_eq_def hd_append)
qed

lemma parse_switch:
  "n \<in> {''--read-only'', ''--gateway''} \<Longrightarrow> parse_words (n # ws) a = parse_words ws (put_switch n a)"
proof -
  assume n: "n \<in> {''--read-only'', ''--gateway''}"
  then have "classify n = Option n None" by (intro classify_name) (auto simp: opt_names_def cli_options_def)
  moreover have "map_of cli_options ''--read-only'' = Some Switch" "map_of cli_options ''--gateway'' = Some Switch"
    by (simp_all add: cli_options_def)
  then have "map_of cli_options n = Some Switch" using n by blast
  ultimately show ?thesis by simp
qed

lemma parse_value:
  assumes "map_of cli_options n = Some k" "k \<noteq> Switch" "k \<noteq> Help"
  shows "parse_words ((n @ CHR ''='' # v) # ws) a = Option.bind (put_value k n v a) (parse_words ws)"
proof -
  have "n \<in> set opt_names" using map_of_SomeD [OF assms(1)] by (force simp: opt_names_def)
  then show ?thesis using assms by (cases k) (simp_all add: classify_eq)
qed

lemma parse_text:
  "map_of cli_options n = Some Text \<Longrightarrow> parse_words (say_text n x @ ws) a =
     parse_words ws (case x of None \<Rightarrow> a | Some v \<Rightarrow> put_text n v a)"
  by (cases x) (simp_all add: say_text_def parse_value del: parse_words.simps(2))

lemma parse_choice:
  "map_of cli_options n = Some (OneOf cs) \<Longrightarrow> x = None \<or> the x \<in> set cs \<Longrightarrow> parse_words (say_text n x @ ws) a =
     parse_words ws (case x of None \<Rightarrow> a | Some v \<Rightarrow> put_text n v a)"
  by (cases x) (simp_all add: say_text_def parse_value del: parse_words.simps(2))

lemma parse_number:
  "map_of cli_options n = Some Number \<Longrightarrow> plain_num x \<Longrightarrow> parse_words (say_number n x @ ws) a =
     parse_words ws (case x of None \<Rightarrow> a | Some i \<Rightarrow> put_number n i a)"
  by (cases x) (simp_all add: say_number_def parse_value plain_num_def py_int_str_int del: parse_words.simps(2))

lemma parse_say_switch:
  "n \<in> {''--read-only'', ''--gateway''} \<Longrightarrow>
     parse_words (say_switch n b @ ws) a = parse_words ws (if b then put_switch n a else a)"
  by (simp add: say_switch_def parse_switch del: parse_words.simps(2))

lemma parse_items:
  "map_of cli_options n = Some Append \<Longrightarrow> parse_words (say_items n x @ ws) a =
     parse_words ws (fold (put_item n) (case x of None \<Rightarrow> [] | Some vs \<Rightarrow> vs) a)"
proof (cases x)
  case (Some vs)
  assume n: "map_of cli_options n = Some Append"
  have "parse_words (map (\<lambda>v. n @ ''='' @ v) vs @ ws) a = parse_words ws (fold (put_item n) vs a)" for a
    by (induction vs arbitrary: a) (simp_all add: parse_value [OF n] del: parse_words.simps(2))
  then show ?thesis using Some by (simp add: say_items_def)
qed (simp add: say_items_def)

text \<open>The effect of one spelled option on arguments that do not have it yet.\<close>

lemma put_fields:
  "ar_url a = None \<Longrightarrow> (case x of None \<Rightarrow> a | Some v \<Rightarrow> put_text ''--url'' v a) = a\<lparr>ar_url := x\<rparr>"
  "ar_token a = None \<Longrightarrow> (case x of None \<Rightarrow> a | Some v \<Rightarrow> put_text ''--token'' v a) = a\<lparr>ar_token := x\<rparr>"
  "ar_api_version a = None \<Longrightarrow> (case x of None \<Rightarrow> a | Some v \<Rightarrow> put_text ''--api-version'' v a) = a\<lparr>ar_api_version := x\<rparr>"
  "ar_transport a = None \<Longrightarrow> (case x of None \<Rightarrow> a | Some v \<Rightarrow> put_text ''--transport'' v a) = a\<lparr>ar_transport := x\<rparr>"
  "ar_host a = None \<Longrightarrow> (case x of None \<Rightarrow> a | Some v \<Rightarrow> put_text ''--host'' v a) = a\<lparr>ar_host := x\<rparr>"
  "ar_advertise_host a = None \<Longrightarrow>
     (case x of None \<Rightarrow> a | Some v \<Rightarrow> put_text ''--gateway-advertise-host'' v a) = a\<lparr>ar_advertise_host := x\<rparr>"
  "ar_ws_url a = None \<Longrightarrow> (case x of None \<Rightarrow> a | Some v \<Rightarrow> put_text ''--gateway-ws-url'' v a) = a\<lparr>ar_ws_url := x\<rparr>"
  "ar_remote_tag a = None \<Longrightarrow> (case x of None \<Rightarrow> a | Some v \<Rightarrow> put_text ''--remote-access-tag'' v a) = a\<lparr>ar_remote_tag := x\<rparr>"
  "ar_port a = None \<Longrightarrow> (case i of None \<Rightarrow> a | Some v \<Rightarrow> put_number ''--port'' v a) = a\<lparr>ar_port := i\<rparr>"
  "ar_gateway_port a = None \<Longrightarrow> (case i of None \<Rightarrow> a | Some v \<Rightarrow> put_number ''--gateway-port'' v a) = a\<lparr>ar_gateway_port := i\<rparr>"
  "\<not> ar_read_only a \<Longrightarrow> (if b then put_switch ''--read-only'' a else a) = a\<lparr>ar_read_only := b\<rparr>"
  "\<not> ar_gateway a \<Longrightarrow> (if b then put_switch ''--gateway'' a else a) = a\<lparr>ar_gateway := b\<rparr>"
  by (cases a; simp add: put_text_def put_number_def put_switch_def split: option.splits)+

lemma fold_items:
  "fold (put_item ''--gateway-allow-ip'') vs a =
     (if vs = [] then a else a\<lparr>ar_allow_ip := Some ((case ar_allow_ip a of None \<Rightarrow> [] | Some ys \<Rightarrow> ys) @ vs)\<rparr>)"
  "fold (put_item ''--http-allow-user'') vs a =
     (if vs = [] then a else a\<lparr>ar_http_user := Some ((case ar_http_user a of None \<Rightarrow> [] | Some ys \<Rightarrow> ys) @ vs)\<rparr>)"
  "fold (put_item ''--ssh-allow-user'') vs a =
     (if vs = [] then a else a\<lparr>ar_ssh_user := Some ((case ar_ssh_user a of None \<Rightarrow> [] | Some ys \<Rightarrow> ys) @ vs)\<rparr>)"
  by (induction vs arbitrary: a) (simp_all add: put_item_def append_to_def)

lemma put_items:
  assumes "x \<noteq> Some []"
  shows "ar_allow_ip a = None \<Longrightarrow>
      fold (put_item ''--gateway-allow-ip'') (case x of None \<Rightarrow> [] | Some vs \<Rightarrow> vs) a = a\<lparr>ar_allow_ip := x\<rparr>"
    "ar_http_user a = None \<Longrightarrow>
      fold (put_item ''--http-allow-user'') (case x of None \<Rightarrow> [] | Some vs \<Rightarrow> vs) a = a\<lparr>ar_http_user := x\<rparr>"
    "ar_ssh_user a = None \<Longrightarrow>
      fold (put_item ''--ssh-allow-user'') (case x of None \<Rightarrow> [] | Some vs \<Rightarrow> vs) a = a\<lparr>ar_ssh_user := x\<rparr>"
  using assms by (cases a; cases x; simp add: fold_items)+

lemma option_kinds:
  "map_of cli_options ''--url'' = Some Text" "map_of cli_options ''--token'' = Some Text"
  "map_of cli_options ''--api-version'' = Some Text" "map_of cli_options ''--host'' = Some Text"
  "map_of cli_options ''--transport'' = Some (OneOf [''stdio'', ''streamable-http''])"
  "map_of cli_options ''--port'' = Some Number" "map_of cli_options ''--gateway-port'' = Some Number"
  "map_of cli_options ''--gateway-advertise-host'' = Some Text" "map_of cli_options ''--gateway-ws-url'' = Some Text"
  "map_of cli_options ''--remote-access-tag'' = Some Text" "map_of cli_options ''--gateway-allow-ip'' = Some Append"
  "map_of cli_options ''--http-allow-user'' = Some Append" "map_of cli_options ''--ssh-allow-user'' = Some Append"
  by (simp_all add: cli_options_def)

lemma parse_argv:
  assumes "sayable a"
  shows "parse_args (argv_of a) = Some a"
proof -
  have s: "plain_num (ar_port a)" "plain_num (ar_gateway_port a)"
    "ar_transport a = None \<or> the (ar_transport a) \<in> set [''stdio'', ''streamable-http'']"
    "ar_allow_ip a \<noteq> Some []" "ar_http_user a \<noteq> Some []" "ar_ssh_user a \<noteq> Some []"
    using assms by (auto simp: sayable_def)
  note last = parse_text [of "''--remote-access-tag''" "ar_remote_tag a" "[]", simplified]
  have "parse_args (argv_of a) = Some (no_args\<lparr>ar_url := ar_url a, ar_token := ar_token a,
      ar_api_version := ar_api_version a, ar_read_only := ar_read_only a, ar_transport := ar_transport a,
      ar_host := ar_host a, ar_port := ar_port a, ar_gateway := ar_gateway a, ar_gateway_port := ar_gateway_port a,
      ar_advertise_host := ar_advertise_host a, ar_allow_ip := ar_allow_ip a, ar_ws_url := ar_ws_url a,
      ar_http_user := ar_http_user a, ar_ssh_user := ar_ssh_user a, ar_remote_tag := ar_remote_tag a\<rparr>)"
    unfolding parse_args_def argv_of_def
    by (simp only: parse_text parse_choice parse_number parse_say_switch parse_items option_kinds s last
        insert_iff simp_thms) (simp add: put_fields put_items s no_args_def)
  then show ?thesis by (cases a) (simp add: no_args_def)
qed



text \<open>A beginning of a name is enough when it is the beginning of one only; a negative number is a
  value, a switch takes none.\<close>

lemma spellings:
  "parse_args [''--ur=x''] = parse_args [''--url'', ''x'']" "parse_args [''--gate''] = None"
  "parse_args [''--gateway=1''] = None" "parse_args [''--host'', ''--url''] = None"
  by code_simp+

end
