(* ===== verification/Jobs.thy ===== *)
theory Jobs
  imports Gateway Client
begin

text \<open>
  The jobs the server builds, \<^verbatim>\<open>lava_mcp/jobs.py\<close>: the label of a download, the action
  that fetches downloads, and the whole job of an interactive session as the value that is
  dumped as YAML. With it, \<^verbatim>\<open>base64\<close> as the jobs use it.
\<close>

section \<open>Base 64\<close>

definition b64_char :: "nat \<Rightarrow> char" where
  "b64_char n =
     (if n < 26 then char_of (65 + n) else if n < 52 then char_of (71 + n)
      else if n < 62 then char_of (n - 4) else if n = 62 then CHR ''+'' else CHR ''/'')"

fun b64encode :: "char list \<Rightarrow> string" where
  "b64encode [] = []"
| "b64encode [a] = [b64_char (code a div 4), b64_char (code a mod 4 * 16), CHR ''='', CHR ''='']"
| "b64encode [a, b] = [b64_char (code a div 4), b64_char (code a mod 4 * 16 + code b div 16),
     b64_char (code b mod 16 * 4), CHR ''='']"
| "b64encode (a # b # c # bs) = b64_char (code a div 4) # b64_char (code a mod 4 * 16 + code b div 16) #
     b64_char (code b mod 16 * 4 + code c div 64) # b64_char (code c mod 64) # b64encode bs"

text \<open>What a decoder makes of it: the reference for the encoder.\<close>

definition b64_val :: "char \<Rightarrow> nat" where
  "b64_val c = (let n = code c in
     if 65 \<le> n \<and> n \<le> 90 then n - 65 else if 97 \<le> n \<and> n \<le> 122 then n - 71
     else if 48 \<le> n \<and> n \<le> 57 then n + 4 else if c = CHR ''+'' then 62 else 63)"

fun b64decode :: "string \<Rightarrow> char list" where
  "b64decode (p # q # r # s # cs) =
     (if r = CHR ''='' then [char_of (b64_val p * 4 + b64_val q div 16)]
      else if s = CHR ''='' then [char_of (b64_val p * 4 + b64_val q div 16),
        char_of (b64_val q mod 16 * 16 + b64_val r div 4)]
      else char_of (b64_val p * 4 + b64_val q div 16) # char_of (b64_val q mod 16 * 16 + b64_val r div 4) #
        char_of (b64_val r mod 4 * 64 + b64_val s) # b64decode cs)"
| "b64decode _ = []"

section \<open>Downloads\<close>

text \<open>\<^verbatim>\<open>item["key"]\<close> on whatever the caller sent.\<close>

definition py_index :: "jval \<Rightarrow> string \<Rightarrow> exc + jval" where
  "py_index v k = (case v of
      JDict d \<Rightarrow> (case item_of d k of None \<Rightarrow> Inl KeyError | Some x \<Rightarrow> Inr x)
    | _ \<Rightarrow> Inl TypeError)"

text \<open>The text of a URL: an empty value counts as the empty text, any other that is not a string has no \<^verbatim>\<open>rstrip\<close>.\<close>

definition url_text :: "jval \<Rightarrow> exc + string" where
  "url_text v = (if \<not> truthy v then Inr [] else case v of JStr s \<Rightarrow> Inr s | _ \<Rightarrow> Inl AttributeError)"

definition label_stem :: "string \<Rightarrow> string" where
  "label_stem url = strip_char CHR ''_'' (sub_runs safe_char
     (before_char CHR ''?'' (after_last CHR ''/'' (rstrip_char CHR ''/'' url))))"

definition download_label :: "jval \<Rightarrow> nat \<Rightarrow> exc + string" where
  "download_label url i = bind_res (url_text url) (\<lambda>u.
     Inr (if label_stem u \<noteq> [] then label_stem u else ''dl'' @ str_nat i))"

text \<open>
  \<^verbatim>\<open>while label in images: label = f"{label}_{i}"\<close>. It ends because every round makes the
  label longer, and only finitely many labels are taken.
\<close>

function fresh_label :: "nat \<Rightarrow> string list \<Rightarrow> string \<Rightarrow> string" where
  "fresh_label i taken label =
     (if label \<in> set taken then fresh_label i taken (label @ ''_'' @ str_nat i) else label)"
  by pat_completeness auto
termination
proof (relation "measure (\<lambda>(i, taken, label). length (filter (\<lambda>t. length label \<le> length t) taken))")
  fix i :: nat and taken :: "string list" and label :: string
  assume "label \<in> set taken"
  moreover have "filter (\<lambda>t. length (label @ ''_'' @ str_nat i) \<le> length t) taken =
      filter (\<lambda>t. length (label @ ''_'' @ str_nat i) \<le> length t) (filter (\<lambda>t. length label \<le> length t) taken)"
    by (auto intro: filter_cong)
  ultimately have "length (filter (\<lambda>t. length (label @ ''_'' @ str_nat i) \<le> length t) taken) <
      length (filter (\<lambda>t. length label \<le> length t) taken)"
    using length_filter_less [of label "filter (\<lambda>t. length label \<le> length t) taken"
        "\<lambda>t. length (label @ ''_'' @ str_nat i) \<le> length t"] by simp
  then show "((i, taken, label @ ''_'' @ str_nat i), i, taken, label) \<in>
      measure (\<lambda>(i, taken, label). length (filter (\<lambda>t. length label \<le> length t) taken))" by simp
qed simp

declare fresh_label.simps [simp del]

type_synonym images = "(string \<times> jval) list"

definition image_entry :: "jval \<Rightarrow> jval \<Rightarrow> jval" where
  "image_entry url headers = obj ((''url'', url) # (if truthy headers then [(''headers'', headers)] else []))"

definition add_download :: "nat \<Rightarrow> jval \<Rightarrow> images \<Rightarrow> exc + images" where
  "add_download i item ims =
     bind_res (py_index item ''url'') (\<lambda>url.
     bind_res (download_label url i) (\<lambda>l0.
     bind_res (py_get item ''headers'' JNull) (\<lambda>hs.
       Inr (dict_set (fresh_label i (dict_keys ims) l0) (image_entry url hs) ims))))"

fun download_images :: "nat \<Rightarrow> jval list \<Rightarrow> images \<Rightarrow> exc + images" where
  "download_images i [] ims = Inr ims"
| "download_images i (item # items) ims = bind_res (add_download i item ims) (download_images (Suc i) items)"

definition minutes :: "int \<Rightarrow> jval" where
  "minutes n = obj [(''minutes'', JInt n)]"

definition build_downloads_action :: "jval list \<Rightarrow> string option \<Rightarrow> int \<Rightarrow> exc + jval" where
  "build_downloads_action downloads ns timeout_minutes =
     bind_res (download_images 0 downloads []) (\<lambda>ims.
       Inr (obj [(''deploy'', obj ([(''to'', JStr ''downloads''), (''timeout'', minutes timeout_minutes),
         (''images'', obj ims)] @
         (case ns of Some n \<Rightarrow> if n \<noteq> [] then [(''namespace'', JStr n)] else [] | None \<Rightarrow> [])))]))"

section \<open>The job of an interactive session\<close>

definition job_parameters :: "config \<Rightarrow> board_session \<Rightarrow> jval" where
  "job_parameters cfg b = obj [
     (''GATEWAY_HOST'', JStr (or_str (cf_advertise_host cfg) (cf_host cfg))),
     (''GATEWAY_WS_URL'', JStr (cf_ws_url cfg)),
     (''SESSION_ID'', JStr (session_id b)),
     (''REVERSE_PORT'', JStr (str_int (reverse_port b))),
     (''SESSION_PRIVATE_KEY'', JStr (private_key b)),
     (''SESSION_PUBLIC_KEY'', JStr (public_key b))]"

definition job_tags :: "config \<Rightarrow> string list option \<Rightarrow> string list" where
  "job_tags cfg tags = (let ts = (case tags of None \<Rightarrow> [] | Some xs \<Rightarrow> xs) in
     if cf_remote_tag cfg \<noteq> [] \<and> cf_remote_tag cfg \<notin> set ts then ts @ [cf_remote_tag cfg] else ts)"

definition board_action :: "config \<Rightarrow> board_session \<Rightarrow> string option \<Rightarrow> int \<Rightarrow> bool \<Rightarrow> jval" where
  "board_action cfg b img timeout_minutes named = obj [(''test'', obj ([
     (''timeout'', minutes timeout_minutes),
     (''docker'', obj [(''image'', JStr (or_str img (cf_image cfg)))]),
     (''device_commands'', JBool True),
     (''definitions'', JList [obj [
        (''repository'', JStr (cf_repo cfg)), (''from'', JStr ''git''), (''path'', JStr (cf_path cfg)),
        (''name'', JStr ''interactive-ssh-gateway''), (''parameters'', job_parameters cfg b)]])] @
     (if named then [(''namespace'', JStr ''board'')] else [])))]"

definition console_action :: "config \<Rightarrow> int \<Rightarrow> jval" where
  "console_action cfg timeout_minutes = obj [(''test'', obj [
     (''namespace'', JStr ''console''),
     (''timeout'', minutes timeout_minutes),
     (''services'', JList [obj [
        (''name'', JStr ''ser2net-proxy''), (''from'', JStr ''git''), (''repository'', JStr (cf_repo cfg)),
        (''path'', JStr ''interactive/ser2net-proxy/docker-compose.yml'')]])])]"

definition key_b64 :: "board_session \<Rightarrow> string" where
  "key_b64 b = b64encode (encode (private_key b))"

definition console_environment :: "config \<Rightarrow> board_session \<Rightarrow> jval" where
  "console_environment cfg c = obj [
     (''SER2NET_NETWORK'', JStr ''lava-dispatcher_default''),
     (''CONSOLE_READY_SENTINEL'', JStr []),
     (''GATEWAY_HOST'', JStr (or_str (cf_advertise_host cfg) (cf_host cfg))),
     (''GATEWAY_WS_URL'', JStr (cf_ws_url cfg)),
     (''SESSION_ID'', JStr (session_id c)),
     (''REVERSE_PORT'', JStr (str_int (reverse_port c))),
     (''SESSION_PRIVATE_KEY_B64'', JStr (key_b64 c))]"

text \<open>What a caller asks for.\<close>

record job_request =
  jr_device_type :: string
  jr_tags :: "string list option"
  jr_image :: "string option"
  jr_minutes :: int
  jr_downloads :: "jval list"
  jr_private :: bool

definition interactive_job :: "config \<Rightarrow> board_session \<Rightarrow> job_request \<Rightarrow> board_session option \<Rightarrow> exc + jval" where
  "interactive_job cfg b rq console =
     (let con = (case console of Some c \<Rightarrow> if cf_ws_url cfg \<noteq> [] then Some c else None | None \<Rightarrow> None);
          dl = jr_downloads rq; m = jr_minutes rq; tags = job_tags cfg (jr_tags rq) in
     bind_res (if dl = [] then Inr [] else bind_res (build_downloads_action dl (Some ''board'') m) (\<lambda>a. Inr [a])) (\<lambda>das.
       Inr (obj ([
         (''device_type'', JStr (jr_device_type rq)),
         (''job_name'', JStr (''lava-mcp interactive '' @ session_id b)),
         (''timeouts'', obj [(''job'', minutes m), (''action'', minutes m), (''connection'', minutes 5)]),
         (''priority'', JStr ''low'')] @
         (if jr_private rq then [(''visibility'', JStr ''personal'')] else []) @
         (case con of Some c \<Rightarrow> [(''environment'', console_environment cfg c)] | None \<Rightarrow> []) @
         [(''actions'', JList ((case con of Some c \<Rightarrow> [console_action cfg m] | None \<Rightarrow> []) @ das @
            [board_action cfg b (jr_image rq) m (con \<noteq> None \<or> dl \<noteq> [])]))] @
         (if tags \<noteq> [] then [(''tags'', JList (map JStr tags))] else [])))))"

definition build_interactive_job :: "lava_ext \<Rightarrow> config \<Rightarrow> board_session \<Rightarrow> job_request \<Rightarrow> board_session option \<Rightarrow>
    exc + string" where
  "build_interactive_job X cfg b rq console = bind_res (interactive_job cfg b rq console) (\<lambda>j. Inr (ex_dump X j))"

section \<open>Base 64 decodes\<close>

lemma b64_val_char: "n < 64 \<Longrightarrow> b64_val (b64_char n) = n"
  by (auto simp: b64_val_def b64_char_def Let_def code_char_of)

lemma b64_char_not_pad: "b64_char n \<noteq> CHR ''=''"
proof -
  have "code (b64_char n) \<noteq> (61::nat)" by (auto simp: b64_char_def code_char_of)
  then show ?thesis by auto
qed

lemma code_bound: "code (c :: char) < (256::nat)"
  by simp

text \<open>The pieces of three bytes, taken apart again.\<close>

lemma pack_div_mod: "(m :: nat) < n \<Longrightarrow> (k * n + m) div n = k \<and> (k * n + m) mod n = m"
  by simp

lemma b64_second: "(y :: nat) < 256 \<Longrightarrow> (x mod 4 * 16 + y div 16) div 16 = x mod 4 \<and>
    (x mod 4 * 16 + y div 16) mod 16 = y div 16"
  using pack_div_mod [of "y div 16" 16 "x mod 4"] by (simp add: div_less_iff_less_mult)

lemma b64_third: "(z :: nat) < 256 \<Longrightarrow> (y mod 16 * 4 + z div 64) div 4 = y mod 16 \<and>
    (y mod 16 * 4 + z div 64) mod 4 = z div 64"
  using pack_div_mod [of "z div 64" 4 "y mod 16"] by (simp add: div_less_iff_less_mult)

lemma b64_bounds:
  fixes x y z :: nat
  assumes "x < 256" "y < 256" "z < 256"
  shows "x div 4 < 64" "x mod 4 * 16 + y div 16 < 64" "y mod 16 * 4 + z div 64 < 64"
    "x mod 4 * 16 < 64" "y mod 16 * 4 < 64"
proof -
  have "y div 16 < 16" "z div 64 < 4" "x mod 4 < 4" "y mod 16 < 16" "x div 4 < 64"
    using assms by (simp_all add: div_less_iff_less_mult)
  then show "x div 4 < 64" "x mod 4 * 16 + y div 16 < 64" "y mod 16 * 4 + z div 64 < 64"
    "x mod 4 * 16 < 64" "y mod 16 * 4 < 64" by linarith+
qed

lemma b64_decode_encode: "b64decode (b64encode bs) = bs"
proof (induction bs rule: b64encode.induct)
  case (2 a)
  have "code a div 4 < (64::nat)" "code a mod 4 * 16 < (64::nat)"
    using b64_bounds [of "code a" 0 0] by simp_all
  then show ?case by (simp add: b64_val_char)
next
  case (3 a b)
  have "code a div 4 < (64::nat)" "code a mod 4 * 16 + code b div 16 < (64::nat)" "code b mod 16 * 4 < (64::nat)"
    using b64_bounds [of "code a" "code b" 0] by simp_all
  then show ?case
    using b64_second [of "code b" "code a"] by (simp add: b64_val_char b64_char_not_pad)
next
  case (4 a b c bs)
  have "code a div 4 < (64::nat)" "code a mod 4 * 16 + code b div 16 < (64::nat)"
      "code b mod 16 * 4 + code c div 64 < (64::nat)"
    using b64_bounds [of "code a" "code b" "code c"] by simp_all
  then show ?case
    using b64_second [of "code b" "code a"] b64_third [of "code c" "code b"] 4 by (simp add: b64_val_char b64_char_not_pad)
qed simp

lemma b64_char_plain: "\<not> is_space (b64_char n) \<and> b64_char n \<noteq> CHR 0x0A"
proof -
  have "code (b64_char n) \<ge> (43::nat) \<and> code (b64_char n) \<le> (122::nat)"
    by (auto simp: b64_char_def code_char_of)
  then show ?thesis by (auto simp: is_space_def Let_def)
qed

lemma b64_one_line: "c \<in> set (b64encode bs) \<Longrightarrow> \<not> is_space c"
proof -
  have "\<not> is_space CHR ''=''" by (simp add: is_space_def)
  then show "c \<in> set (b64encode bs) \<Longrightarrow> \<not> is_space c"
    by (induction bs rule: b64encode.induct) (auto simp: b64_char_plain)
qed

section \<open>Labels\<close>

lemma fresh_label_fresh: "fresh_label i taken label \<notin> set taken"
proof (induction i taken label rule: fresh_label.induct)
  case (1 i taken label)
  then show ?case by (subst fresh_label.simps) simp
qed

lemma fresh_label_form:
  "\<exists>n \<le> length (filter (\<lambda>t. length label \<le> length t) taken).
     fresh_label i taken label = label @ concat (replicate n (''_'' @ str_nat i))"
proof (induction i taken label rule: fresh_label.induct)
  case (1 i taken label)
  let ?l = "label @ ''_'' @ str_nat i"
  show ?case
  proof (cases "label \<in> set taken")
    case False
    then show ?thesis by (subst fresh_label.simps) (auto intro: exI [of _ 0])
  next
    case True
    obtain n where n: "n \<le> length (filter (\<lambda>t. length ?l \<le> length t) taken)"
        "fresh_label i taken ?l = ?l @ concat (replicate n (''_'' @ str_nat i))"
      using 1 True by blast
    have "filter (\<lambda>t. length ?l \<le> length t) taken =
        filter (\<lambda>t. length ?l \<le> length t) (filter (\<lambda>t. length label \<le> length t) taken)"
      by (auto intro: filter_cong)
    then have "length (filter (\<lambda>t. length ?l \<le> length t) taken) <
        length (filter (\<lambda>t. length label \<le> length t) taken)"
      using length_filter_less [of label "filter (\<lambda>t. length label \<le> length t) taken"] True by simp
    then have "Suc n \<le> length (filter (\<lambda>t. length label \<le> length t) taken)" using n(1) by simp
    moreover have "fresh_label i taken label = label @ concat (replicate (Suc n) (''_'' @ str_nat i))"
      using True n(2) by (subst fresh_label.simps) simp
    ultimately show ?thesis by blast
  qed
qed

section \<open>Looking into a job\<close>

fun at_path :: "string list \<Rightarrow> jval \<Rightarrow> jval option" where
  "at_path [] v = Some v"
| "at_path (k # ks) (JDict d) = (case item_of d k of None \<Rightarrow> None | Some x \<Rightarrow> at_path ks x)"
| "at_path (k # ks) _ = None"

lemma at_path_obj [simp]:
  "at_path (k # ks) (obj kvs) = (case map_of kvs k of None \<Rightarrow> None | Some x \<Rightarrow> at_path ks x)"
  by (simp add: obj_def item_of_obj)

text \<open>An item a caller may send: a dictionary with a URL that is a text or empty.\<close>

definition item_ok :: "jval \<Rightarrow> bool" where
  "item_ok item \<longleftrightarrow> (case at_path [''url''] item of
     None \<Rightarrow> False | Some u \<Rightarrow> \<not> truthy u \<or> (\<exists>s. u = JStr s))"

text \<open>What becomes of it: the same URL, and the same headers unless they are empty.\<close>

definition image_of :: "jval \<Rightarrow> jval" where
  "image_of item = image_entry (the (at_path [''url''] item))
     (case at_path [''headers''] item of None \<Rightarrow> JNull | Some h \<Rightarrow> h)"

lemma add_download_ok:
  "item_ok item \<Longrightarrow> \<exists>l. l \<notin> set (dict_keys ims) \<and> add_download i item ims = Inr (ims @ [(l, image_of item)])"
proof -
  assume ok: "item_ok item"
  then obtain d u where d: "item = JDict d" "item_of d ''url'' = Some u" "\<not> truthy u \<or> (\<exists>s. u = JStr s)"
    by (cases item) (auto simp: item_ok_def split: option.splits)
  then obtain t where "url_text u = Inr t" by (cases "truthy u") (auto simp: url_text_def)
  then obtain l0 where l0: "download_label u i = Inr l0" by (auto simp: download_label_def)
  have "fresh_label i (dict_keys ims) l0 \<notin> set (dict_keys ims)" by (rule fresh_label_fresh)
  then show ?thesis
    using d l0 by (auto simp: add_download_def py_index_def image_of_def dict_set_fresh split: option.splits)
qed

lemma add_download_bad: "\<not> item_ok item \<Longrightarrow> \<exists>e \<in> {KeyError, TypeError, AttributeError}. add_download i item ims = Inl e"
proof (cases item)
  case (JDict d)
  assume bad: "\<not> item_ok item"
  show ?thesis
  proof (cases "item_of d ''url''")
    case None
    then show ?thesis using JDict by (simp add: add_download_def py_index_def)
  next
    case (Some u)
    then have "truthy u" "\<nexists>s. u = JStr s" using bad JDict by (auto simp: item_ok_def)
    then have "download_label u i = Inl AttributeError"
      by (cases u) (simp_all add: download_label_def url_text_def)
    then show ?thesis using Some JDict by (simp add: add_download_def py_index_def)
  qed
qed (simp_all add: add_download_def py_index_def)

lemma download_images_ok:
  "list_all item_ok items \<Longrightarrow> distinct (dict_keys ims) \<Longrightarrow>
     \<exists>ls. length ls = length items \<and> distinct (dict_keys ims @ ls) \<and>
       download_images i items ims = Inr (ims @ zip ls (map image_of items))"
proof (induction items arbitrary: i ims)
  case (Cons item items)
  then obtain l where l: "l \<notin> set (dict_keys ims)" "add_download i item ims = Inr (ims @ [(l, image_of item)])"
    using add_download_ok [of item ims i] by auto
  then obtain ls where ls: "length ls = length items" "distinct (dict_keys (ims @ [(l, image_of item)]) @ ls)"
      "download_images (Suc i) items (ims @ [(l, image_of item)]) =
       Inr ((ims @ [(l, image_of item)]) @ zip ls (map image_of items))"
    using Cons.IH [of "ims @ [(l, image_of item)]" "Suc i"] Cons.prems by auto
  then show ?case using l by (intro exI [of _ "l # ls"]) simp
qed simp

lemma download_images_bad:
  "\<not> list_all item_ok items \<Longrightarrow> \<exists>e \<in> {KeyError, TypeError, AttributeError}. download_images i items ims = Inl e"
proof (induction items arbitrary: i ims)
  case (Cons item items)
  show ?case
  proof (cases "item_ok item")
    case True
    then have "\<not> list_all item_ok items" using Cons.prems by simp
    note later = Cons.IH [OF this]
    obtain l where "add_download i item ims = Inr (ims @ [(l, image_of item)])"
      using add_download_ok [OF True] by blast
    then have "download_images i (item # items) ims = download_images (Suc i) items (ims @ [(l, image_of item)])"
      by simp
    then show ?thesis using later [of "Suc i" "ims @ [(l, image_of item)]"] by (simp only:)
  next
    case False
    with add_download_bad [OF False, of i ims] show ?thesis by auto
  qed
qed simp

text \<open>C22: No download is lost. Building the action that fetches downloads ends for every list
  of items; it succeeds exactly when each item is a dictionary with a URL that is a text (or
  empty), and raises an error otherwise. The action then names as many images as items, under
  labels all different even when file names collide, in the same order, each with its item's
  URL and its item's headers. A label differs from the file name only by suffixes, and has at
  most as many as there are items.\<close>

theorem downloads_kept:
  "(if list_all item_ok items
    then \<exists>a ls. build_downloads_action items ns m = Inr a \<and> distinct ls \<and> length ls = length items \<and>
      at_path [''deploy'', ''images''] a = Some (obj (zip ls (map image_of items)))
    else \<exists>e \<in> {KeyError, TypeError, AttributeError}. build_downloads_action items ns m = Inl e) \<and>
   (\<exists>n \<le> length taken. fresh_label i taken label = label @ concat (replicate n (''_'' @ str_nat i))) \<and>
   fresh_label i taken label \<notin> set taken"
proof (intro conjI)
  show "if list_all item_ok items
    then \<exists>a ls. build_downloads_action items ns m = Inr a \<and> distinct ls \<and> length ls = length items \<and>
      at_path [''deploy'', ''images''] a = Some (obj (zip ls (map image_of items)))
    else \<exists>e \<in> {KeyError, TypeError, AttributeError}. build_downloads_action items ns m = Inl e"
  proof (cases "list_all item_ok items")
    case True
    then obtain ls where "length ls = length items" "distinct ls"
        "download_images 0 items [] = Inr (zip ls (map image_of items))"
      using download_images_ok [of items "[]" 0] by auto
    then show ?thesis using True by (auto simp: build_downloads_action_def)
  next
    case False
    then show ?thesis using download_images_bad [OF False, of 0 "[]"] by (auto simp: build_downloads_action_def)
  qed
  show "\<exists>n \<le> length taken. fresh_label i taken label = label @ concat (replicate n (''_'' @ str_nat i))"
    using fresh_label_form [of label taken i] by (meson le_trans length_filter_le)
qed (rule fresh_label_fresh)


section \<open>What the job says\<close>

definition namespace_of :: "jval \<Rightarrow> jval option" where
  "namespace_of a = (case at_path [''test''] a of
     Some t \<Rightarrow> at_path [''namespace''] t | None \<Rightarrow> at_path [''deploy'', ''namespace''] a)"

lemma downloads_namespace:
  "build_downloads_action items (Some ''board'') m = Inr a \<Longrightarrow> namespace_of a = Some (JStr ''board'')"
  by (auto simp: build_downloads_action_def namespace_of_def bind_res_Inr_iff)

lemma board_action_facts:
  "namespace_of (board_action cfg b img m named) = (if named then Some (JStr ''board'') else None)"
  "at_path [''test'', ''definitions''] (board_action cfg b img m named) = Some (JList [obj [
     (''repository'', JStr (cf_repo cfg)), (''from'', JStr ''git''), (''path'', JStr (cf_path cfg)),
     (''name'', JStr ''interactive-ssh-gateway''), (''parameters'', job_parameters cfg b)]])"
  by (simp_all add: board_action_def namespace_of_def)

lemma console_namespace: "namespace_of (console_action cfg m) = Some (JStr ''console'')"
  by (simp add: console_action_def namespace_of_def)

lemma job_tags_facts:
  "cf_remote_tag cfg \<noteq> [] \<Longrightarrow> cf_remote_tag cfg \<in> set (job_tags cfg tags)"
  "tags = Some ts \<Longrightarrow> set ts \<subseteq> set (job_tags cfg tags)"
  by (auto simp: job_tags_def Let_def)

text \<open>The console proxy a job gets: only with a console session and a gateway that can be reached.\<close>

definition console_of :: "config \<Rightarrow> board_session option \<Rightarrow> board_session option" where
  "console_of cfg console = (case console of Some c \<Rightarrow> if cf_ws_url cfg \<noteq> [] then Some c else None | None \<Rightarrow> None)"

lemma interactive_job_fields:
  assumes "interactive_job cfg b rq console = Inr j"
  obtains das where
    "if jr_downloads rq = [] then das = []
     else \<exists>a. das = [a] \<and> build_downloads_action (jr_downloads rq) (Some ''board'') (jr_minutes rq) = Inr a"
    "at_path [''device_type''] j = Some (JStr (jr_device_type rq))"
    "at_path [''priority''] j = Some (JStr ''low'')"
    "at_path [''visibility''] j = (if jr_private rq then Some (JStr ''personal'') else None)"
    "at_path [''environment''] j = map_option (console_environment cfg) (console_of cfg console)"
    "at_path [''tags''] j = (if job_tags cfg (jr_tags rq) = [] then None
       else Some (JList (map JStr (job_tags cfg (jr_tags rq)))))"
    "at_path [''actions''] j = Some (JList ((if console_of cfg console = None then [] else [console_action cfg (jr_minutes rq)])
       @ das @ [board_action cfg b (jr_image rq) (jr_minutes rq) (console_of cfg console \<noteq> None \<or> das \<noteq> [])]))"
proof -
  let ?dl = "jr_downloads rq" and ?m = "jr_minutes rq"
  from assms obtain das where das: "(if ?dl = [] then Inr [] else
      bind_res (build_downloads_action ?dl (Some ''board'') ?m) (\<lambda>a. Inr [a])) = Inr das"
    by (auto simp: interactive_job_def Let_def bind_res_Inr_iff)
  have named: "das \<noteq> [] \<longleftrightarrow> ?dl \<noteq> []" using das by (auto simp: bind_res_Inr_iff split: if_splits)
  note j = assms [unfolded interactive_job_def Let_def das bind_res_simps(2), folded console_of_def, THEN sum.inject(2) [THEN iffD1], symmetric]
  show ?thesis
  proof (rule that [of das])
    show "if ?dl = [] then das = [] else \<exists>a. das = [a] \<and> build_downloads_action ?dl (Some ''board'') ?m = Inr a"
      using das by (auto simp: bind_res_Inr_iff split: if_splits)
  qed (unfold j, auto simp: named split: option.splits)
qed

lemma job_tags_ok:
  assumes "interactive_job cfg b rq console = Inr j"
  shows "cf_remote_tag cfg \<noteq> [] \<longrightarrow> (\<exists>ts. at_path [''tags''] j = Some (JList (map JStr ts)) \<and>
      cf_remote_tag cfg \<in> set ts \<and> (\<forall>us. jr_tags rq = Some us \<longrightarrow> set us \<subseteq> set ts))"
proof
  assume r: "cf_remote_tag cfg \<noteq> []"
  then have t: "cf_remote_tag cfg \<in> set (job_tags cfg (jr_tags rq))" by (rule job_tags_facts)
  have "at_path [''tags''] j = (if job_tags cfg (jr_tags rq) = [] then None
      else Some (JList (map JStr (job_tags cfg (jr_tags rq)))))"
    by (rule interactive_job_fields [OF assms])
  then show "\<exists>ts. at_path [''tags''] j = Some (JList (map JStr ts)) \<and>
      cf_remote_tag cfg \<in> set ts \<and> (\<forall>us. jr_tags rq = Some us \<longrightarrow> set us \<subseteq> set ts)"
    using t job_tags_facts(2) [of "jr_tags rq" _ cfg]
    by (intro exI [of _ "job_tags cfg (jr_tags rq)"] conjI allI impI) (auto split: if_splits)
qed

lemma job_environment_ok:
  assumes "interactive_job cfg b rq console = Inr j"
  shows "case console_of cfg console of
       None \<Rightarrow> at_path [''environment''] j = None
     | Some c \<Rightarrow> \<exists>k. at_path [''environment'', ''SESSION_ID''] j = Some (JStr (session_id c)) \<and>
         at_path [''environment'', ''REVERSE_PORT''] j = Some (JStr (str_int (reverse_port c))) \<and>
         at_path [''environment'', ''SER2NET_HOST''] j = None \<and> at_path [''environment'', ''SER2NET_PORT''] j = None \<and>
         at_path [''environment'', ''SESSION_PRIVATE_KEY_B64''] j = Some (JStr k) \<and>
         (\<forall>x \<in> set k. \<not> is_space x) \<and> b64decode k = encode (private_key c)"
proof -
  have env: "at_path [''environment''] j = map_option (console_environment cfg) (console_of cfg console)"
    by (rule interactive_job_fields [OF assms])
  have "at_path [''environment'', k] j = (case at_path [''environment''] j of None \<Rightarrow> None | Some e \<Rightarrow> at_path [k] e)" for k
    by (cases j) (auto split: option.splits)
  then show ?thesis
    using env b64_one_line
    by (auto simp: console_environment_def key_b64_def b64_decode_encode split: option.splits)
qed

lemma job_actions_ok:
  assumes "interactive_job cfg b rq console = Inr j"
  shows "\<exists>acts ps. at_path [''actions''] j = Some (JList acts) \<and> acts \<noteq> [] \<and>
      (if length acts = 1 then namespace_of (hd acts) = None
       else \<forall>a \<in> set acts. \<exists>n. namespace_of a = Some (JStr n) \<and> n \<noteq> ''common'') \<and>
      at_path [''test'', ''definitions''] (last acts) = Some (JList [ps]) \<and>
      at_path [''parameters'', ''SESSION_ID''] ps = Some (JStr (session_id b)) \<and>
      at_path [''parameters'', ''REVERSE_PORT''] ps = Some (JStr (str_int (reverse_port b))) \<and>
      at_path [''parameters'', ''SESSION_PRIVATE_KEY''] ps = Some (JStr (private_key b))"
proof (rule interactive_job_fields [OF assms])
  fix das
  assume das: "if jr_downloads rq = [] then das = []
      else \<exists>a. das = [a] \<and> build_downloads_action (jr_downloads rq) (Some ''board'') (jr_minutes rq) = Inr a"
    and acts: "at_path [''actions''] j = Some (JList ((if console_of cfg console = None then [] else [console_action cfg (jr_minutes rq)])
       @ das @ [board_action cfg b (jr_image rq) (jr_minutes rq) (console_of cfg console \<noteq> None \<or> das \<noteq> [])]))"
  have "a \<in> set das \<Longrightarrow> namespace_of a = Some (JStr ''board'')" for a
    using das downloads_namespace by (auto split: if_splits)
  moreover define con where "con = (if console_of cfg console = None then [] else [console_action cfg (jr_minutes rq)])"
  then have "c \<in> set con \<Longrightarrow> namespace_of c = Some (JStr ''console'')" for c
    by (auto simp: console_namespace split: if_splits)
  moreover have "console_of cfg console \<noteq> None \<longleftrightarrow> con \<noteq> []" by (simp add: con_def)
  ultimately show ?thesis
    by (intro exI [of _ "con @ das @ [board_action cfg b (jr_image rq) (jr_minutes rq) (con \<noteq> [] \<or> das \<noteq> [])]"]
        exI [of _ "obj [(''repository'', JStr (cf_repo cfg)), (''from'', JStr ''git''), (''path'', JStr (cf_path cfg)),
          (''name'', JStr ''interactive-ssh-gateway''), (''parameters'', job_parameters cfg b)]"])
      (auto simp: acts con_def [symmetric] board_action_facts job_parameters_def)
qed

text \<open>C21: The job of an interactive session is what the session needs and what the lab wants.
  It is personal unless the caller opted out, of low priority, for the requested device type,
  and pinned by the remote-access tag with every tag the caller asked for. Its last action runs
  the session's container with the session's own identifier, port and key. LAVA reserves the
  namespace of unnamed actions, so as soon as there is a second action every one is named, and
  a single one is not. The console proxy is there exactly when a console session is and the
  gateway has an address; its environment carries the console's identifier and port, no
  endpoint of the board's, and its key as one line that decodes to the key.\<close>

theorem session_job_contract:
  assumes "interactive_job cfg b rq console = Inr j"
  shows "at_path [''visibility''] j = (if jr_private rq then Some (JStr ''personal'') else None) \<and>
    at_path [''priority''] j = Some (JStr ''low'') \<and> at_path [''device_type''] j = Some (JStr (jr_device_type rq)) \<and>
    (cf_remote_tag cfg \<noteq> [] \<longrightarrow> (\<exists>ts. at_path [''tags''] j = Some (JList (map JStr ts)) \<and>
      cf_remote_tag cfg \<in> set ts \<and> (\<forall>us. jr_tags rq = Some us \<longrightarrow> set us \<subseteq> set ts))) \<and>
    (\<exists>acts ps. at_path [''actions''] j = Some (JList acts) \<and> acts \<noteq> [] \<and>
      (if length acts = 1 then namespace_of (hd acts) = None
       else \<forall>a \<in> set acts. \<exists>n. namespace_of a = Some (JStr n) \<and> n \<noteq> ''common'') \<and>
      at_path [''test'', ''definitions''] (last acts) = Some (JList [ps]) \<and>
      at_path [''parameters'', ''SESSION_ID''] ps = Some (JStr (session_id b)) \<and>
      at_path [''parameters'', ''REVERSE_PORT''] ps = Some (JStr (str_int (reverse_port b))) \<and>
      at_path [''parameters'', ''SESSION_PRIVATE_KEY''] ps = Some (JStr (private_key b))) \<and>
    (case console_of cfg console of
       None \<Rightarrow> at_path [''environment''] j = None
     | Some c \<Rightarrow> \<exists>k. at_path [''environment'', ''SESSION_ID''] j = Some (JStr (session_id c)) \<and>
         at_path [''environment'', ''REVERSE_PORT''] j = Some (JStr (str_int (reverse_port c))) \<and>
         at_path [''environment'', ''SER2NET_HOST''] j = None \<and> at_path [''environment'', ''SER2NET_PORT''] j = None \<and>
         at_path [''environment'', ''SESSION_PRIVATE_KEY_B64''] j = Some (JStr k) \<and>
         (\<forall>x \<in> set k. \<not> is_space x) \<and> b64decode k = encode (private_key c))"
  using interactive_job_fields [OF assms] job_tags_ok [OF assms] job_environment_ok [OF assms] job_actions_ok [OF assms]
  by blast


lemma downloads_kept_witness:
  "\<exists>a l1 l2. build_downloads_action [obj [(''url'', JStr ''http://h/a.img'')], obj [(''url'', JStr ''http://g/a.img'')]] None 10
     = Inr a \<and> l1 \<noteq> l2 \<and> at_path [''deploy'', ''images''] a =
       Some (obj [(l1, obj [(''url'', JStr ''http://h/a.img'')]), (l2, obj [(''url'', JStr ''http://g/a.img'')])])"
proof -
  let ?items = "[obj [(''url'', JStr ''http://h/a.img'')], obj [(''url'', JStr ''http://g/a.img'')]]"
  have "list_all item_ok ?items" by (simp add: item_ok_def)
  then obtain a ls where a: "build_downloads_action ?items None 10 = Inr a" "distinct ls" "length ls = 2"
      "at_path [''deploy'', ''images''] a = Some (obj (zip ls (map image_of ?items)))"
    using downloads_kept [of ?items None 10 "[]" 0 "[]"] by auto
  then obtain l1 l2 where "ls = [l1, l2]" "l1 \<noteq> l2"
    by (cases ls) (auto simp: Suc_length_conv length_Suc_conv numeral_2_eq_2)
  then show ?thesis using a by (auto simp: image_of_def image_entry_def)
qed

lemma session_job_contract_witness:
  "\<exists>j k. interactive_job (default_config\<lparr>cf_ws_url := ''wss://h''\<rparr>) (new_session ''K'' ''P'' ''abc'' 4000 0 None ''container'' None)
     \<lparr>jr_device_type = ''dragon'', jr_tags = None, jr_image = None, jr_minutes = 60, jr_downloads = [], jr_private = True\<rparr>
     (Some (new_session ''C'' ''Q'' ''def'' 4001 0 None ''console'' None)) = Inr j \<and>
   at_path [''visibility''] j = Some (JStr ''personal'') \<and>
   at_path [''environment'', ''SESSION_PRIVATE_KEY_B64''] j = Some (JStr k) \<and> b64decode k = encode ''C''"
proof -
  let ?cfg = "default_config\<lparr>cf_ws_url := ''wss://h''\<rparr>" and ?b = "new_session ''K'' ''P'' ''abc'' 4000 0 None ''container'' None"
    and ?rq = "\<lparr>jr_device_type = ''dragon'', jr_tags = None, jr_image = None, jr_minutes = 60, jr_downloads = [], jr_private = True\<rparr>"
    and ?c = "new_session ''C'' ''Q'' ''def'' 4001 0 None ''console'' None"
  obtain j where j: "interactive_job ?cfg ?b ?rq (Some ?c) = Inr j"
    by (simp add: interactive_job_def Let_def)
  have "console_of ?cfg (Some ?c) = Some ?c" "private_key ?c = ''C''"
    by (simp_all add: console_of_def new_session_def)
  then show ?thesis using session_job_contract [OF j] j by auto
qed

end
