(* ===== verification/ServerUtil.thy ===== *)
theory ServerUtil
  imports Jobs Source
begin

text \<open>
  The helpers of \<^verbatim>\<open>lava_mcp/server.py\<close>: the texts handed to people, what a job
  definition or a log is searched for, and the checks the tools make before they act.
\<close>

section \<open>Texts\<close>

definition text_lines :: "string list \<Rightarrow> string" where
  "text_lines ls = concat (map (\<lambda>l. l @ [CHR 0x0A]) ls)"

definition build_shell_ssh_config :: "string \<Rightarrow> string \<Rightarrow> string \<Rightarrow> int \<Rightarrow> string \<Rightarrow> string" where
  "build_shell_ssh_config sid key_file ws_url prt user = text_lines [
     ''Host gw-'' @ sid,
     ''    User '' @ sid,
     ''    IdentityFile '' @ key_file,
     ''    ProxyCommand websocat -b '' @ ws_url,
     ''    StrictHostKeyChecking no'',
     ''    UserKnownHostsFile /dev/null'',
     ''Host board-'' @ sid,
     ''    HostName 127.0.0.1'',
     ''    Port '' @ str_int prt,
     ''    User '' @ user,
     ''    IdentityFile '' @ key_file,
     ''    ProxyJump gw-'' @ sid,
     ''    StrictHostKeyChecking no'',
     ''    UserKnownHostsFile /dev/null'']"

definition build_console_ssh_command :: "string \<Rightarrow> string \<Rightarrow> string \<Rightarrow> int \<Rightarrow> string \<Rightarrow> string" where
  "build_console_ssh_command sid key_file ws_url prt host =
     ''ssh -i '' @ key_file @ '' -o StrictHostKeyChecking=no '' @
     ''-o UserKnownHostsFile=/dev/null '' @
     ''-o '' @ [CHR 0x27] @ ''ProxyCommand=websocat -b '' @ ws_url @ [CHR 0x27] @ '' '' @
     ''-W 127.0.0.1:'' @ str_int prt @ '' '' @ sid @ ''@'' @ host"

definition build_console_services_action :: "string \<Rightarrow> int \<Rightarrow> string" where
  "build_console_services_action repo timeout_minutes = text_lines [
     ''- test:'',
     ''    namespace: console'',
     ''    timeout:'',
     ''      minutes: '' @ str_int timeout_minutes,
     ''    services:'',
     ''    - name: ser2net-proxy'',
     ''      from: git'',
     ''      repository: '' @ repo,
     ''      path: interactive/ser2net-proxy/docker-compose.yml'']"

definition console_sentinel :: string where
  "console_sentinel = ''LAVA_MCP_CONSOLE_WRITABLE''"

definition build_console_ready_action :: "string \<Rightarrow> int \<Rightarrow> string \<Rightarrow> string" where
  "build_console_ready_action sentinel timeout_minutes ns = text_lines [
     ''- test:'',
     ''    namespace: '' @ ns,
     ''    connection-namespace: '' @ ns,
     ''    timeout:'',
     ''      minutes: '' @ str_int timeout_minutes,
     ''    definitions:'',
     ''    - from: inline'',
     ''      name: console-ready'',
     ''      path: inline/console-ready.yaml'',
     ''      repository:'',
     ''        metadata:'',
     ''          format: Lava-Test Test Definition 1.0'',
     ''          name: console-ready'',
     ''          description: signal console-ready, then hand the console to the user'',
     ''        run:'',
     ''          steps:'',
     ''          - lava-test-case console-ready --result pass'',
     ''          - '' @ [CHR 0x27] @ ''echo '' @ [CHR 0x22] @ sentinel @ [CHR 0x22, CHR 0x27],
     ''          - '' @ [CHR 0x27] @ ''exec '' @ [CHR 0x22] @ ''$(command -v bash || command -v sh)'' @ [CHR 0x22] @ '' -i'' @ [CHR 0x27]]"

section \<open>Job definitions and logs\<close>

definition is_http :: "string \<Rightarrow> bool" where
  "is_http s \<longleftrightarrow> prefix ''http://'' s \<or> prefix ''https://'' s"

fun collect_urls :: "jval \<Rightarrow> string list" where
  "collect_urls (JStr s) = (if is_http s then [s] else [])"
| "collect_urls (JDict d) = concat (map (\<lambda>(k, v). collect_urls v) d)"
| "collect_urls (JList vs) = concat (map collect_urls vs)"
| "collect_urls _ = []"

definition action_urls :: "jval \<Rightarrow> string list" where
  "action_urls action = (case action of
      JDict d \<Rightarrow> (case item_of d ''deploy'' of Some x \<Rightarrow> collect_urls x | None \<Rightarrow> [])
    | _ \<Rightarrow> [])"

definition deploy_urls :: "lava_ext \<Rightarrow> jval \<Rightarrow> exc + string list" where
  "deploy_urls X defn = (case defn of
      JStr s \<Rightarrow> (case ex_load X s of
          Inl YAMLError \<Rightarrow> Inr []
        | Inl e \<Rightarrow> Inl e
        | Inr job \<Rightarrow>
            if \<not> is_dict job then Inr []
            else bind_res (py_get job ''actions'' (JList [])) (\<lambda>as0.
                 bind_res (py_iter (py_or as0 (JList []))) (\<lambda>as.
                 Inr (concat (map action_urls as)))))
    | _ \<Rightarrow> Inl AttributeError)"

definition url_segments :: "url_parts \<Rightarrow> string list" where
  "url_segments u = filter (\<lambda>s. s \<noteq> []) (split_char CHR ''/'' (u_path u))"

definition url_match_score :: "string \<Rightarrow> string \<Rightarrow> exc + int" where
  "url_match_score target candidate =
     bind_res (urlparse target []) (\<lambda>t.
     bind_res (urlparse candidate []) (\<lambda>c.
       (let tseg = url_segments t; cseg = url_segments c in
        Inr ((if u_netloc t \<noteq> [] \<and> u_netloc t = u_netloc c then 2 else 0) +
             (if tseg \<noteq> [] \<and> cseg \<noteq> [] \<and> last tseg = last cseg then 5 else 0) +
             int (length (remdups (filter (\<lambda>s. s \<in> set cseg) tseg)))))))"

definition console_ready_in_logs :: "string \<Rightarrow> string \<Rightarrow> bool" where
  "console_ready_in_logs logs sentinel =
     (if sentinel = [] then False
      else list_ex (\<lambda>l. contains sentinel l \<and> \<not> contains ''CONSOLE_READY_SENTINEL'' l) (splitlines logs))"

section \<open>Users\<close>

definition lava_username :: "lava_ext \<Rightarrow> jval \<Rightarrow> string option" where
  "lava_username X who = (case who of
      JDict d \<Rightarrow>
        (case filter truthy (List.map_filter (item_of d) [''user'', ''username'']) of
           v # _ \<Rightarrow> Some (py_str (ex_float X) v)
         | [] \<Rightarrow> None)
    | JStr s \<Rightarrow> nonempty (Some (strip s))
    | _ \<Rightarrow> None)"

definition enforce_user_allowlist :: "string option \<Rightarrow> string list \<Rightarrow> exc + unit" where
  "enforce_user_allowlist user allow =
     (if allow \<noteq> [] \<and> (case user of None \<Rightarrow> True | Some u \<Rightarrow> u \<notin> set allow)
      then Inl (PermissionError (''LAVA user '' @ (case user of None \<Rightarrow> ''None'' | Some u \<Rightarrow> repr_str u) @
        '' is not permitted to use interactive board sessions on this server''))
      else Inr ())"

definition require_owner :: "board_session \<Rightarrow> string \<Rightarrow> exc + unit" where
  "require_owner b user = (case s_owner b of
      Some o' \<Rightarrow> if o' \<noteq> user then Inl (PermissionError (''session '' @ session_id b @ '' belongs to another user'')) else Inr ()
    | None \<Rightarrow> Inr ())"

section \<open>Devices\<close>

definition require_remote_access_device :: "lava_ext \<Rightarrow> lava_client \<Rightarrow> string \<Rightarrow> string \<Rightarrow> unit lava" where
  "require_remote_access_device X c device_type tag =
     (if tag = [] then ret ()
      else bind_act (list_devices X c 1 [(''device_type'', JStr device_type), (''tags__name'', JStr tag)]) (\<lambda>res.
        lift_res (bind_res (py_get res ''count'' JNull) (\<lambda>n0.
          bind_res (if n0 = JNull
                    then bind_res (py_get res ''results'' JNull) (\<lambda>rs. bind_res (py_len (py_or rs (JList []))) (\<lambda>k. Inr (JInt k)))
                    else Inr n0) (\<lambda>n.
          if truthy n then Inr ()
          else Inl (PermissionError (''Remote access is not enabled for device-type '' @ repr_str device_type @
            '': no device carries the '' @ repr_str tag @ '' tag. Ask a lab admin to tag a device of this type '' @
            ''for remote access, or choose a different device-type.'')))))))"

definition require_test_services_device :: "lava_ext \<Rightarrow> lava_client \<Rightarrow> string \<Rightarrow> unit lava" where
  "require_test_services_device X c host =
     bind_act (allows_test_services X c host) (\<lambda>ok.
       if ok then ret ()
       else raise (PermissionError (''Serial console needs '' @ [CHR 0x27] @ ''allow_test_services'' @ [CHR 0x27] @
         '' enabled in the device dictionary for '' @ repr_str host @ '', but it is not set '' @ dash @ '' a console proxy cannot '' @
         ''be started on this device. Ask a lab admin to enable it.'')))"

text \<open>The candidates in turn: whether one allows test services, and whether any could be read.\<close>

fun scan_candidates :: "lava_ext \<Rightarrow> lava_client \<Rightarrow> jval list \<Rightarrow> bool \<Rightarrow> (bool \<times> bool) lava" where
  "scan_candidates X c [] checked = ret (False, checked)"
| "scan_candidates X c (row # rows) checked =
     bind_act (lift_res (py_get row ''hostname'' JNull)) (\<lambda>host.
       if \<not> truthy host then scan_candidates X c rows checked
       else bind_act (try_act (bind_act (allows_test_services X c (py_str (ex_float X) host)) (\<lambda>b. ret (Some b)))
              (\<lambda>e. Some (ret None))) (\<lambda>r. case r of
           None \<Rightarrow> scan_candidates X c rows checked
         | Some True \<Rightarrow> ret (True, True)
         | Some False \<Rightarrow> scan_candidates X c rows True))"

definition require_test_services_device_type :: "lava_ext \<Rightarrow> lava_client \<Rightarrow> string \<Rightarrow> string \<Rightarrow> unit lava" where
  "require_test_services_device_type X c device_type tag =
     bind_act (try_act (bind_act (list_devices X c 50 ((''device_type'', JStr device_type) #
           (if tag \<noteq> [] then [(''tags__name'', JStr tag)] else []))) (\<lambda>p. ret (Some p)))
         (\<lambda>e. Some (ret None))) (\<lambda>page. case page of
       None \<Rightarrow> ret ()
     | Some p \<Rightarrow> bind_act (lift_res (bind_res (py_get p ''results'' (JList [])) (\<lambda>rs. py_iter (py_or rs (JList []))))) (\<lambda>rows.
         bind_act (scan_candidates X c rows False) (\<lambda>(found, checked).
           if found \<or> \<not> checked then ret ()
           else raise (PermissionError (''no '' @ repr_str device_type @ '' device (tagged for remote access) enables '' @
             [CHR 0x27] @ ''allow_test_services'' @ [CHR 0x27] @ '', which the serial console needs. The board-session '' @
             ''container cannot reach the lab'' @ [CHR 0x27] @ ''s ser2net endpoint directly, so the console '' @
             ''is only available via the Test Services proxy (console=true) '' @ dash @ '' there is no '' @
             ''manual workaround from inside the container. Open the board session '' @
             ''without console=true for host-side access, or ask a lab admin to enable '' @
             [CHR 0x27] @ ''allow_test_services'' @ [CHR 0x27] @ '' on a board of this type.'')))))"

section \<open>The console of the board a job runs on\<close>

datatype console_state = Pending | Unsupported "string option" string | Found string string

definition discover_console_target :: "lava_ext \<Rightarrow> lava_client \<Rightarrow> jval \<Rightarrow> console_state lava" where
  "discover_console_target X c job_id =
     (if job_id = JNull then ret Pending
      else try_act (bind_act (get_job X c job_id) (\<lambda>job.
          bind_act (lift_res (if is_dict job then py_get job ''actual_device'' JNull else Inr JNull)) (\<lambda>host.
          if \<not> truthy host then ret Pending
          else bind_act (console_connection_command X c (py_str (ex_float X) host)) (\<lambda>cmd.
            ret (case ser2net_endpoint (opt_str cmd) of
                None \<Rightarrow> Unsupported cmd (py_str (ex_float X) host)
              | Some (h, p) \<Rightarrow> Found h p)))))
        (\<lambda>e. Some (ret Pending)))"

definition unproxyable_console_note :: "string option \<Rightarrow> string \<Rightarrow> string" where
  "unproxyable_console_note cmd host =
     ''serial console unavailable: this lab reaches board '' @ host @ [CHR 0x27] @ ''s console '' @
     (if opt_str cmd \<noteq> [] then ''via '' @ repr_str (opt_str cmd) else ''in a way lava-mcp did not recognise'') @
     '', but lava-mcp can only proxy ser2net (telnet) consoles. Use a '' @
     ''board session (open_board_session without console) for host-side access.''"

section \<open>Artifacts and tokens\<close>

definition artifact_base_url :: "config \<Rightarrow> string \<Rightarrow> exc + string" where
  "artifact_base_url cfg mcp_path =
     (if cf_art_base cfg \<noteq> [] then Inr (rstrip_char CHR ''/'' (cf_art_base cfg))
      else if cf_ws_url cfg = [] then Inr []
      else bind_res (urlparse (cf_ws_url cfg) []) (\<lambda>u.
        Inr ((if u_scheme u \<in> {''wss'', ''https''} then ''https'' else ''http'') @ ''://'' @ u_netloc u @
          rstrip_char CHR ''/'' mcp_path @ ''/artifacts'')))"

definition presented_token :: "headers \<Rightarrow> string option" where
  "presented_token hs = (case nonempty (header hs ''authorization'') of
      None \<Rightarrow> None
    | Some v \<Rightarrow> (case split_ws_once v of
          [w, rest] \<Rightarrow> if lower w \<in> {''bearer'', ''token''} then Some rest else Some v
        | _ \<Rightarrow> Some v))"

definition terminal_job_states :: "string list" where
  "terminal_job_states = [''Finished'', ''Canceling'', ''Canceled'']"

definition metadata_filters :: "lava_ext \<Rightarrow> jval \<Rightarrow> (string \<times> jval) list" where
  "metadata_filters X md = (case md of
      JDict d \<Rightarrow> map (\<lambda>(k, v). (''metadata__'' @ py_str (ex_float X) k, v)) d
    | _ \<Rightarrow> [])"

definition name_of :: "jval \<Rightarrow> jval option" where
  "name_of r = (case r of
      JDict d \<Rightarrow> (case item_of d ''name'' of Some n \<Rightarrow> if truthy n then Some n else None | None \<Rightarrow> None)
    | _ \<Rightarrow> None)"

definition token_names_only :: "jval \<Rightarrow> exc + jval list" where
  "token_names_only rows =
     bind_res (case rows of
         JDict d \<Rightarrow> Inr (case item_of d ''results'' of Some x \<Rightarrow> x | None \<Rightarrow> rows)
       | _ \<Rightarrow> Inr rows) (\<lambda>results.
     bind_res (py_iter (py_or results (JList []))) (\<lambda>rs.
       Inr (map (\<lambda>n. obj [(''name'', n)]) (List.map_filter name_of rs))))"

end
