(* ===== verification/SessionTools.thy ===== *)
theory SessionTools
  imports ServerUtil StoreSpec
begin

text \<open>
  The interactive tools of \<^verbatim>\<open>lava_mcp/server.py\<close>: each handler as one computation over
  the state of the whole server. Wherever a handler waits, anything else may happen first: what
  does is an argument, one change of the state per wait.
\<close>

section \<open>The server's state and what a call is given\<close>

record world =
  w_gw :: gw
  w_store :: store
  w_ups :: "upload list"
  w_http :: "http_req list"
  w_net :: "net_write list"

type_synonym 'a tool = "(world, exc, 'a) act"

definition on_http :: "'a lava \<Rightarrow> 'a tool" where
  "on_http m = (\<lambda>w. case m (w_http w) of (r, lg) \<Rightarrow> (r, w\<lparr>w_http := lg\<rparr>))"

definition on_gw :: "(gw, exc, 'a) act \<Rightarrow> 'a tool" where
  "on_gw m = (\<lambda>w. case m (w_gw w) of (r, g) \<Rightarrow> (r, w\<lparr>w_gw := g\<rparr>))"

definition on_store :: "(store, exc, 'a) act \<Rightarrow> 'a tool" where
  "on_store m = (\<lambda>w. case m (w_store w) of (r, s) \<Rightarrow> (r, w\<lparr>w_store := s\<rparr>))"

text \<open>
  The store's uploads in flight are there for what happens while a call waits; no tool touches them.
\<close>

text \<open>
  What a call draws from outside: its headers, what happens while it waits for the \<open>n\<close>th
  time, how starting the gateway ends, the random draws of new sessions, a key pair, the clock,
  whether a push to a console proxy is taken, and how running a command over a tunnel ends.
\<close>

record call =
  k_headers :: "headers option"
  k_yield :: "nat \<Rightarrow> world \<Rightarrow> world"
  k_launch :: launch
  k_console_draw :: session_draw
  k_draw :: session_draw
  k_keys :: "string \<times> string"
  k_now :: rat
  k_delivered :: bool
  k_dial :: "ssh_run \<Rightarrow> string + run_result"

definition yield :: "call \<Rightarrow> nat \<Rightarrow> unit tool" where
  "yield k n = modify (k_yield k n)"

definition tool_client :: "config \<Rightarrow> call \<Rightarrow> lava_client tool" where
  "tool_client cfg k = lift_res (client_from cfg (k_headers k))"

definition require_user :: "lava_ext \<Rightarrow> config \<Rightarrow> call \<Rightarrow> string list \<Rightarrow> string tool" where
  "require_user X cfg k allow =
     bind_act (tool_client cfg k) (\<lambda>c.
     bind_act (on_http (whoami X c)) (\<lambda>who.
     bind_act (lift_res (enforce_user_allowlist (lava_username X who) allow)) (\<lambda>_.
       ret (opt_str (lava_username X who)))))"

definition start_gateway :: "call \<Rightarrow> nat \<Rightarrow> unit tool" where
  "start_gateway k n = bind_act (yield k n) (\<lambda>_. on_gw (ensure_started (k_launch k)))"

definition error_result :: "string \<Rightarrow> jval" where
  "error_result m = obj [(''error'', JStr m)]"

definition ws_not_configured :: string where
  "ws_not_configured = ''interactive gateway WebSocket URL is not configured; set '' @
     ''LAVA_MCP_GATEWAY_WS_URL (e.g. wss://host/gateway-ssh)''"

definition unknown_text :: "string \<Rightarrow> string" where
  "unknown_text i = ''unknown session '' @ i"

definition on_sess :: "nat \<Rightarrow> (board_session \<Rightarrow> board_session) \<Rightarrow> unit tool" where
  "on_sess r f = modify (\<lambda>w. w\<lparr>w_gw := set_sess r (f (sess_at (w_gw w) r)) (w_gw w)\<rparr>)"

definition the_sess :: "nat \<Rightarrow> board_session tool" where
  "the_sess r = gets (\<lambda>w. sess_at (w_gw w) r)"

definition find_sess :: "string \<Rightarrow> nat option tool" where
  "find_sess i = gets (\<lambda>w. get_session i (w_gw w))"

definition make_sess :: "session_draw \<Rightarrow> string option \<Rightarrow> string \<Rightarrow> string \<Rightarrow> nat tool" where
  "make_sess d dt kd user = on_gw (\<lambda>g. case create_session d dt kd (Some user) g of (r, g') \<Rightarrow> (Inr r, g'))"

section \<open>Waiting and consoles\<close>

text \<open>\<^verbatim>\<open>gateway.wait_connected\<close>: whether the session's event is set when the wait ends.\<close>

definition wait_connected :: "call \<Rightarrow> nat \<Rightarrow> string \<Rightarrow> bool tool" where
  "wait_connected k n i = bind_act (find_sess i) (\<lambda>f. case f of
      None \<Rightarrow> raise (unknown_session i)
    | Some r \<Rightarrow> bind_act (yield k n) (\<lambda>_. bind_act (the_sess r) (\<lambda>b. ret (tunnel_up b))))"

definition push_console_target :: "call \<Rightarrow> nat \<Rightarrow> string \<Rightarrow> string \<Rightarrow> string \<Rightarrow> unit tool" where
  "push_console_target k n i h p =
     bind_act (yield k n) (\<lambda>_.
     bind_act (on_gw (set_console_target (k_delivered k) i h p)) (\<lambda>(ok, ws).
     modify (\<lambda>w. w\<lparr>w_net := w_net w @ ws\<rparr>)))"

definition ensure_console_target :: "lava_ext \<Rightarrow> call \<Rightarrow> nat \<Rightarrow> lava_client \<Rightarrow> nat \<Rightarrow> jval \<Rightarrow> console_state tool" where
  "ensure_console_target X k n c r job_id =
     bind_act (the_sess r) (\<lambda>b. case console_target b of
       Some (h, p) \<Rightarrow> bind_act (push_console_target k n (session_id b) h p) (\<lambda>_. ret (Found h p))
     | None \<Rightarrow>
         bind_act (yield k n) (\<lambda>_.
         bind_act (on_http (discover_console_target X c job_id)) (\<lambda>res. case res of
           Found h p \<Rightarrow>
             bind_act (on_sess r (\<lambda>b. b\<lparr>console_target := Some (h, p)\<rparr>)) (\<lambda>_.
             bind_act (push_console_target k (Suc n) (session_id b) h p) (\<lambda>_. ret res))
         | _ \<Rightarrow> ret res)))"

definition wire_console :: "lava_ext \<Rightarrow> call \<Rightarrow> nat \<Rightarrow> lava_client \<Rightarrow> nat \<Rightarrow> nat \<Rightarrow> bool \<Rightarrow> string tool" where
  "wire_console X k n c r rc board_connected =
     (if \<not> board_connected
      then ret (''board session has not connected yet; the serial console will be wired '' @
        ''when you call attach_console(console_session_id)'')
      else bind_act (the_sess rc) (\<lambda>con.
           bind_act (wait_connected k n (session_id con)) (\<lambda>_.
           bind_act (the_sess r) (\<lambda>b.
           bind_act (ensure_console_target X k (Suc n) c rc (s_job_id b)) (\<lambda>res.
             ret (case res of
                 Unsupported cmd host \<Rightarrow> unproxyable_console_note cmd host
               | Pending \<Rightarrow> ''could not resolve the board'' @ [CHR 0x27] @ ''s console endpoint yet (job may still be '' @
                   ''scheduling) '' @ dash @ '' retry with attach_console(console_session_id)''
               | Found h p \<Rightarrow> ''call attach_console(console_session_id) for the live serial console '' @
                   ''(endpoint '' @ h @ '':'' @ p @ '')''))))))"

section \<open>Opening a board session\<close>

text \<open>\<^verbatim>\<open>job_ids[0] if job_ids else None\<close> of the answer to a submission.\<close>

definition first_job :: "jval \<Rightarrow> exc + jval" where
  "first_job result =
     bind_res (if is_dict result then py_get result ''job_ids'' JNull else Inr JNull) (\<lambda>ids.
       if \<not> truthy ids then Inr JNull
       else (case ids of
           JList (x # _) \<Rightarrow> Inr x
         | JStr (c # _) \<Rightarrow> Inr (JStr [c])
         | JDict d \<Rightarrow> (case dict_get d (JInt 0) of Some x \<Rightarrow> Inr x | None \<Rightarrow> Inl KeyError)
         | _ \<Rightarrow> Inl TypeError))"

definition visibility_warning :: string where
  "visibility_warning = ''Submitted at the instance default visibility (private=False). This '' @
     ''job'' @ [CHR 0x27] @ ''s text contains the session SSH private key '' @ dash @ '' other LAVA users '' @
     ''may be able to read it. Re-open with private=True (the default) to '' @
     ''keep it personal.''"

definition downloads_note :: string where
  "downloads_note = ''LAVA fetches these before the container starts (applying your '' @
     ''headers/token) and mounts them at /lava-downloads. `ls '' @
     ''/lava-downloads` to confirm exact filenames.''"

definition expected_download :: "jval \<Rightarrow> exc + jval" where
  "expected_download d = bind_res (py_index d ''url'') (\<lambda>u. bind_res (download_label u 0) (\<lambda>l.
     Inr (obj [(''url'', u), (''expected_path'', JStr (''/lava-downloads/'' @ l))])))"

definition has_url :: "jval \<Rightarrow> bool" where
  "has_url d = (case d of JDict m \<Rightarrow> (case item_of m ''url'' of Some u \<Rightarrow> truthy u | None \<Rightarrow> False) | _ \<Rightarrow> False)"

record open_args =
  oa_job :: job_request
  oa_console :: bool

definition open_board_session :: "lava_ext \<Rightarrow> config \<Rightarrow> call \<Rightarrow> open_args \<Rightarrow> jval tool" where
  "open_board_session X cfg k a =
     (let rq = oa_job a; dt = jr_device_type rq in
     bind_act (require_user X cfg k (cf_http_users cfg)) (\<lambda>user.
     if cf_ws_url cfg = [] then ret (error_result ws_not_configured)
     else bind_act (tool_client cfg k) (\<lambda>c.
     bind_act (on_http (require_remote_access_device X c dt (cf_remote_tag cfg))) (\<lambda>_.
     bind_act (start_gateway k 0) (\<lambda>_.
     bind_act (if oa_console a
               then bind_act (on_http (require_test_services_device_type X c dt (cf_remote_tag cfg))) (\<lambda>_.
                    bind_act (make_sess (k_console_draw k) (Some dt) ''console'' user) (\<lambda>rc. ret (Some rc)))
               else ret None) (\<lambda>con.
     bind_act (make_sess (k_draw k) (Some dt) ''container'' user) (\<lambda>r.
     bind_act (case con of
         None \<Rightarrow> ret None
       | Some rc \<Rightarrow> bind_act (the_sess rc) (\<lambda>cb.
           bind_act (on_sess r (\<lambda>b. b\<lparr>console_session_id := Some (session_id cb)\<rparr>)) (\<lambda>_. ret (Some cb)))) (\<lambda>cb.
     bind_act (the_sess r) (\<lambda>b0.
     bind_act (lift_res (build_interactive_job X cfg b0 rq cb)) (\<lambda>job_yaml.
     bind_act (on_http (submit_job X c job_yaml)) (\<lambda>result.
     bind_act (lift_res (first_job result)) (\<lambda>job.
     bind_act (on_sess r (\<lambda>b. b\<lparr>s_job_id := job\<rparr>)) (\<lambda>_.
     bind_act (case con of None \<Rightarrow> ret () | Some rc \<Rightarrow> on_sess rc (\<lambda>b. b\<lparr>s_job_id := job\<rparr>)) (\<lambda>_.
     bind_act (wait_connected k 1 (session_id b0)) (\<lambda>connected.
     bind_act (the_sess r) (\<lambda>b1.
     bind_act (case (con, cb) of
         (Some rc, Some cb0) \<Rightarrow> bind_act (wire_console X k 2 c r rc connected) (\<lambda>note.
           ret [(''console_session_id'', JStr (session_id cb0)), (''console_note'', JStr note)])
       | _ \<Rightarrow> ret []) (\<lambda>console_view.
     bind_act (if jr_downloads rq = [] then ret []
               else bind_act (lift_res (map_res expected_download (filter has_url (jr_downloads rq)))) (\<lambda>ds.
                 ret [(''downloads_path'', JStr ''/lava-downloads''), (''downloads'', JList ds),
                   (''downloads_note'', JStr downloads_note)])) (\<lambda>dl_view.
       ret (obj (session_view b1 @ [(''connected'', JBool connected),
         (''visibility'', JStr (if jr_private rq then ''personal'' else ''default''))] @
         (if jr_private rq then [] else [(''visibility_warning'', JStr visibility_warning)]) @
         console_view @ dl_view))))))))))))))))))))"

section \<open>Using a board session\<close>

definition run_view :: "run_result \<Rightarrow> jval" where
  "run_view r = obj [(''exit_status'', jopt JInt (rr_exit r)), (''stdout'', JStr (rr_stdout r)), (''stderr'', JStr (rr_stderr r))]"

definition run_on :: "call \<Rightarrow> nat \<Rightarrow> string \<Rightarrow> string \<Rightarrow> rat \<Rightarrow> run_result tool" where
  "run_on k n i command timeout =
     bind_act (on_gw (\<lambda>g. (gw_run (k_dial k) i command timeout g, g))) (\<lambda>r. bind_act (yield k n) (\<lambda>_. ret r))"

definition run_in_session :: "lava_ext \<Rightarrow> config \<Rightarrow> call \<Rightarrow> string \<Rightarrow> string \<Rightarrow> int \<Rightarrow> jval tool" where
  "run_in_session X cfg k i command timeout =
     bind_act (require_user X cfg k (cf_http_users cfg)) (\<lambda>user.
     bind_act (find_sess i) (\<lambda>f. case f of
       None \<Rightarrow> ret (error_result (unknown_text i))
     | Some r \<Rightarrow>
         bind_act (the_sess r) (\<lambda>b.
         bind_act (lift_res (require_owner b user)) (\<lambda>_.
         if s_kind b \<noteq> ''container'' then ret (error_result (''session '' @ i @ '' is not a container session''))
         else bind_act (start_gateway k 0) (\<lambda>_.
              bind_act (run_on k 1 i command (of_int timeout)) (\<lambda>res. ret (run_view res)))))))"

definition bad_command_name :: "string \<Rightarrow> bool" where
  "bad_command_name name \<longleftrightarrow> name = [] \<or> list_ex is_space name \<or> CHR ''>'' \<in> set name"

definition run_device_command :: "lava_ext \<Rightarrow> config \<Rightarrow> call \<Rightarrow> string \<Rightarrow> string \<Rightarrow> jval tool" where
  "run_device_command X cfg k i name =
     bind_act (require_user X cfg k (cf_http_users cfg)) (\<lambda>user.
     bind_act (find_sess i) (\<lambda>f. case f of
       None \<Rightarrow> ret (error_result (unknown_text i))
     | Some r \<Rightarrow>
         bind_act (the_sess r) (\<lambda>b.
         bind_act (lift_res (require_owner b user)) (\<lambda>_.
         if s_kind b \<noteq> ''container'' then ret (error_result (''session '' @ i @ '' is not a container session''))
         else if bad_command_name name
         then ret (error_result (''invalid device command name (no whitespace or '' @ [CHR 0x27] @ ''>'' @ [CHR 0x27] @ '')''))
         else bind_act (start_gateway k 0) (\<lambda>_.
              bind_act (run_on k 1 i (''lava-device-command '' @ name) 150) (\<lambda>res.
              ret (obj [(''name'', JStr name), (''exit_status'', jopt JInt (rr_exit res)),
                (''ok'', JBool (rr_exit res = Some 0)), (''stdout'', JStr (rr_stdout res)),
                (''stderr'', JStr (rr_stderr res))])))))))"

definition not_closed :: jval where
  "not_closed = obj [(''closed'', JBool False), (''reason'', JStr ''unknown session'')]"

definition drop_sess :: "string \<Rightarrow> nat option tool" where
  "drop_sess i = on_gw (\<lambda>g. case remove_session i g of (f, g') \<Rightarrow> (Inr f, g'))"

definition close_paired_console :: "string option \<Rightarrow> unit tool" where
  "close_paired_console con = (case nonempty con of
      None \<Rightarrow> ret ()
    | Some ci \<Rightarrow> bind_act (drop_sess ci) (\<lambda>f. case f of
          None \<Rightarrow> ret ()
        | Some rc \<Rightarrow> on_sess rc (\<lambda>b. (revoke_human_keys b)\<lparr>s_status := ''closed''\<rparr>)))"

definition close_board_session :: "lava_ext \<Rightarrow> config \<Rightarrow> call \<Rightarrow> string \<Rightarrow> jval tool" where
  "close_board_session X cfg k i =
     bind_act (require_user X cfg k (cf_http_users cfg)) (\<lambda>user.
     bind_act (find_sess i) (\<lambda>f. case f of
       None \<Rightarrow> ret not_closed
     | Some r \<Rightarrow>
         bind_act (the_sess r) (\<lambda>b.
         bind_act (lift_res (require_owner b user)) (\<lambda>_.
         bind_act (start_gateway k 0) (\<lambda>_.
         bind_act (drop_sess i) (\<lambda>_.
         bind_act (on_sess r revoke_human_keys) (\<lambda>_.
         bind_act (the_sess r) (\<lambda>b1.
         bind_act (close_paired_console (console_session_id b1)) (\<lambda>_.
         bind_act (if truthy (s_job_id b1)
                   then bind_act (tool_client cfg k) (\<lambda>c. on_http (cancel_job X c (s_job_id b1)))
                   else ret JNull) (\<lambda>cancel.
         bind_act (on_sess r (\<lambda>b. b\<lparr>s_status := ''closed''\<rparr>)) (\<lambda>_.
         ret (obj [(''closed'', JBool True), (''job_id'', s_job_id b1), (''cancel'', cancel),
           (''console_session_closed'', jopt JStr (console_session_id b1))]))))))))))))"

definition list_board_sessions :: "lava_ext \<Rightarrow> config \<Rightarrow> call \<Rightarrow> jval tool" where
  "list_board_sessions X cfg k =
     bind_act (require_user X cfg k (cf_http_users cfg)) (\<lambda>user.
     bind_act (start_gateway k 0) (\<lambda>_.
     gets (\<lambda>w. JList (map (\<lambda>r. obj (session_view (sess_at (w_gw w) r)))
       (filter (\<lambda>r. s_owner (sess_at (w_gw w) r) \<in> {None, Some user}) (list_sessions (w_gw w)))))))"

definition key_note :: "string \<Rightarrow> string \<Rightarrow> string" where
  "key_note key_file conf_file =
     ''Save private_key to '' @ key_file @ '' and `chmod 600 '' @ key_file @ ''` '' @ dash @ '' ssh '' @
     ''REFUSES a key file with looser permissions '' @ dash @ '' then save ssh_config '' @
     ''to '' @ conf_file @ '' and run ssh_command for a shell. Requires '' @
     ''`websocat` on your PATH. Your source IP must be inside '' @
     ''LAVA_MCP_GATEWAY_ALLOW_IPS if set.''"

definition authorize_command :: "string \<Rightarrow> string" where
  "authorize_command pub = ''mkdir -p /root/.ssh && chmod 700 /root/.ssh && '' @
     ''printf '' @ [CHR 0x27] @ ''%s'' @ [CHR 0x5C] @ ''n'' @ [CHR 0x27] @ '' '' @
     [CHR 0x27] @ filter (\<lambda>c. c \<noteq> CHR 0x27) pub @ [CHR 0x27] @ '' >> /root/.ssh/authorized_keys''"

definition attach_shell :: "lava_ext \<Rightarrow> config \<Rightarrow> call \<Rightarrow> string \<Rightarrow> jval tool" where
  "attach_shell X cfg k i =
     bind_act (require_user X cfg k (cf_ssh_users cfg)) (\<lambda>user.
     if cf_ws_url cfg = [] then ret (error_result ws_not_configured)
     else bind_act (start_gateway k 0) (\<lambda>_.
     bind_act (find_sess i) (\<lambda>f. case f of
       None \<Rightarrow> ret (error_result (unknown_text i))
     | Some r \<Rightarrow>
         bind_act (the_sess r) (\<lambda>b.
         bind_act (lift_res (require_owner b user)) (\<lambda>_.
         if s_kind b \<noteq> ''container'' then ret (error_result (''session '' @ i @ '' is not a container session; '' @
           ''use attach_console for console sessions''))
         else if s_status b \<noteq> ''connected'' then ret (error_result (''session '' @ i @ '' is not connected yet''))
         else bind_act (on_gw (attach_human cfg i (k_keys k) (k_now k))) (\<lambda>info.
              bind_act (run_on k 1 i (authorize_command (ha_public info)) 120) (\<lambda>push.
              if rr_exit push \<notin> {Some 0, None}
              then ret (obj [(''error'', JStr ''failed to authorise key in container''), (''detail'', run_view push)])
              else (let key_file = ''lava-shell-'' @ i @ ''.key''; conf_file = ''lava-shell-'' @ i @ ''.conf'' in
                ret (obj [(''session_id'', JStr i), (''private_key'', JStr (ha_private info)),
                  (''expires_in'', JInt (ha_expires_in info)),
                  (''ssh_config'', JStr (build_shell_ssh_config i key_file (ha_ws_url info) (ha_port info) (container_user b))),
                  (''ssh_command'', JStr (''ssh -F '' @ conf_file @ '' board-'' @ i)),
                  (''note'', JStr (key_note key_file conf_file))])))))))))"

end
