(* ===== verification/ArtifactTools.thy ===== *)
theory ArtifactTools
  imports SessionTools
begin

text \<open>
  Artifacts as the server offers them: the PUT and GET routes, and the tools that reserve,
  delete and list artifacts. Reserving registers the upload's token with the LAVA server under a
  name; tokens whose artifact is gone are deleted there when their owner next calls.
\<close>

section \<open>Which store the server opens\<close>

definition open_store :: "config \<Rightarrow> string \<Rightarrow> exc + store_cfg option" where
  "open_store cfg mcp_path =
     (if \<not> cf_artifacts cfg then Inr None
      else bind_res (artifact_base_url cfg mcp_path) (\<lambda>base.
        Inr (if base = [] then None
             else Some \<lparr>base_url = rstrip_char CHR ''/'' base, ttl_default = cf_art_ttl cfg,
               ttl_max = cf_art_ttl_max cfg, max_bytes = cf_art_max_bytes cfg,
               min_free_fraction = cf_art_min_free cfg\<rparr>)))"

section \<open>The routes\<close>

text \<open>
  A request as the routes read it, with the stream of its body and the disk usage and clock it
  meets. A reply is a status with a document, or a file that is sent under a name.
\<close>

record http_in =
  hi_method :: string
  hi_id :: string
  hi_headers :: headers
  hi_disk :: disk
  hi_now :: rat
  hi_items :: "stream_item list"

datatype reply = Reply int jval | SendFile fname string

definition json_error :: "int \<Rightarrow> string \<Rightarrow> reply" where
  "json_error st m = Reply st (error_result m)"

text \<open>\<^verbatim>\<open>_authorized\<close>: the artifact, or the reply that refuses.\<close>

definition authorized :: "http_in \<Rightarrow> (reply + nat) tool" where
  "authorized h =
     bind_act (on_store (\<lambda>s. case get_art (hi_now h) (hi_id h) s of (f, t) \<Rightarrow> (Inr f, t))) (\<lambda>f. case f of
       None \<Rightarrow> ret (Inl (json_error 404 ''not found''))
     | Some r \<Rightarrow> bind_act (gets (\<lambda>w. obj_at (w_store w) r)) (\<lambda>a.
         ret (if verify_token a (presented_token (hi_headers h)) then Inr r
              else Inl (json_error 401 ''unauthorized''))))"

definition error_details :: "string \<Rightarrow> string \<Rightarrow> (string \<times> int) list \<Rightarrow> jval" where
  "error_details m reason ds = obj ([(''error'', JStr m), (''reason'', JStr reason)] @ map (\<lambda>(k, n). (k, JInt n)) ds)"

definition content_length :: "headers \<Rightarrow> exc + int option" where
  "content_length hs = (case header hs ''content-length'' of
      None \<Rightarrow> Inr None
    | Some s \<Rightarrow> (case py_int s of None \<Rightarrow> Inl ValueError | Some n \<Rightarrow> Inr (Some n)))"

definition put_artifact :: "store_cfg \<Rightarrow> http_in \<Rightarrow> reply tool" where
  "put_artifact sc h =
     bind_act (authorized h) (\<lambda>f. case f of
       Inl err \<Rightarrow> ret err
     | Inr r \<Rightarrow> bind_act (gets (\<lambda>w. obj_at (w_store w) r)) (\<lambda>a.
         if a_state a \<noteq> ''await_upload'' then ret (json_error 409 ''already uploaded'')
         else try_act
           (bind_act (lift_res (content_length (hi_headers h))) (\<lambda>n.
            bind_act (on_store (write_stream sc (hi_disk h) r n (hi_items h))) (\<lambda>_.
            bind_act (gets (\<lambda>w. obj_at (w_store w) r)) (\<lambda>b.
              ret (Reply 200 (obj [(''stored'', JBool True), (''artifact_id'', JStr (artifact_id b)),
                (''size'', jopt JInt (size_actual b))]))))))
           (\<lambda>e. case e of
               ArtifactError m reason ds \<Rightarrow> Some (ret (Reply 413 (error_details m reason ds)))
             | _ \<Rightarrow> None)))"

text \<open>
  Whether the job an artifact is bound to is known to be over. The server asks with its own
  account; without one, or when LAVA does not answer, it does not know.
\<close>

definition in_terminal :: "jval \<Rightarrow> exc + bool" where
  "in_terminal state = (case state of
      JStr s \<Rightarrow> Inr (s \<in> set terminal_job_states)
    | JList _ \<Rightarrow> Inl TypeError
    | JDict _ \<Rightarrow> Inl TypeError
    | _ \<Rightarrow> Inr False)"

definition server_client :: "config \<Rightarrow> exc + lava_client option" where
  "server_client cfg = (case client_from cfg None of
      Inr c \<Rightarrow> Inr (Some c)
    | Inl (LavaError m) \<Rightarrow> Inr None
    | Inl e \<Rightarrow> Inl e)"

definition bound_job_over :: "lava_ext \<Rightarrow> config \<Rightarrow> int \<Rightarrow> bool lava" where
  "bound_job_over X cfg job =
     bind_act (lift_res (server_client cfg)) (\<lambda>sc. case sc of
       None \<Rightarrow> ret False
     | Some c \<Rightarrow>
         bind_act (try_act
           (bind_act (get_job X c (JInt job)) (\<lambda>j. lift_res (py_get (py_or j (obj [])) ''state'' JNull)))
           (\<lambda>e. case e of LavaError m \<Rightarrow> Some (ret JNull) | _ \<Rightarrow> None)) (\<lambda>state.
         lift_res (in_terminal state)))"

definition get_artifact :: "lava_ext \<Rightarrow> config \<Rightarrow> http_in \<Rightarrow> reply tool" where
  "get_artifact X cfg h =
     bind_act (authorized h) (\<lambda>f. case f of
       Inl err \<Rightarrow> ret err
     | Inr r \<Rightarrow> bind_act (gets (\<lambda>w. obj_at (w_store w) r)) (\<lambda>a.
         if a_state a \<noteq> ''stored'' then ret (json_error 409 ''not uploaded yet'')
         else bind_act (case bind_job_id a of None \<Rightarrow> ret False | Some j \<Rightarrow> on_http (bound_job_over X cfg j)) (\<lambda>over.
           if over
           then bind_act (on_store (modify (\<lambda>s. snd (delete_art (artifact_id a) None s)))) (\<lambda>_.
                ret (json_error 410 ''bound job finished''))
           else ret (SendFile (BlobPath (artifact_id a)) (filename a)))))"

definition artifact_endpoint :: "lava_ext \<Rightarrow> config \<Rightarrow> store_cfg \<Rightarrow> http_in \<Rightarrow> reply tool" where
  "artifact_endpoint X cfg sc h =
     (if hi_method h = ''PUT'' then put_artifact sc h else get_artifact X cfg h)"

section \<open>The tools\<close>

text \<open>What a call to an artifact tool draws: the disk, two readings of the clock, two random strings.\<close>

record art_draw =
  ad_disk :: disk
  ad_now0 :: rat
  ad_now :: rat
  ad_id :: string
  ad_token :: string

fun delete_tokens :: "lava_ext \<Rightarrow> lava_client \<Rightarrow> string list \<Rightarrow> unit lava" where
  "delete_tokens X c [] = ret ()"
| "delete_tokens X c (n # ns) =
     bind_act (try_act (delete_remote_token X c n) (\<lambda>e. case e of LavaError m \<Rightarrow> Some (ret ()) | _ \<Rightarrow> None))
       (\<lambda>_. delete_tokens X c ns)"

definition flush_pending_tokens :: "lava_ext \<Rightarrow> lava_client \<Rightarrow> string \<Rightarrow> unit tool" where
  "flush_pending_tokens X c user =
     bind_act (on_store (\<lambda>s. case take_pending user s of (ns, t) \<Rightarrow> (Inr ns, t))) (\<lambda>names.
       on_http (delete_tokens X c names))"

definition token_how :: string where
  "token_how =
     ''This name is a LAVA remote artifact token holding the secret. Put the NAME as '' @
     ''a header value in a deploy/test url action and LAVA substitutes the real '' @
     ''token when the dispatcher downloads '' @ dash @ '' the secret never enters the job.''"

definition by_name_note :: string where
  "by_name_note =
     ''Paste deploy_block under the image/url you want LAVA to download (see '' @
     ''example_job_snippet for placement). It references the token by NAME, so the '' @
     ''secret stays out of the job.''"

definition inline_note :: string where
  "inline_note =
     ''NOTE: could not register a LAVA named token, so deploy_block carries the raw '' @
     ''token inline '' @ dash @ '' set the job visibility to personal to limit exposure.''"

definition on_device_note :: string where
  "on_device_note =
     ''To land this file on a BOOTED device that has working networking, run '' @
     ''fetch_command from a test action that executes on the DUT (e.g. an inline '' @
     ''test running `curl`/`wget`). The device must be able to reach this server '' @
     ''over HTTPS; the file is written to the device'' @ [CHR 0x27] @
     ''s own filesystem. Needs curl or '' @ ''wget on the target.''"

definition name_visibility :: string where
  "name_visibility =
     ''The artifact URL and the remote-artifact token NAME are not secret (LAVA '' @
     ''substitutes the name for the real token at download), so a job referencing it '' @
     ''by name needs NO visibility change.''"

definition inline_visibility :: string where
  "inline_visibility =
     ''A LAVA named token could not be registered, so deploy_block carries the RAW '' @
     ''token inline '' @ dash @ '' set `visibility: personal` at the top of the job so the token '' @
     ''is not publicly readable.''"

definition deploy_block :: "string \<Rightarrow> string \<Rightarrow> string" where
  "deploy_block url header_value =
     ''url: '' @ url @ [CHR 0x0A] @ ''headers:'' @ [CHR 0x0A] @ ''  Authorization: '' @ header_value"

definition image_stem :: "string \<Rightarrow> string" where
  "image_stem fn = (let s = before_char CHR ''.'' fn in if s = [] then ''image'' else s)"

definition job_snippet :: "string \<Rightarrow> string \<Rightarrow> string \<Rightarrow> string" where
  "job_snippet fn url header_value =
     text_lines [
       ''- deploy:'',
       ''    to: <your deploy method, from the template job>'',
       ''    images:'',
       ''      '' @ image_stem fn @ '':'',
       ''        url: '' @ url,
       ''        headers:'',
       ''          Authorization: '' @ header_value] @
     ''# ...keep the template'' @ [CHR 0x27] @ ''s other deploy/boot params unchanged''"

definition put_command :: "string \<Rightarrow> string \<Rightarrow> string" where
  "put_command token url = ''curl -fsS -T <local-file> '' @
     ''-H '' @ [CHR 0x22] @ ''Authorization: '' @ token @ [CHR 0x22] @ '' '' @ url"

definition fetch_command :: "string \<Rightarrow> string \<Rightarrow> string \<Rightarrow> string" where
  "fetch_command token fn url = ''curl -fsSL -H '' @ [CHR 0x22] @ ''Authorization: '' @ token @ [CHR 0x22] @ '' '' @
     ''-o '' @ fn @ '' '' @ url"

definition upload_view :: "store_cfg \<Rightarrow> artifact \<Rightarrow> string \<Rightarrow> string \<Rightarrow> bool \<Rightarrow> jval" where
  "upload_view sc a token name registered =
     (let url = get_url sc a; header_value = (if registered then name else token) in
      obj [
       (''artifact_id'', JStr (artifact_id a)),
       (''get_url'', JStr url),
       (''expires'', JFloat (expires a)),
       (''token'', JStr token),
       (''remote_artifact_token'', obj [
          (''name'', if registered then JStr name else JNull),
          (''registered'', JBool registered),
          (''how'', JStr token_how)]),
       (''put_command'', JStr (put_command token url)),
       (''fetch_command'', JStr (fetch_command token (filename a) url)),
       (''deploy_block'', JStr (deploy_block url header_value)),
       (''example_job_snippet'', JStr (job_snippet (filename a) url header_value)),
       (''deploy_note'', JStr (if registered then by_name_note else inline_note)),
       (''on_device_note'', JStr on_device_note),
       (''visibility_note'', JStr (if registered then name_visibility else inline_visibility)),
       (''lava_token_registered'', JBool registered)])"

definition token_name_of :: "artifact \<Rightarrow> string" where
  "token_name_of a = ''lava-mcp-artifact-'' @ artifact_id a"

text \<open>Registering the token: whether LAVA took it; only then the artifact remembers the name.\<close>

definition register_token :: "lava_ext \<Rightarrow> lava_client \<Rightarrow> artifact \<Rightarrow> string \<Rightarrow> bool tool" where
  "register_token X c a token =
     try_act
       (bind_act (on_http (add_remote_token X c (token_name_of a) token)) (\<lambda>_.
        bind_act (on_store (modify (set_lava_token_name (artifact_id a) (token_name_of a)))) (\<lambda>_.
          ret True)))
       (\<lambda>e. case e of LavaError m \<Rightarrow> Some (ret False) | _ \<Rightarrow> None)"

definition create_artifact_upload :: "lava_ext \<Rightarrow> config \<Rightarrow> store_cfg \<Rightarrow> call \<Rightarrow> art_draw \<Rightarrow> string \<Rightarrow> int \<Rightarrow>
    rat option \<Rightarrow> int option \<Rightarrow> jval tool" where
  "create_artifact_upload X cfg sc k d fname size_bytes ttl bind_job =
     bind_act (require_user X cfg k (cf_http_users cfg)) (\<lambda>user.
     bind_act (tool_client cfg k) (\<lambda>c.
     bind_act (flush_pending_tokens X c user) (\<lambda>_.
     bind_act (try_act
         (bind_act (on_store (create_art sc (ad_disk d) (ad_now0 d) (ad_now d) (ad_id d) (ad_token d) fname size_bytes
            user ttl bind_job)) (\<lambda>made. ret (Inr made)))
         (\<lambda>e. case e of ArtifactError m reason ds \<Rightarrow> Some (ret (Inl (error_details m reason ds))) | _ \<Rightarrow> None)) (\<lambda>made.
       case made of
         Inl err \<Rightarrow> ret err
       | Inr (r, token) \<Rightarrow>
           bind_act (gets (\<lambda>w. obj_at (w_store w) r)) (\<lambda>a.
           bind_act (register_token X c a token) (\<lambda>registered.
             ret (upload_view sc a token (token_name_of a) registered)))))))"

definition delete_artifact :: "lava_ext \<Rightarrow> config \<Rightarrow> call \<Rightarrow> string \<Rightarrow> jval tool" where
  "delete_artifact X cfg k i =
     bind_act (require_user X cfg k (cf_http_users cfg)) (\<lambda>user.
     bind_act (on_store (\<lambda>s. case delete_art i (Some user) s of (f, t) \<Rightarrow> (Inr f, t))) (\<lambda>f.
     bind_act (tool_client cfg k) (\<lambda>c.
     bind_act (flush_pending_tokens X c user) (\<lambda>_.
       ret (case f of
           None \<Rightarrow> obj [(''deleted'', JBool False), (''reason'', JStr ''unknown artifact or not yours'')]
         | Some r \<Rightarrow> obj [(''deleted'', JBool True), (''artifact_id'', JStr i)])))))"

definition list_artifacts :: "lava_ext \<Rightarrow> config \<Rightarrow> call \<Rightarrow> jval tool" where
  "list_artifacts X cfg k =
     bind_act (require_user X cfg k (cf_http_users cfg)) (\<lambda>user.
     bind_act (tool_client cfg k) (\<lambda>c.
     bind_act (flush_pending_tokens X c user) (\<lambda>_.
     bind_act (on_store (\<lambda>s. case list_for (k_now k) user s of (rs, t) \<Rightarrow> (Inr rs, t))) (\<lambda>rs.
     gets (\<lambda>w. obj [(''artifacts'', JList (map (\<lambda>r. artifact_view (obj_at (w_store w) r)) rs))])))))"

end
