(* ===== verification/ArtifactSpec.thy ===== *)
theory ArtifactSpec
  imports ArtifactTools
begin

text \<open>
  The artifact routes as their clients see them: answered from a map of metadata and bytes,
  and the proof that the routes of the code, over registry, sidecars and files, answer so.
\<close>

section \<open>The specification of the routes\<close>

text \<open>
  An answer is a status with a document, the bytes of a file under a name, or an exception
  that leaves the handler.
\<close>

datatype answer = Answer int jval | Download string "char list" | Raised exc | Broken_link

type_synonym abs_site = "abs_store \<times> http_req list"

definition abs_error :: "int \<Rightarrow> string \<Rightarrow> answer" where
  "abs_error st m = Answer st (error_result m)"

definition abs_put :: "store_cfg \<Rightarrow> http_in \<Rightarrow> abs_store \<Rightarrow> answer \<times> abs_store" where
  "abs_put sc h m = (case content_length (hi_headers h) of
      Inl e \<Rightarrow> (Raised e, m)
    | Inr n \<Rightarrow> (case abs_upload sc (hi_disk h) n (hi_items h) (hi_id h) m of
          (Inl (ArtifactError t reason ds), m') \<Rightarrow> (Answer 413 (error_details t reason ds), m')
        | (Inl e, m') \<Rightarrow> (Raised e, m')
        | (Inr a, m') \<Rightarrow> (Answer 200 (obj [(''stored'', JBool True), (''artifact_id'', JStr (artifact_id a)),
            (''size'', jopt JInt (size_actual a))]), m')))"

definition abs_download :: "lava_ext \<Rightarrow> config \<Rightarrow> http_in \<Rightarrow> artifact \<Rightarrow> char list option \<Rightarrow> abs_site \<Rightarrow> answer \<times> abs_site" where
  "abs_download X cfg h a b = (\<lambda>(m, l).
     case (case bind_job_id a of None \<Rightarrow> (Inr False, l) | Some j \<Rightarrow> bound_job_over X cfg j l) of
       (Inl e, l') \<Rightarrow> (Raised e, (m, l'))
     | (Inr True, l') \<Rightarrow> (abs_error 410 ''bound job finished'', (m(hi_id h := None), l'))
     | (Inr False, l') \<Rightarrow> (case b of Some bs \<Rightarrow> Download (filename a) bs | None \<Rightarrow> Broken_link, (m, l')))"

definition abs_endpoint :: "lava_ext \<Rightarrow> config \<Rightarrow> store_cfg \<Rightarrow> http_in \<Rightarrow> abs_site \<Rightarrow> answer \<times> abs_site" where
  "abs_endpoint X cfg sc h = (\<lambda>(m, l). case m (hi_id h) of
      None \<Rightarrow> (abs_error 404 ''not found'', (m, l))
    | Some (a, b) \<Rightarrow>
        if expired (hi_now h) a then (abs_error 404 ''not found'', (m(hi_id h := None), l))
        else if \<not> verify_token a (presented_token (hi_headers h)) then (abs_error 401 ''unauthorized'', (m, l))
        else if hi_method h = ''PUT''
        then if \<not> awaiting a then (abs_error 409 ''already uploaded'', (m, l))
             else (case abs_put sc h m of (x, m') \<Rightarrow> (x, (m', l)))
        else if awaiting a then (abs_error 409 ''not uploaded yet'', (m, l))
        else abs_download X cfg h a b (m, l))"

section \<open>The routes implement it\<close>

text \<open>What a client gets to see of what a handler leaves behind.\<close>

definition answer_of :: "(exc + reply) \<times> world \<Rightarrow> answer" where
  "answer_of x = (case fst x of
      Inl e \<Rightarrow> Raised e
    | Inr (Reply st j) \<Rightarrow> Answer st j
    | Inr (SendFile p fn) \<Rightarrow> (case fs_read (files (w_store (snd x))) p of
          Some (Bytes b) \<Rightarrow> Download fn b
        | _ \<Rightarrow> Broken_link))"

definition site_view :: "world \<Rightarrow> abs_site" where
  "site_view w = (view (w_store w), w_http w)"

lemma stored_not_awaiting: "art_ok sc a \<Longrightarrow> (a_state a = ''stored'') = (\<not> awaiting a)"
  by (auto simp: art_ok_def awaiting_def stored_def)

lemma live_view: "view s i = Some (a, b) \<longleftrightarrow> live s i = Some a \<and> b = map_option bytes_of (fs_read (files s) (BlobPath i))"
  by (auto simp: view_def)

lemma on_store_at: "on_store m w = (case m (w_store w) of (r, s) \<Rightarrow> (r, w\<lparr>w_store := s\<rparr>))"
  by (simp add: on_store_def)

text \<open>The blob of a stored artifact.\<close>

lemma stored_blob:
  assumes "store_ok sc s" "live s i = Some a" "\<not> awaiting a"
  shows "\<exists>bs. fs_read (files s) (BlobPath i) = Some (Bytes bs)"
proof -
  have art: "art_ok sc a" using assms(1,2) unfolding store_ok_def registry_ok_def live_def
    by (auto simp: obj_at_def)
  then have "stored a" using assms(3) by (auto simp: art_ok_def)
  then have "fs_read (files s) (BlobPath i) \<noteq> None" using files_okD(4) [OF store_okD(2) [OF assms(1)]] assms(2) by blast
  then obtain k where k: "fdir (files s) (BlobPath i) = Some k" by (auto simp: fs_read_def)
  then have "within_cap sc (fdata (files s) k)"
    using store_okD(4) [OF assms(1)] unfolding bytes_ok_def is_meta_def by blast
  then show ?thesis using k by (auto simp: within_cap_def fs_read_def)
qed

lemma authorized_at:
  "get_art (hi_now h) (hi_id h) (w_store w) = (None, t) \<Longrightarrow> authorized h w = (Inr (Inl (json_error 404 ''not found'')), w\<lparr>w_store := t\<rparr>)"
  "get_art (hi_now h) (hi_id h) (w_store w) = (Some r, t) \<Longrightarrow> authorized h w =
     (Inr (if verify_token (obj_at t r) (presented_token (hi_headers h)) then Inr r else Inl (json_error 401 ''unauthorized'')),
      w\<lparr>w_store := t\<rparr>)"
  by (simp_all add: authorized_def bind_act_at on_store_at ret_def gets_def)

lemma put_refines:
  assumes ok: "store_ok sc (w_store w)" and r: "dict_get (arts (w_store w)) (hi_id h) = Some r"
    and auth: "authorized h w = (Inr (Inr r), w)" and aw: "awaiting (obj_at (w_store w) r)"
    and run: "put_artifact sc h w = (res, v)"
  shows "abs_put sc h (view (w_store w)) = (answer_of (res, v), view (w_store v)) \<and> w_http v = w_http w"
proof (cases "content_length (hi_headers h)")
  case (Inl e)
  then show ?thesis using run auth aw
    by (auto simp: put_artifact_def bind_act_at awaiting_def try_act_def lift_res_def gets_def abs_put_def answer_of_def
        content_length_def split: option.splits)
next
  case (Inr n)
  obtain out u where ws: "write_stream sc (hi_disk h) r n (hi_items h) (w_store w) = (out, u)" by fastforce
  note up = upload_refines [OF ok r ws]
  have eq: "put_artifact sc h w = (case out of
      Inr q \<Rightarrow> (Inr (Reply 200 (obj [(''stored'', JBool True), (''artifact_id'', JStr (artifact_id (obj_at u r))),
          (''size'', jopt JInt (size_actual (obj_at u r)))])), w\<lparr>w_store := u\<rparr>)
    | Inl (ArtifactError m reason ds) \<Rightarrow> (Inr (Reply 413 (error_details m reason ds)), w\<lparr>w_store := u\<rparr>)
    | Inl e \<Rightarrow> (Inl e, w\<lparr>w_store := u\<rparr>))"
    using auth aw Inr ws
    by (auto simp: put_artifact_def bind_act_at awaiting_def try_act_def lift_res_def gets_def on_store_at ret_def
        split: sum.splits exc.splits)
  have q: "out = Inr q \<Longrightarrow> q = r" for q
    using ws by (auto simp: write_stream_def bind_act_at ret_def split: prod.splits sum.splits)
  show ?thesis
  proof (cases out)
    case (Inl e)
    then show ?thesis using run eq up Inr by (cases e) (auto simp: abs_put_def answer_of_def)
  next
    case (Inr x)
    then show ?thesis using run eq up q \<open>content_length _ = _\<close> by (auto simp: abs_put_def answer_of_def)
  qed
qed

lemma get_refines_route:
  assumes ok: "store_ok sc (w_store w)" and r: "dict_get (arts (w_store w)) (hi_id h) = Some r"
    and auth: "authorized h w = (Inr (Inr r), w)" and st: "\<not> awaiting (obj_at (w_store w) r)"
    and run: "get_artifact X cfg h w = (res, v)"
  shows "abs_download X cfg h (obj_at (w_store w) r) (map_option bytes_of (fs_read (files (w_store w)) (BlobPath (hi_id h))))
     (site_view w) = (answer_of (res, v), site_view v)"
proof -
  let ?a = "obj_at (w_store w) r"
  have art: "art_ok sc ?a" "artifact_id ?a = hi_id h"
    using ok r unfolding store_ok_def registry_ok_def by (auto simp: obj_at_def)
  have live: "live (w_store w) (hi_id h) = Some ?a" using r by (simp add: live_def)
  obtain bs where bs: "fs_read (files (w_store w)) (BlobPath (hi_id h)) = Some (Bytes bs)"
    using stored_blob [OF ok live st] by blast
  obtain over l where over: "(case bind_job_id ?a of None \<Rightarrow> (Inr False, w_http w) | Some j \<Rightarrow> bound_job_over X cfg j (w_http w)) = (over, l)"
    by fastforce
  have ask: "(case bind_job_id ?a of None \<Rightarrow> ret False | Some j \<Rightarrow> on_http (bound_job_over X cfg j)) w = (over, w\<lparr>w_http := l\<rparr>)"
    using over by (auto simp: on_http_def ret_def split: option.splits)
  have del: "view (snd (delete_art (hi_id h) None (w_store w))) = (view (w_store w))(hi_id h := None)"
  proof -
    have "delete_art (hi_id h) None (w_store w) = (Some r, snd (delete_art (hi_id h) None (w_store w)))"
      using r by (simp add: delete_art_def)
    from delete_refines [OF this] show ?thesis using live by (auto simp: abs_delete_def view_def)
  qed
  show ?thesis
  proof (cases over)
    case (Inl e)
    then show ?thesis using run auth st stored_not_awaiting [OF art(1)] ask over
      by (auto simp: get_artifact_def bind_act_at gets_def abs_download_def site_view_def answer_of_def)
  next
    case (Inr b)
    then show ?thesis using run auth st stored_not_awaiting [OF art(1)] ask over bs del art(2)
      by (cases b) (auto simp: get_artifact_def bind_act_at gets_def abs_download_def site_view_def answer_of_def on_store_at
          modify_def ret_def json_error_def abs_error_def)
  qed
qed

lemma endpoint_refines:
  assumes ok: "store_ok sc (w_store w)" and run: "artifact_endpoint X cfg sc h w = (res, v)"
  shows "abs_endpoint X cfg sc h (site_view w) = (answer_of (res, v), site_view v)"
proof -
  let ?s = "w_store w" and ?i = "hi_id h"
  obtain ro t where g: "get_art (hi_now h) ?i ?s = (ro, t)" by fastforce
  note ag = get_refines [OF store_okD(1) [OF ok] g]
  show ?thesis
  proof (cases ro)
    case None
    then have "(res, v) = (Inr (json_error 404 ''not found''), w\<lparr>w_store := t\<rparr>)"
      using run g by (cases "hi_method h = ''PUT''")
        (auto simp: artifact_endpoint_def put_artifact_def get_artifact_def authorized_at(1) bind_act_at ret_def)
    moreover have "abs_endpoint X cfg sc h (view ?s, l) = (abs_error 404 ''not found'', (view t, l))" for l
      using ag None by (auto simp: abs_endpoint_def abs_get_def split: option.splits if_splits)
    ultimately show ?thesis by (simp add: site_view_def answer_of_def json_error_def abs_error_def)
  next
    case (Some r)
    then have t: "t = ?s" "dict_get (arts ?s) ?i = Some r" using get_Some g by blast+
    let ?a = "obj_at ?s r" and ?tok = "presented_token (hi_headers h)"
    have lv: "live ?s ?i = Some ?a" using t(2) by (simp add: live_def)
    have fresh: "\<not> expired (hi_now h) ?a" using g Some t by (auto simp: get_art_def split: if_splits)
    have art: "art_ok sc ?a"
      using ok t(2) unfolding store_ok_def registry_ok_def by (auto simp: obj_at_def)
    have b: "view ?s ?i = Some (?a, map_option bytes_of (fs_read (files ?s) (BlobPath ?i)))" using lv by (simp add: view_def)
    have au: "authorized h w = (Inr (if verify_token ?a ?tok then Inr r else Inl (json_error 401 ''unauthorized'')), w)"
      using authorized_at(2) [of h w r t] g Some t by simp
    have spec: "abs_endpoint X cfg sc h (site_view w) =
        (if \<not> verify_token ?a ?tok then (abs_error 401 ''unauthorized'', site_view w)
         else if hi_method h = ''PUT''
         then if \<not> awaiting ?a then (abs_error 409 ''already uploaded'', site_view w)
              else (case abs_put sc h (view ?s) of (x, m') \<Rightarrow> (x, (m', w_http w)))
         else if awaiting ?a then (abs_error 409 ''not uploaded yet'', site_view w)
         else abs_download X cfg h ?a (map_option bytes_of (fs_read (files ?s) (BlobPath ?i))) (site_view w))"
      using b fresh by (simp add: abs_endpoint_def site_view_def)
    consider (bad) "\<not> verify_token ?a ?tok" | (put) "verify_token ?a ?tok" "hi_method h = ''PUT''"
      | (get) "verify_token ?a ?tok" "hi_method h \<noteq> ''PUT''" by blast
    then show ?thesis
    proof cases
      case bad
      then have "(res, v) = (Inr (json_error 401 ''unauthorized''), w)"
        using run au by (cases "hi_method h = ''PUT''")
          (simp_all add: artifact_endpoint_def put_artifact_def get_artifact_def bind_act_at ret_def)
      then show ?thesis using bad spec by (simp add: answer_of_def json_error_def abs_error_def)
    next
      case put
      then have run: "put_artifact sc h w = (res, v)" using run by (simp add: artifact_endpoint_def)
      show ?thesis
      proof (cases "awaiting ?a")
        case True
        then show ?thesis using put spec put_refines [OF ok t(2) _ True run] au by (simp add: site_view_def)
      next
        case False
        then have "(res, v) = (Inr (json_error 409 ''already uploaded''), w)"
          using run au put by (simp add: put_artifact_def bind_act_at gets_def awaiting_def ret_def)
        then show ?thesis using put False spec by (simp add: answer_of_def json_error_def abs_error_def)
      qed
    next
      case get
      then have run: "get_artifact X cfg h w = (res, v)" using run by (simp add: artifact_endpoint_def)
      show ?thesis
      proof (cases "awaiting ?a")
        case False
        then show ?thesis using get spec get_refines_route [OF ok t(2) _ False run] au by simp
      next
        case True
        then have "(res, v) = (Inr (json_error 409 ''not uploaded yet''), w)"
          using run au get stored_not_awaiting [OF art] by (simp add: get_artifact_def bind_act_at gets_def ret_def)
        then show ?thesis using get True spec by (simp add: answer_of_def json_error_def abs_error_def)
      qed
    qed
  qed
qed

section \<open>Sessions of requests and of everything else the store is asked\<close>

lemma sound_ok: "sound_step sc s t \<Longrightarrow> store_ok sc s \<Longrightarrow> store_ok sc t"
  by (simp add: sound_step_def)

lemma authorized_keeps: "keeps (\<lambda>w. store_ok sc (w_store w)) (authorized h)"
  unfolding authorized_def
  by (intro keeps_intros) (auto simp: keeps_def on_store_def case_prod_beta intro: sound_ok [OF sound_get])

lemma endpoint_ok:
  assumes cap: "0 \<le> max_bytes sc"
  shows "keeps (\<lambda>w. store_ok sc (w_store w)) (artifact_endpoint X cfg sc h)"
proof -
  let ?P = "\<lambda>w. store_ok sc (w_store w)"
  have http: "keeps ?P (on_http m)" for m :: "'b lava"
    by (simp add: keeps_def on_http_def case_prod_beta)
  have del: "keeps ?P (on_store (modify (\<lambda>s. snd (delete_art i None s))))" for i
    by (auto simp: keeps_def on_store_def modify_def intro: sound_ok [OF sound_delete])
  have get: "keeps ?P (get_artifact X cfg h)"
    unfolding get_artifact_def by (intro keeps_intros authorized_keeps http del) (auto split: sum.splits intro!: keeps_intros http del)
  have put: "?P w \<Longrightarrow> ?P (snd (put_artifact sc h w))" for w
  proof -
    assume ok: "?P w"
    obtain ro t where g: "get_art (hi_now h) (hi_id h) (w_store w) = (ro, t)" by fastforce
    have okt: "store_ok sc t" using sound_ok [OF sound_get ok, of "hi_now h" "hi_id h"] g by simp
    show "?P (snd (put_artifact sc h w))"
    proof (cases ro)
      case None
      then show ?thesis using g okt by (simp add: put_artifact_def bind_act_at authorized_at(1) ret_def)
    next
      case (Some r)
      have r: "dict_get (arts t) (hi_id h) = Some r" using get_Some g Some by metis
      have w: "store_ok sc (snd (write_stream sc (hi_disk h) r n (hi_items h) t))" for n
        using write_stream_sound [OF okt cap r] by (metis prod.collapse)
      show ?thesis using authorized_at(2) [of h w r t] g Some okt w
        by (auto simp: put_artifact_def bind_act_at ret_def gets_def try_act_def lift_res_def on_store_def case_prod_beta
            split: sum.splits exc.splits)
    qed
  qed
  show ?thesis
    using get put unfolding keeps_def artifact_endpoint_def by simp
qed

datatype site_op = Http http_in | Direct store_op

fun run_site :: "lava_ext \<Rightarrow> config \<Rightarrow> store_cfg \<Rightarrow> site_op \<Rightarrow> world \<Rightarrow> (answer + (exc + artifact option)) \<times> world" where
  "run_site X cfg sc (Http h) w = (Inl (answer_of (artifact_endpoint X cfg sc h w)), snd (artifact_endpoint X cfg sc h w))"
| "run_site X cfg sc (Direct x) w = (case run_op sc x (w_store w) of (a, s) \<Rightarrow> (Inr a, w\<lparr>w_store := s\<rparr>))"

fun abs_site_op :: "lava_ext \<Rightarrow> config \<Rightarrow> store_cfg \<Rightarrow> site_op \<Rightarrow> abs_site \<Rightarrow> (answer + (exc + artifact option)) \<times> abs_site" where
  "abs_site_op X cfg sc (Http h) y = (case abs_endpoint X cfg sc h y of (a, z) \<Rightarrow> (Inl a, z))"
| "abs_site_op X cfg sc (Direct x) (m, l) = (case abs_op sc x m of (a, m') \<Rightarrow> (Inr a, (m', l)))"

fun site_env :: "site_op \<Rightarrow> world \<Rightarrow> bool" where
  "site_env (Http h) w = True"
| "site_env (Direct x) w = op_env x (w_store w)"

lemma endpoint_sim:
  "store_ok sc (w_store w) \<Longrightarrow> abs_endpoint X cfg sc h (site_view w) =
     (answer_of (artifact_endpoint X cfg sc h w), site_view (snd (artifact_endpoint X cfg sc h w)))"
  using endpoint_refines [of sc w X cfg h "fst (artifact_endpoint X cfg sc h w)" "snd (artifact_endpoint X cfg sc h w)"] by simp

interpretation site: simulation "run_site X cfg sc" "abs_site_op X cfg sc" site_view
    "\<lambda>w. store_ok sc (w_store w) \<and> 0 \<le> max_bytes sc" site_env for X cfg sc
proof unfold_locales
  fix w x
  assume ok: "store_ok sc (w_store w) \<and> 0 \<le> max_bytes sc" and env: "site_env x w"
  show "store_ok sc (w_store (snd (run_site X cfg sc x w))) \<and> 0 \<le> max_bytes sc"
    using ok env endpoint_ok [of sc X cfg] run_op_ok [of sc "w_store w"]
    by (cases x) (auto simp: keeps_def case_prod_beta)
  show "abs_site_op X cfg sc x (site_view w) = (fst (run_site X cfg sc x w), site_view (snd (run_site X cfg sc x w)))"
    using ok env endpoint_sim [of sc w X cfg] run_op_refines [of sc "w_store w"]
    by (cases x) (simp_all add: case_prod_beta site_view_def)
qed

text \<open>C29: The artifact routes implement their specification. Any sequence of uploads and downloads
  over HTTP, by anybody, with any headers and any stream, mixed with everything else the store is
  asked (reserving, looking up, deleting, reaping): every reply, its status and its document, every
  byte a download carries and every exception is the one a map from identifiers to metadata and
  bytes gives, LAVA being asked the same questions. No registry, sidecar, partial file or broken
  link shows through.\<close>

theorem routes_refine:
  assumes "0 \<le> max_bytes sc" "w_store w = empty_store"
    and "valid_run site_env (\<lambda>x w. snd (run_site X cfg sc x w)) xs w"
  shows "outputs (run_site X cfg sc) xs w = outputs (abs_site_op X cfg sc) xs (Map.empty, w_http w) \<and>
    site_view (fold (\<lambda>x w. snd (run_site X cfg sc x w)) xs w) =
      fold (\<lambda>x y. snd (abs_site_op X cfg sc x y)) xs (Map.empty, w_http w)"
proof -
  have "store_ok sc (w_store w)" using init_sys_ok [OF assms(1)] assms(2) by (simp add: sys_ok_def init_sys_def)
  moreover have "site_view w = (Map.empty, w_http w)"
    using assms(2) by (simp add: site_view_def view_def empty_store_def live_def fun_eq_iff)
  ultimately show ?thesis using site.session_sim [where X = X and cfg = cfg and sc = sc and s = w and xs = xs] assms by simp
qed

section \<open>Reserving, uploading, fetching\<close>

lemma delete_tokens_store: "keeps (\<lambda>w. w_store w = s) (on_http m)"
  by (simp add: keeps_def on_http_def case_prod_beta)

lemma flush_store:
  assumes "flush_pending_tokens X c u w = (Inr x, w1)"
  shows "w_store w1 = snd (take_pending u (w_store w))"
  using assms by (auto simp: flush_pending_tokens_def bind_act_at on_store_def on_http_def case_prod_beta split: sum.splits)

lemma take_pending_frame [simp]:
  "objs (snd (take_pending u s)) = objs s" "arts (snd (take_pending u s)) = arts s" "files (snd (take_pending u s)) = files s"
  by (simp_all add: take_pending_def Let_def)

text \<open>What registering the token leaves behind.\<close>

lemma register_token_run:
  assumes "register_token X c a token w = (Inr ok_reg, w1)"
  shows "w_store w1 = (if ok_reg then set_lava_token_name (artifact_id a) (token_name_of a) (w_store w) else w_store w)"
  using assms
  by (auto simp: register_token_def try_act_def bind_act_at on_http_def on_store_def modify_def ret_def case_prod_beta
      split: sum.splits exc.splits)

lemma token_name_view:
  assumes ok: "store_ok sc s" and v: "view s i = Some (a, b)"
  shows "view (set_lava_token_name i n s) = (view s)(i \<mapsto> (a\<lparr>lava_token_name := Some n\<rparr>, b))"
proof -
  obtain r where r: "dict_get (arts s) i = Some r" "obj_at s r = a" "artifact_id a = i"
    using v live_ref [OF store_okD(1) [OF ok], of i a] by (auto simp: view_def)
  let ?a = "a\<lparr>lava_token_name := Some n\<rparr>"
  have eq: "set_lava_token_name i n s = persist ?a (set_obj r ?a s)"
    using r by (simp add: set_lava_token_name_def Let_def)
  have lv: "live (set_lava_token_name i n s) j = (if j = i then Some ?a else live s j)" for j
    unfolding eq using live_update [OF store_okD(1) [OF ok] r(1)] by simp
  have "fs_read (files (set_lava_token_name i n s)) (BlobPath j) = fs_read (files s) (BlobPath j)" for j
    using store_okD(3) [OF ok] by (simp add: eq persist_def set_obj_def fs_read_put)
  then show ?thesis using v by (auto simp: view_def lv fun_eq_iff)
qed

text \<open>A reservation that succeeds: what the store then holds, and what the caller is told.\<close>

definition reserved :: "store_cfg \<Rightarrow> art_draw \<Rightarrow> string \<Rightarrow> int \<Rightarrow> string \<Rightarrow> rat option \<Rightarrow> int option \<Rightarrow> artifact" where
  "reserved sc d fname n u ttl bj = new_artifact sc (ad_now d) (ad_id d) (ad_token d) fname n u ttl bj"

lemma create_upload_run:
  assumes ok: "store_ok sc (w_store w)" and fresh: "ad_id d \<notin> known_ids (w_store w)"
    and user: "require_user X cfg k (cf_http_users cfg) w = (Inr u, w0)" "w_store w0 = w_store w"
    and adm: "check_admission sc (ad_disk d) n = Inr ()"
    and run: "create_artifact_upload X cfg sc k d fname n ttl bj w = (Inr v, w1)"
  shows "\<exists>ok_reg c wf. let a = reserved sc d fname n u ttl bj; b = (if ok_reg then a\<lparr>lava_token_name := Some (token_name_of a)\<rparr> else a) in
    client_from cfg (k_headers k) = Inr c \<and> register_token X c a (ad_token d) wf = (Inr ok_reg, w1) \<and>
    v = upload_view sc a (ad_token d) (token_name_of a) ok_reg \<and> store_ok sc (w_store w1) \<and>
    view (w_store w1) = (abs_reap (ad_now0 d) (view (w_store w)))(ad_id d \<mapsto> (b, None))"
proof -
  let ?a = "reserved sc d fname n u ttl bj"
  obtain c where c: "tool_client cfg k w0 = (Inr c, w0)"
    using run user by (auto simp: create_artifact_upload_def bind_act_at tool_client_def lift_res_def split: sum.splits)
  obtain wf where f: "flush_pending_tokens X c u w0 = (Inr (), wf)"
    using run user c by (auto simp: create_artifact_upload_def bind_act_at split: prod.splits sum.splits)
  have sf: "w_store wf = snd (take_pending u (w_store w))" using flush_store [OF f] user by simp
  have okf: "store_ok sc (w_store wf)" using sound_ok [OF sound_take_pending ok] sf by simp
  have vf: "view (w_store wf) = view (w_store w)"
    by (simp add: sf view_def live_def obj_at_def [abs_def] fun_eq_iff)
  have freshf: "ad_id d \<notin> known_ids (w_store wf)" using fresh by (simp add: sf known_ids_def)
  obtain r t where cr: "create_art sc (ad_disk d) (ad_now0 d) (ad_now d) (ad_id d) (ad_token d) fname n u ttl bj (w_store wf) =
      (Inr (r, ad_token d), t)"
    using adm by (simp add: create_art_eq Let_def)
  have okt: "store_ok sc t"
    using sound_create [of "ad_id d" "w_store wf" sc] okf freshf cr by (metis known_ids_def sound_ok snd_conv)
  have at: "obj_at t r = ?a" and vt: "view t = (abs_reap (ad_now0 d) (view (w_store w)))(ad_id d \<mapsto> (?a, None))"
    using create_refines [OF okf freshf cr] adm vf by (auto simp: abs_create_def reserved_def new_artifact_def)
  obtain ok_reg where g: "register_token X c ?a (ad_token d) (wf\<lparr>w_store := t\<rparr>) = (Inr ok_reg, w1)"
    and v: "v = upload_view sc ?a (ad_token d) (token_name_of ?a) ok_reg"
    using run user c f cr at
    by (auto simp: create_artifact_upload_def bind_act_at try_act_def on_store_def ret_def gets_def split: prod.splits sum.splits)
  have id: "artifact_id ?a = ad_id d" by (simp add: reserved_def new_artifact_def)
  have st: "w_store w1 = (if ok_reg then set_lava_token_name (ad_id d) (token_name_of ?a) t else t)"
    using register_token_run [OF g] by (simp add: id)
  have "view t (ad_id d) = Some (?a, None)" by (simp add: vt)
  from token_name_view [OF okt this] have
    "view (w_store w1) = (abs_reap (ad_now0 d) (view (w_store w)))(ad_id d \<mapsto>
       (if ok_reg then ?a\<lparr>lava_token_name := Some (token_name_of ?a)\<rparr> else ?a, None))"
    by (simp add: st vt)
  moreover have "store_ok sc (w_store w1)" using okt sound_ok [OF sound_token_name okt] by (simp add: st)
  moreover have "client_from cfg (k_headers k) = Inr c" using c by (auto simp: tool_client_def lift_res_def)
  ultimately show ?thesis using v g by (intro exI [of _ ok_reg] exI [of _ c]) (auto simp: Let_def)
qed

lemma create_upload_refused:
  assumes ok: "store_ok sc (w_store w)"
    and user: "require_user X cfg k (cf_http_users cfg) w = (Inr u, w0)" "w_store w0 = w_store w"
    and adm: "check_admission sc (ad_disk d) n = Inl (ArtifactError m reason ds)"
    and run: "create_artifact_upload X cfg sc k d fname n ttl bj w = (Inr v, w1)"
  shows "v = error_details m reason ds \<and> view (w_store w1) = abs_reap (ad_now0 d) (view (w_store w)) \<and>
    (\<exists>c wf. client_from cfg (k_headers k) = Inr c \<and> flush_pending_tokens X c u w0 = (Inr (), wf) \<and> w_http w1 = w_http wf)"
proof -
  obtain c where c: "tool_client cfg k w0 = (Inr c, w0)"
    using run user by (auto simp: create_artifact_upload_def bind_act_at tool_client_def lift_res_def split: sum.splits)
  obtain wf where f: "flush_pending_tokens X c u w0 = (Inr (), wf)"
    using run user c by (auto simp: create_artifact_upload_def bind_act_at split: prod.splits sum.splits)
  have sf: "w_store wf = snd (take_pending u (w_store w))" using flush_store [OF f] user by simp
  have "store_ok sc (w_store wf)" using sound_ok [OF sound_take_pending ok] sf by simp
  then have v: "view (snd (reap (ad_now0 d) (w_store wf))) = abs_reap (ad_now0 d) (view (w_store wf))"
    by (rule view_reap [OF store_okD(1)])
  have "view (w_store wf) = view (w_store w)"
    by (simp add: sf view_def live_def obj_at_def [abs_def] fun_eq_iff)
  moreover have "client_from cfg (k_headers k) = Inr c" using c by (auto simp: tool_client_def lift_res_def)
  ultimately show ?thesis
    using run user c f adm v
    by (auto simp: create_artifact_upload_def bind_act_at try_act_def on_store_def ret_def create_art_eq Let_def)
qed

lemma stream_result_steady:
  "steady sc items \<Longrightarrow> n + int (length (stream_bytes items)) \<le> max_bytes sc \<Longrightarrow>
     stream_result sc n chk items = Inr (stream_bytes items)"
  by (induction sc items arbitrary: n chk rule: steady.induct) (auto simp: Let_def)

text \<open>The token as a client may present it.\<close>

definition presents :: "http_in \<Rightarrow> string \<Rightarrow> bool" where
  "presents h token \<longleftrightarrow> (\<exists>scheme \<in> {[], ''Bearer '', ''Token ''}. header (hi_headers h) ''authorization'' = Some (scheme @ token))"

lemma presented_plain:
  assumes p: "presents h token" and tok: "token \<noteq> []" "list_all (\<lambda>c. \<not> is_space c) token"
  shows "presented_token (hi_headers h) = Some token"
proof -
  have all: "takeWhile (\<lambda>c. \<not> is_space c) token = token" "dropWhile (\<lambda>c. \<not> is_space c) token = []"
      "dropWhile is_space token = token"
    using tok by (simp_all add: takeWhile_eq_all_conv dropWhile_eq_Nil_conv list_all_iff dropWhile_eq_self_iff)
  have word: "\<not> is_space c" if "c \<in> set ''Bearer'' \<union> set ''Token''" for c
    using that by (auto simp: is_space_def)
  have sp: "is_space CHR '' ''" by (simp add: is_space_def)
  have "split_ws_once token = [token]" using tok(1) by (simp add: split_ws_once_def Let_def all)
  moreover have "split_ws_once (''Bearer '' @ token) = [''Bearer'', token]" "split_ws_once (''Token '' @ token) = [''Token'', token]"
    using tok(1) by (simp_all add: split_ws_once_def Let_def all word sp)
  moreover have "lower ''Bearer'' = ''bearer''" "lower ''Token'' = ''token''" by code_simp+
  ultimately show ?thesis
    using p tok by (auto simp: presents_def presented_token_def nonempty_def)
qed

definition upload_spec :: "store_cfg \<Rightarrow> string \<Rightarrow> stream_item list \<Rightarrow> rat \<Rightarrow> http_in \<Rightarrow> bool" where
  "upload_spec sc token items till h \<longleftrightarrow> hi_method h = ''PUT'' \<and> hi_now h < till \<and> hi_items h = items \<and> presents h token \<and>
     header (hi_headers h) ''content-length'' = None"


end
