(* ===== verification/ConsoleTools.thy ===== *)
theory ConsoleTools
  imports SessionTools
begin

text \<open>
  The serial console tools of \<^verbatim>\<open>lava_mcp/server.py\<close>: reserving a console for a
  deploy-and-boot job, asking whether it is writable yet, attaching to it and closing it.
\<close>

section \<open>Whether a device permits the proxy\<close>

definition check_serial_console_support :: "lava_ext \<Rightarrow> config \<Rightarrow> call \<Rightarrow> string \<Rightarrow> jval tool" where
  "check_serial_console_support X cfg k host =
     bind_act (require_user X cfg k (cf_http_users cfg)) (\<lambda>_.
     bind_act (tool_client cfg k) (\<lambda>c.
     bind_act (on_http (allows_test_services X c host)) (\<lambda>ok.
       ret (obj [(''hostname'', JStr host), (''allow_test_services'', JBool ok), (''ok'', JBool ok),
         (''message'', JStr (if ok then ''ready''
            else host @ '' does not set allow_test_services; a lab admin '' @
              ''must enable it before the serial-console proxy can run.''))]))))"

section \<open>Reserving a console\<close>

definition add_note :: string where
  "add_note =
     ''Everything to add to your deploy+boot LAVA job '' @ dash @ '' no repo lookup or example '' @
     ''needed. Two actions + the environment.''"

definition services_note :: string where
  "services_note =
     ''Add this as the FIRST action (before deploy/boot) so the proxy watches the '' @
     ''console from the start of the job.''"

definition env_note :: string where
  "env_note =
     ''Put job_environment (above) into the job'' @ [CHR 0x27] @
     ''s top-level `environment:`, plus: '' @
     ''SER2NET_NETWORK (docker network ser2net is on, usually '' @ [CHR 0x27] @
     ''lava-dispatcher_default'' @ [CHR 0x27] @
     ''); CONSOLE_READY_SENTINEL (must match the echo in '' @
     ''step 3, e.g. LAVA_MCP_CONSOLE_WRITABLE). Do NOT set '' @
     ''SER2NET_HOST/SER2NET_PORT: the console port is per-board and unknown until '' @
     ''LAVA schedules the job, so the server discovers the assigned board'' @ [CHR 0x27] @
     ''s endpoint '' @ ''and pushes it to the proxy for you (see step '' @ [CHR 0x27] @ ''then'' @
     [CHR 0x27] @ '').''"

definition ready_note :: string where
  "ready_note =
     ''Add this as the LAST action (after deploy+boot reaches a shell). It echoes '' @
     ''CONSOLE_READY_SENTINEL to unlock the read-only console, then hands you an '' @
     ''interactive shell that holds the job open. Set its `timeout.minutes` to your '' @
     ''job length and its `namespace`/`connection-namespace` to match your boot '' @
     ''action. LAVA tolerates a silent console, so no keepalive is needed; end the '' @
     ''session by exiting the shell.''"

definition then_note :: string where
  "then_note =
     ''Submit the job, then poll check_console_ready(job_id, session_id=session_id) '' @
     ''until it returns ready:true (do NOT scrape logs yourself). Passing session_id '' @
     ''lets the server wire the console proxy to the board LAVA assigned; if that '' @ ''board'' @
     [CHR 0x27] @ ''s console is not a proxyable ser2net telnet the reply'' @ [CHR 0x27] @
     ''s console_note '' @
     ''says so (console unavailable '' @ dash @ '' use a board session instead). Once ready, call '' @
     ''attach_console(session_id) for a writable console.''"

definition prefetch_note :: string where
  "prefetch_note =
     ''Optional: this deploy action fetches token-guarded artifacts via LAVA '' @
     ''(applying your headers / substituting the token). Set its `namespace` to '' @
     ''match the docker test action that reads them at /lava-downloads, and adjust '' @
     ''`timeout`. To flash an artifact, put it in your deploy/boot action instead.''"

definition standalone_environment :: "config \<Rightarrow> board_session \<Rightarrow> jval" where
  "standalone_environment cfg b = obj [
     (''GATEWAY_HOST'', JStr (or_str (cf_advertise_host cfg) (cf_host cfg))),
     (''GATEWAY_WS_URL'', JStr (cf_ws_url cfg)),
     (''SESSION_ID'', JStr (session_id b)),
     (''REVERSE_PORT'', JStr (str_int (reverse_port b))),
     (''SESSION_PRIVATE_KEY_B64'', JStr (key_b64 b))]"

definition add_to_job :: "lava_ext \<Rightarrow> config \<Rightarrow> jval list \<Rightarrow> exc + jval" where
  "add_to_job X cfg downloads =
     bind_res (if downloads = [] then Inr []
               else bind_res (build_downloads_action downloads None 10) (\<lambda>a.
                 Inr [(''step_0_downloads_action'', JStr (ex_dump X (JList [a]))),
                      (''step_0_note'', JStr prefetch_note)])) (\<lambda>step_0.
     Inr (obj ([
       (''note'', JStr add_note),
       (''step_1_services_action'', JStr (build_console_services_action (cf_repo cfg) 70)),
       (''step_1_note'', JStr services_note),
       (''step_2_environment'', JStr env_note),
       (''step_3_console_ready_action'', JStr (build_console_ready_action console_sentinel 60 ''boot'')),
       (''step_3_note'', JStr ready_note),
       (''then'', JStr then_note)] @ step_0)))"

definition open_console_session :: "lava_ext \<Rightarrow> config \<Rightarrow> call \<Rightarrow> string option \<Rightarrow> jval list \<Rightarrow> jval tool" where
  "open_console_session X cfg k device_type downloads =
     bind_act (require_user X cfg k (cf_http_users cfg)) (\<lambda>user.
     if cf_ws_url cfg = [] then ret (error_result ws_not_configured)
     else bind_act (start_gateway k 0) (\<lambda>_.
     bind_act (make_sess (k_draw k) device_type ''console'' user) (\<lambda>r.
     bind_act (the_sess r) (\<lambda>b.
     bind_act (lift_res (add_to_job X cfg downloads)) (\<lambda>to_add.
       ret (obj [(''session_id'', JStr (session_id b)), (''reverse_port'', JInt (reverse_port b)),
         (''job_environment'', standalone_environment cfg b), (''add_to_job'', to_add)]))))))"

section \<open>Whether a console is writable\<close>

definition not_writable_note :: string where
  "not_writable_note =
     ''not writable yet; poll again. Stop if job_state is Finished/Canceling (the '' @
     ''board never echoed the sentinel).''"

definition console_wiring :: "console_state \<Rightarrow> (string \<times> jval) list" where
  "console_wiring res = (case res of
      Unsupported cmd host \<Rightarrow> [(''console_note'', JStr (unproxyable_console_note cmd host)), (''console_proxyable'', JBool False)]
    | Found h p \<Rightarrow> [(''console_note'', JStr (''console proxy wired to '' @ h @ '':'' @ p)), (''console_proxyable'', JBool True)]
    | Pending \<Rightarrow> [])"

text \<open>The session's job is set where it is still none.\<close>

definition adopt_job :: "jval \<Rightarrow> board_session \<Rightarrow> board_session" where
  "adopt_job j b = (if s_job_id b = JNull then b\<lparr>s_job_id := j\<rparr> else b)"

definition check_console_ready :: "lava_ext \<Rightarrow> config \<Rightarrow> call \<Rightarrow> int \<Rightarrow> string \<Rightarrow> string option \<Rightarrow> jval tool" where
  "check_console_ready X cfg k job_id sentinel sid =
     bind_act (tool_client cfg k) (\<lambda>c.
     bind_act (on_http (get_job_logs X c (JInt job_id) None None)) (\<lambda>logs.
     bind_act (on_http (get_job X c (JInt job_id))) (\<lambda>job.
     bind_act (lift_res (if is_dict job then py_get job ''state'' JNull else Inr JNull)) (\<lambda>state.
     bind_act (lift_res (if is_dict job then py_get job ''health'' JNull else Inr JNull)) (\<lambda>health.
     (let ready = console_ready_in_logs logs sentinel;
          view = [(''job_id'', JInt job_id), (''ready'', JBool ready), (''sentinel'', JStr sentinel),
            (''job_state'', state), (''job_health'', health),
            (''note'', JStr (if ready then ''console is writable '' @ dash @ '' call attach_console for a live console''
              else not_writable_note))] in
     bind_act (case nonempty sid of None \<Rightarrow> ret None | Some i \<Rightarrow> find_sess i) (\<lambda>f. case f of
       None \<Rightarrow> ret (obj view)
     | Some r \<Rightarrow> bind_act (the_sess r) (\<lambda>b.
         if s_kind b \<noteq> ''console'' then ret (obj view)
         else bind_act (start_gateway k 0) (\<lambda>_.
              bind_act (on_sess r (adopt_job (JInt job_id))) (\<lambda>_.
              bind_act (ensure_console_target X k 1 c r (JInt job_id)) (\<lambda>res.
              ret (obj (view @ console_wiring res)))))))))))))"

section \<open>Attaching to a console and closing it\<close>

definition console_key_note :: "string \<Rightarrow> string" where
  "console_key_note key_file =
     ''Save private_key to '' @ key_file @ '' and `chmod 600 '' @ key_file @
     ''` '' @ dash @ '' ssh REFUSES a key file with looser permissions. Requires `websocat` on '' @
     ''your PATH. Your source IP must be inside LAVA_MCP_GATEWAY_ALLOW_IPS if set.''"

definition raw_console :: "string \<Rightarrow> string \<Rightarrow> string" where
  "raw_console key_file ssh =
     ''# save private_key to '' @ key_file @ '' (chmod 600), then for a raw console:'' @
     [CHR 0x0A] @ ''socat -,raw,echo=0,escape=0x1d '' @ [CHR 0x27] @ ''EXEC:'' @ ssh @ '',pty'' @
     [CHR 0x27]"

definition attach_console :: "lava_ext \<Rightarrow> config \<Rightarrow> call \<Rightarrow> string \<Rightarrow> int option \<Rightarrow> jval tool" where
  "attach_console X cfg k i job_id =
     bind_act (require_user X cfg k (cf_ssh_users cfg)) (\<lambda>user.
     if cf_ws_url cfg = [] then ret (error_result ws_not_configured)
     else bind_act (start_gateway k 0) (\<lambda>_.
     bind_act (find_sess i) (\<lambda>f. case f of
       None \<Rightarrow> ret (error_result (unknown_text i))
     | Some r \<Rightarrow>
         bind_act (the_sess r) (\<lambda>b.
         bind_act (lift_res (require_owner b user)) (\<lambda>_.
         if s_kind b \<noteq> ''console'' then ret (error_result (''session '' @ i @ '' is not a console session''))
         else bind_act (on_sess r (adopt_job (jopt JInt job_id))) (\<lambda>_.
              bind_act (tool_client cfg k) (\<lambda>c.
              bind_act (the_sess r) (\<lambda>b1.
              bind_act (ensure_console_target X k 1 c r (s_job_id b1)) (\<lambda>res. case res of
                Unsupported cmd host \<Rightarrow> ret (obj [(''session_id'', JStr i), (''console_available'', JBool False),
                  (''console_note'', JStr (unproxyable_console_note cmd host))])
              | _ \<Rightarrow>
                  bind_act (on_gw (attach_human cfg i (k_keys k) (k_now k))) (\<lambda>info.
                  (let key_file = ''lava-console-'' @ i @ ''.key'';
                       ssh = build_console_ssh_command i key_file (ha_ws_url info) (ha_port info) (ha_host info) in
                   ret (obj [(''session_id'', JStr i), (''private_key'', JStr (ha_private info)),
                     (''ssh_W_command'', JStr ssh), (''raw_console'', JStr (raw_console key_file ssh)),
                     (''note'', JStr (console_key_note key_file))]))))))))))))"

definition close_console_session :: "lava_ext \<Rightarrow> config \<Rightarrow> call \<Rightarrow> string \<Rightarrow> jval tool" where
  "close_console_session X cfg k i =
     bind_act (require_user X cfg k (cf_http_users cfg)) (\<lambda>user.
     bind_act (find_sess i) (\<lambda>f. case f of
       None \<Rightarrow> ret not_closed
     | Some r \<Rightarrow>
         bind_act (the_sess r) (\<lambda>b.
         bind_act (lift_res (require_owner b user)) (\<lambda>_.
         bind_act (drop_sess i) (\<lambda>_.
         bind_act (on_sess r (\<lambda>b. (revoke_human_keys b)\<lparr>s_status := ''closed''\<rparr>)) (\<lambda>_.
         ret (obj [(''closed'', JBool True), (''session_id'', JStr i)])))))))"

end
