(* ===== verification/QueryTools.thy ===== *)
theory QueryTools
  imports SessionTools
begin

text \<open>
  The tools that pass one question or one order on to the LAVA server, the search for a job to
  start from, and the text that tells an agent which documentation there is.
\<close>

section \<open>Reading\<close>

definition with_client :: "config \<Rightarrow> call \<Rightarrow> (lava_client \<Rightarrow> 'a lava) \<Rightarrow> 'a tool" where
  "with_client cfg k f = bind_act (tool_client cfg k) (\<lambda>c. on_http (f c))"

definition text_act :: "string lava \<Rightarrow> jval lava" where
  "text_act m = bind_act m (\<lambda>t. ret (JStr t))"

definition whoami_tool :: "lava_ext \<Rightarrow> config \<Rightarrow> call \<Rightarrow> jval tool" where
  "whoami_tool X cfg k = with_client cfg k (\<lambda>c. whoami X c)"

definition version_tool :: "lava_ext \<Rightarrow> config \<Rightarrow> call \<Rightarrow> jval tool" where
  "version_tool X cfg k = with_client cfg k (\<lambda>c. version X c)"

definition list_tokens_tool :: "lava_ext \<Rightarrow> config \<Rightarrow> call \<Rightarrow> jval tool" where
  "list_tokens_tool X cfg k = with_client cfg k (\<lambda>c. bind_act (list_remote_tokens X c) (\<lambda>rows.
     bind_act (lift_res (token_names_only rows)) (\<lambda>ns. ret (obj [(''tokens'', JList ns)]))))"

definition list_devices_tool :: "lava_ext \<Rightarrow> config \<Rightarrow> call \<Rightarrow> string option \<Rightarrow> string option \<Rightarrow> string option \<Rightarrow> int \<Rightarrow> jval tool" where
  "list_devices_tool X cfg k dt health state limit = with_client cfg k (\<lambda>c. list_devices X c limit
     [(''device_type'', jopt JStr dt), (''health'', jopt JStr health), (''state'', jopt JStr state)])"

definition get_device_tool :: "lava_ext \<Rightarrow> config \<Rightarrow> call \<Rightarrow> string \<Rightarrow> jval tool" where
  "get_device_tool X cfg k host = with_client cfg k (\<lambda>c. get_device X c host)"

definition get_device_dictionary_tool :: "lava_ext \<Rightarrow> config \<Rightarrow> call \<Rightarrow> string \<Rightarrow> jval tool" where
  "get_device_dictionary_tool X cfg k host = with_client cfg k (\<lambda>c. text_act (get_device_dictionary X c host False))"

definition get_qdl_info_tool :: "lava_ext \<Rightarrow> config \<Rightarrow> call \<Rightarrow> string \<Rightarrow> jval tool" where
  "get_qdl_info_tool X cfg k host = with_client cfg k (\<lambda>c. get_qdl_info X c host)"

definition list_device_types_tool :: "lava_ext \<Rightarrow> config \<Rightarrow> call \<Rightarrow> int \<Rightarrow> jval tool" where
  "list_device_types_tool X cfg k limit = with_client cfg k (\<lambda>c. list_device_types X c limit [])"

definition list_workers_tool :: "lava_ext \<Rightarrow> config \<Rightarrow> call \<Rightarrow> jval tool" where
  "list_workers_tool X cfg k = with_client cfg k (\<lambda>c. list_workers X c 100)"

definition list_jobs_tool :: "lava_ext \<Rightarrow> config \<Rightarrow> call \<Rightarrow> string option \<Rightarrow> string option \<Rightarrow> string option \<Rightarrow> string option \<Rightarrow> jval \<Rightarrow> int \<Rightarrow> jval tool" where
  "list_jobs_tool X cfg k state health submitter dt md limit = with_client cfg k (\<lambda>c. list_jobs X c limit
     ([(''state'', jopt JStr state), (''health'', jopt JStr health), (''submitter'', jopt JStr submitter),
       (''requested_device_type'', jopt JStr dt)] @ metadata_filters X md))"

definition get_job_tool :: "lava_ext \<Rightarrow> config \<Rightarrow> call \<Rightarrow> int \<Rightarrow> jval tool" where
  "get_job_tool X cfg k j = with_client cfg k (\<lambda>c. get_job X c (JInt j))"

definition get_job_definition_tool :: "lava_ext \<Rightarrow> config \<Rightarrow> call \<Rightarrow> int \<Rightarrow> jval tool" where
  "get_job_definition_tool X cfg k j = with_client cfg k (\<lambda>c. get_job_definition X c (JInt j))"

definition get_job_logs_tool :: "lava_ext \<Rightarrow> config \<Rightarrow> call \<Rightarrow> int \<Rightarrow> int option \<Rightarrow> int option \<Rightarrow> jval tool" where
  "get_job_logs_tool X cfg k j lo hi = with_client cfg k (\<lambda>c. text_act (get_job_logs X c (JInt j) lo hi))"

definition get_job_results_tool :: "lava_ext \<Rightarrow> config \<Rightarrow> call \<Rightarrow> int \<Rightarrow> int \<Rightarrow> jval tool" where
  "get_job_results_tool X cfg k j limit = with_client cfg k (\<lambda>c. get_job_results X c (JInt j) limit)"

definition get_queue_tool :: "lava_ext \<Rightarrow> config \<Rightarrow> call \<Rightarrow> jval tool" where
  "get_queue_tool X cfg k = with_client cfg k (\<lambda>c. dashboard_queue X c)"

definition get_running_tool :: "lava_ext \<Rightarrow> config \<Rightarrow> call \<Rightarrow> jval tool" where
  "get_running_tool X cfg k = with_client cfg k (\<lambda>c. dashboard_running X c)"

definition get_lab_health_tool :: "lava_ext \<Rightarrow> config \<Rightarrow> call \<Rightarrow> jval tool" where
  "get_lab_health_tool X cfg k = with_client cfg k (\<lambda>c. dashboard_lab_health X c)"

definition validate_job_tool :: "lava_ext \<Rightarrow> config \<Rightarrow> call \<Rightarrow> string \<Rightarrow> jval tool" where
  "validate_job_tool X cfg k defn = with_client cfg k (\<lambda>c. validate_job X c defn)"

definition devices_resource :: "lava_ext \<Rightarrow> config \<Rightarrow> call \<Rightarrow> jval tool" where
  "devices_resource X cfg k = with_client cfg k (\<lambda>c. list_devices X c 500 [])"

definition job_definition_resource :: "lava_ext \<Rightarrow> config \<Rightarrow> call \<Rightarrow> string \<Rightarrow> jval tool" where
  "job_definition_resource X cfg k j = with_client cfg k (\<lambda>c. get_job_definition X c (JStr j))"

definition job_log_resource :: "lava_ext \<Rightarrow> config \<Rightarrow> call \<Rightarrow> string \<Rightarrow> jval tool" where
  "job_log_resource X cfg k j = with_client cfg k (\<lambda>c. text_act (get_job_logs X c (JStr j) None None))"

section \<open>Writing\<close>

definition submit_job_tool :: "lava_ext \<Rightarrow> config \<Rightarrow> call \<Rightarrow> string \<Rightarrow> jval tool" where
  "submit_job_tool X cfg k defn = with_client cfg k (\<lambda>c. submit_job X c defn)"

definition cancel_job_tool :: "lava_ext \<Rightarrow> config \<Rightarrow> call \<Rightarrow> int \<Rightarrow> jval tool" where
  "cancel_job_tool X cfg k j = with_client cfg k (\<lambda>c. cancel_job X c (JInt j))"

definition resubmit_job_tool :: "lava_ext \<Rightarrow> config \<Rightarrow> call \<Rightarrow> int \<Rightarrow> jval tool" where
  "resubmit_job_tool X cfg k j = with_client cfg k (\<lambda>c. resubmit_job X c (JInt j))"

section \<open>A job to start from\<close>

text \<open>\<^verbatim>\<open>max(urls, key=...)\<close>: the first of the best, with its score.\<close>

fun best_url :: "string \<Rightarrow> string list \<Rightarrow> string \<times> int \<Rightarrow> exc + string \<times> int" where
  "best_url target [] b = Inr b"
| "best_url target (u # us) b =
     bind_res (url_match_score target u) (\<lambda>n. best_url target us (if snd b < n then (u, n) else b))"

record boot_template =
  bt_job :: jval
  bt_device :: jval
  bt_url :: string
  bt_score :: int
  bt_definition :: jval

definition template_of :: "lava_ext \<Rightarrow> string \<Rightarrow> jval \<Rightarrow> jval \<Rightarrow> exc + boot_template option" where
  "template_of X target jid job =
     bind_res (definition_of job) (\<lambda>defn.
     bind_res (deploy_urls X defn) (\<lambda>urls. case urls of
       [] \<Rightarrow> Inr None
     | u # us \<Rightarrow>
         bind_res (url_match_score target u) (\<lambda>n.
         bind_res (best_url target us (u, n)) (\<lambda>(best, score).
           if score \<le> 0 then Inr None
           else bind_res (py_get job ''requested_device_type'' JNull) (\<lambda>dt.
             Inr (Some \<lparr>bt_job = jid, bt_device = dt, bt_url = best, bt_score = score, bt_definition = defn\<rparr>))))))"

fun scan_jobs :: "lava_ext \<Rightarrow> lava_client \<Rightarrow> string \<Rightarrow> jval list \<Rightarrow> (nat \<times> boot_template list) lava" where
  "scan_jobs X c target [] = ret (0, [])"
| "scan_jobs X c target (row # rows) =
     bind_act (lift_res (py_get row ''id'' JNull)) (\<lambda>jid.
       if jid = JNull then scan_jobs X c target rows
       else bind_act (try_act (bind_act (get_job X c jid) (\<lambda>job. ret (Some job))) (\<lambda>e. Some (ret None))) (\<lambda>r. case r of
           None \<Rightarrow> scan_jobs X c target rows
         | Some job \<Rightarrow>
             bind_act (lift_res (template_of X target jid job)) (\<lambda>t.
             bind_act (scan_jobs X c target rows) (\<lambda>(n, ts).
               ret (Suc n, (case t of None \<Rightarrow> ts | Some b \<Rightarrow> b # ts))))))"

text \<open>\<^verbatim>\<open>xs[:top]\<close>: a negative bound counts from the end.\<close>

definition py_take :: "int \<Rightarrow> 'a list \<Rightarrow> 'a list" where
  "py_take n xs = take (nat (if n < 0 then int (length xs) + n else n)) xs"

definition rank_templates :: "boot_template list \<Rightarrow> boot_template list" where
  "rank_templates ts = sort_key (\<lambda>t. - bt_score t) ts"

definition template_view :: "boot_template \<Rightarrow> jval" where
  "template_view t = obj [(''job_id'', bt_job t), (''device_type'', bt_device t), (''deploy_url'', JStr (bt_url t)),
     (''score'', JInt (bt_score t)), (''definition'', bt_definition t)]"

definition template_note :: string where
  "template_note =
     ''Use the top match'' @ [CHR 0x27] @ ''s `definition` as your deploy+boot base: swap in '' @
     ''artifact_url, KEEP its Authorization/artifact auth, then add the console '' @
     ''proxy (see open_console_session). If matches is empty or scores are low, '' @
     ''raise limit or drop device_type.''"

definition find_templates :: "lava_ext \<Rightarrow> lava_client \<Rightarrow> string \<Rightarrow> string option \<Rightarrow> int \<Rightarrow>
    (nat \<times> boot_template list) lava" where
  "find_templates X c target dt limit =
     bind_act (list_jobs X c limit ([(''health'', JStr ''Complete''), (''ordering'', JStr ''-id'')] @
       (case nonempty dt of None \<Rightarrow> [] | Some t \<Rightarrow> [(''device_type'', JStr t)]))) (\<lambda>page.
     bind_act (lift_res (bind_res (py_get page ''results'' (JList [])) (\<lambda>rs. py_iter (py_or rs (JList []))))) (\<lambda>rows.
     bind_act (scan_jobs X c target rows) (\<lambda>(scanned, ts). ret (scanned, rank_templates ts))))"

definition find_boot_template :: "lava_ext \<Rightarrow> config \<Rightarrow> call \<Rightarrow> string \<Rightarrow> string option \<Rightarrow> int \<Rightarrow> int \<Rightarrow> jval tool" where
  "find_boot_template X cfg k target dt limit best_n = with_client cfg k (\<lambda>c.
     bind_act (find_templates X c target dt limit) (\<lambda>(scanned, ts).
       ret (obj [(''artifact_url'', JStr target), (''jobs_scanned'', JInt (int scanned)),
         (''matches'', JList (map template_view (py_take best_n ts))), (''note'', JStr template_note)])))"

section \<open>What there is to read\<close>

definition docs_paragraph :: string where
  "docs_paragraph =
     ''DOCUMENTATION IS AVAILABLE '' @ dash @ '' the read_lava_docs tool serves LAVA'' @ [CHR 0x27] @
     ''s docs (and '' @ ''source) from a local mirror of the deployed build, so you can confirm '' @
     ''behaviour rather than guess it. Read SELECTIVELY, not wholesale: the '' @
     ''technical reference has dozens of pages (one per boot method, one per deploy '' @
     ''method, one per service), and reading them all wastes your context. Instead: '' @
     ''if unfamiliar with LAVA, read the few core pages that explain the model '' @
     ''(read_lava_docs('' @ [CHR 0x27] @ ''doc/content/technical-references/architecture.md'' @
     [CHR 0x27] @ ''), then '' @
     ''job-definition/job.md and results.md); then, before a job that deploys, LIST '' @
     ''the section (read_lava_docs('' @ [CHR 0x27] @ ''doc/content/technical-references/'' @
     [CHR 0x27] @ '')) and read '' @
     ''ONLY the page(s) for the specific deploy/boot method(s) your job uses (e.g. '' @
     ''deploy/to-fastboot.md, boot/method-u-boot.md). Do not guess at a method'' @ [CHR 0x27] @
     ''s '' @ ''parameters when its page is one read away. (If read_lava_docs says the mirror '' @
     ''is not ready, the server is still starting or the LAVA API is unreachable '' @ dash @ '' '' @
     ''retry shortly.)''"

definition source_paragraph :: "string \<Rightarrow> string \<Rightarrow> string" where
  "source_paragraph repo at_ref =
     ''You can also READ THE DEPLOYED LAVA SOURCE with the same read_lava_docs tool '' @
     ''-- it mirrors the exact build behind this instance ('' @ repo @ '' at ref '' @ at_ref @
     ''), so when the docs don'' @ [CHR 0x27] @
     ''t settle a question you can check the code itself '' @ ''(e.g. read_lava_docs('' @
     [CHR 0x27] @ ''lava_dispatcher/actions/deploy/'' @ [CHR 0x27] @ ''), or a specific '' @
     ''module) and be certain it matches what is running. Source is even larger than '' @
     ''the docs, so reading it also consumes your context '' @ dash @ '' reach for it only when '' @
     ''the docs don'' @ [CHR 0x27] @
     ''t answer, and read the specific module in question, not whole '' @
     ''directories. Docs and source are served only once the mirror has checked out; '' @
     ''if read_lava_docs reports it is not ready, retry shortly.''"

definition docs_preamble :: "config \<Rightarrow> string" where
  "docs_preamble cfg =
     (if cf_source_repo cfg = [] then []
      else (let at_ref = (if cf_source_ref cfg \<noteq> [] then cf_source_ref cfg else ''the deployed version'');
                gap = [CHR 0x0A, CHR 0x0A] in
        docs_paragraph @ gap @ source_paragraph (cf_source_repo cfg) at_ref @ gap))"

end
