(* ===== verification/Server.thy ===== *)
theory Server
  imports ConsoleTools ArtifactTools QueryTools
begin

text \<open>
  \<^verbatim>\<open>build_server\<close>: which tools there are, which of them a configuration offers, and the
  handler each call runs.
\<close>

section \<open>The calls\<close>

datatype query =
    QWhoami
  | QVersion
  | QTokens
  | QDevices "string option" "string option" "string option" int
  | QDevice string
  | QDictionary string
  | QQdl string
  | QTypes int
  | QWorkers
  | QJobs "string option" "string option" "string option" "string option" jval int
  | QJob int
  | QDefinition int
  | QTemplate string "string option" int int
  | QLogs int "int option" "int option"
  | QResults int int
  | QQueue
  | QRunning
  | QHealth
  | QValidate string
  | RDevices
  | RDefinition string
  | RLog string

datatype order = Submit string | Cancel int | Resubmit int

datatype session_call =
    OpenBoard open_args
  | RunIn string string int
  | DeviceCommand string string
  | CloseBoard string
  | ListBoards
  | AttachShell string
  | Support string
  | OpenConsole "string option" "jval list"
  | ConsoleReady int string "string option"
  | AttachConsole string "int option"
  | CloseConsole string

datatype artifact_call =
    CreateUpload string int "rat option" "int option"
  | DeleteArtifact string
  | ListArtifacts

datatype tool_call =
    Query query
  | Docs string
  | Order order
  | Session session_call
  | Artifact artifact_call

section \<open>What is offered\<close>

text \<open>The second argument says whether there is an artifact store.\<close>

fun offered :: "config \<Rightarrow> bool \<Rightarrow> tool_call \<Rightarrow> bool" where
  "offered cfg store (Query q) = True"
| "offered cfg store (Docs p) = (cf_source_repo cfg \<noteq> [])"
| "offered cfg store (Order j) = (\<not> cf_read_only cfg)"
| "offered cfg store (Session c) = (cf_gateway_enabled cfg \<and> \<not> cf_read_only cfg)"
| "offered cfg store (Artifact ListArtifacts) = store"
| "offered cfg store (Artifact c) = (store \<and> \<not> cf_read_only cfg)"

section \<open>The handlers\<close>

fun run_query :: "lava_ext \<Rightarrow> config \<Rightarrow> call \<Rightarrow> query \<Rightarrow> jval tool" where
  "run_query X cfg k QWhoami = whoami_tool X cfg k"
| "run_query X cfg k QVersion = version_tool X cfg k"
| "run_query X cfg k QTokens = list_tokens_tool X cfg k"
| "run_query X cfg k (QDevices dt h s n) = list_devices_tool X cfg k dt h s n"
| "run_query X cfg k (QDevice d) = get_device_tool X cfg k d"
| "run_query X cfg k (QDictionary d) = get_device_dictionary_tool X cfg k d"
| "run_query X cfg k (QQdl d) = get_qdl_info_tool X cfg k d"
| "run_query X cfg k (QTypes n) = list_device_types_tool X cfg k n"
| "run_query X cfg k QWorkers = list_workers_tool X cfg k"
| "run_query X cfg k (QJobs s h u dt md n) = list_jobs_tool X cfg k s h u dt md n"
| "run_query X cfg k (QJob j) = get_job_tool X cfg k j"
| "run_query X cfg k (QDefinition j) = get_job_definition_tool X cfg k j"
| "run_query X cfg k (QTemplate u dt n m) = find_boot_template X cfg k u dt n m"
| "run_query X cfg k (QLogs j lo hi) = get_job_logs_tool X cfg k j lo hi"
| "run_query X cfg k (QResults j n) = get_job_results_tool X cfg k j n"
| "run_query X cfg k QQueue = get_queue_tool X cfg k"
| "run_query X cfg k QRunning = get_running_tool X cfg k"
| "run_query X cfg k QHealth = get_lab_health_tool X cfg k"
| "run_query X cfg k (QValidate t) = validate_job_tool X cfg k t"
| "run_query X cfg k RDevices = devices_resource X cfg k"
| "run_query X cfg k (RDefinition j) = job_definition_resource X cfg k j"
| "run_query X cfg k (RLog j) = job_log_resource X cfg k j"

fun run_order :: "lava_ext \<Rightarrow> config \<Rightarrow> call \<Rightarrow> order \<Rightarrow> jval tool" where
  "run_order X cfg k (Submit t) = submit_job_tool X cfg k t"
| "run_order X cfg k (Cancel j) = cancel_job_tool X cfg k j"
| "run_order X cfg k (Resubmit j) = resubmit_job_tool X cfg k j"

fun run_session :: "lava_ext \<Rightarrow> config \<Rightarrow> call \<Rightarrow> session_call \<Rightarrow> jval tool" where
  "run_session X cfg k (OpenBoard a) = open_board_session X cfg k a"
| "run_session X cfg k (RunIn i c t) = run_in_session X cfg k i c t"
| "run_session X cfg k (DeviceCommand i n) = run_device_command X cfg k i n"
| "run_session X cfg k (CloseBoard i) = close_board_session X cfg k i"
| "run_session X cfg k ListBoards = list_board_sessions X cfg k"
| "run_session X cfg k (AttachShell i) = attach_shell X cfg k i"
| "run_session X cfg k (Support h) = check_serial_console_support X cfg k h"
| "run_session X cfg k (OpenConsole dt ds) = open_console_session X cfg k dt ds"
| "run_session X cfg k (ConsoleReady j s i) = check_console_ready X cfg k j s i"
| "run_session X cfg k (AttachConsole i j) = attach_console X cfg k i j"
| "run_session X cfg k (CloseConsole i) = close_console_session X cfg k i"

fun run_artifact :: "lava_ext \<Rightarrow> config \<Rightarrow> store_cfg \<Rightarrow> call \<Rightarrow> art_draw \<Rightarrow> artifact_call \<Rightarrow> jval tool" where
  "run_artifact X cfg sc k d (CreateUpload f n ttl j) = create_artifact_upload X cfg sc k d f n ttl j"
| "run_artifact X cfg sc k d (DeleteArtifact i) = delete_artifact X cfg k i"
| "run_artifact X cfg sc k d ListArtifacts = list_artifacts X cfg k"

text \<open>
  What a call may read: the store's settings, the files of the checkout as they are, and the
  mirror's state; what it draws is \<open>k\<close> and \<open>d\<close>.
\<close>

record site =
  st_store :: store_cfg
  st_files :: fsys
  st_cwd :: "string list"
  st_mirror :: mirror

fun run_tool :: "lava_ext \<Rightarrow> config \<Rightarrow> site \<Rightarrow> call \<Rightarrow> art_draw \<Rightarrow> tool_call \<Rightarrow> jval tool" where
  "run_tool X cfg st k d (Query q) = run_query X cfg k q"
| "run_tool X cfg st k d (Docs p) = lift_res (read_lava_docs (st_files st) (st_cwd st) (st_mirror st) p)"
| "run_tool X cfg st k d (Order j) = run_order X cfg k j"
| "run_tool X cfg st k d (Session c) = run_session X cfg k c"
| "run_tool X cfg st k d (Artifact c) = run_artifact X cfg (st_store st) k d c"

end
