(* ===== verification/SessionLaw.thy ===== *)
theory SessionLaw
  imports Server
begin

text \<open>
  What every handler keeps. The interface is a property of the server's state that requests,
  what others do while a call waits, and the few ways in which the tools change a session all
  keep; a computation built from those then keeps it too.
\<close>

section \<open>The ways a tool changes a session\<close>

text \<open>Who a session is and who may use it; the job, the console and the human keys may change.\<close>

definition same_session :: "board_session \<Rightarrow> board_session \<Rightarrow> bool" where
  "same_session b c \<longleftrightarrow>
     session_id c = session_id b \<and> private_key c = private_key b \<and> public_key c = public_key b \<and>
     reverse_port c = reverse_port b \<and> s_kind c = s_kind b \<and> container_user c = container_user b \<and>
     s_device_type c = s_device_type b \<and> s_owner c = s_owner b \<and> s_created c = s_created b"

definition session_edit :: "board_session \<Rightarrow> board_session \<Rightarrow> bool" where
  "session_edit b c \<longleftrightarrow> same_session b c \<and> tunnel_up c = tunnel_up b \<and> s_status c \<in> {s_status b, ''closed''}"

lemma session_edit_intros [simp]:
  "session_edit b (b\<lparr>s_job_id := j\<rparr>)" "session_edit b (adopt_job j b)"
  "session_edit b (b\<lparr>console_target := t\<rparr>)" "session_edit b (b\<lparr>console_session_id := x\<rparr>)"
  "session_edit b (revoke_human_keys b)" "session_edit b (b\<lparr>s_status := ''closed''\<rparr>)"
  "session_edit b ((revoke_human_keys b)\<lparr>s_status := ''closed''\<rparr>)"
  "session_edit b (snd (authorize_human pk ttl now b))"
  by (simp_all add: session_edit_def same_session_def adopt_job_def revoke_human_keys_def authorize_human_def Let_def)

locale world_law =
  fixes I :: "world \<Rightarrow> bool" and k :: call
  assumes http: "I w \<Longrightarrow> I (w\<lparr>w_http := l\<rparr>)"
    and net: "I w \<Longrightarrow> I (w\<lparr>w_net := n\<rparr>)"
    and waits: "I w \<Longrightarrow> I (k_yield k i w)"
    and starts: "I w \<Longrightarrow> I (w\<lparr>w_gw := (w_gw w)\<lparr>started := True\<rparr>\<rparr>)"
    and edits: "I w \<Longrightarrow> session_edit (sess_at (w_gw w) r) b \<Longrightarrow> I (w\<lparr>w_gw := set_sess r b (w_gw w)\<rparr>)"
    and makes: "I w \<Longrightarrow> kd \<in> {''container'', ''console''} \<Longrightarrow> d \<in> {k_draw k, k_console_draw k} \<Longrightarrow>
      I (w\<lparr>w_gw := snd (create_session d dt kd (Some user) (w_gw w))\<rparr>)"
    and drops: "I w \<Longrightarrow> I (w\<lparr>w_gw := snd (remove_session x (w_gw w))\<rparr>)"
begin

lemma on_http_keeps: "keeps I (on_http m)"
  by (auto simp: keeps_def on_http_def http split: prod.splits)

lemma yield_keeps: "keeps I (yield k i)"
  unfolding yield_def by (intro keeps_intros) (rule waits)

lemma start_keeps: "keeps I (start_gateway k i)"
  unfolding start_gateway_def
proof (rule keeps_bind [OF yield_keeps])
  have same: "w\<lparr>w_gw := w_gw w\<rparr> = w" for w :: world by simp
  show "keeps I (on_gw (ensure_started (k_launch k)))" for x
    by (auto simp: keeps_def on_gw_def ensure_started_def starts same split: launch.splits)
qed

lemma on_sess_keeps: "(\<And>b. session_edit b (f b)) \<Longrightarrow> keeps I (on_sess r f)"
  unfolding on_sess_def by (intro keeps_intros) (blast intro: edits)

lemma make_keeps: "kd \<in> {''container'', ''console''} \<Longrightarrow> d \<in> {k_draw k, k_console_draw k} \<Longrightarrow> keeps I (make_sess d dt kd user)"
proof -
  assume a: "kd \<in> {''container'', ''console''}" "d \<in> {k_draw k, k_console_draw k}"
  show "keeps I (make_sess d dt kd user)"
    unfolding keeps_def make_sess_def on_gw_def
    using makes [OF _ a, of _ dt user] by (simp add: case_prod_beta)
qed

lemma drop_keeps: "keeps I (drop_sess i)"
  unfolding keeps_def drop_sess_def on_gw_def
  using drops [of _ i] by (simp add: case_prod_beta)

lemma attach_keeps: "keeps I (on_gw (attach_human cfg i kp now))"
proof -
  have "I w \<Longrightarrow> get_session i (w_gw w) = Some r \<Longrightarrow>
     I (w\<lparr>w_gw := set_sess r (snd (authorize_human (snd kp) (cf_human_ttl cfg) now (sess_at (w_gw w) r))) (w_gw w)\<rparr>)" for w r
    by (rule edits) simp_all
  moreover have "w\<lparr>w_gw := w_gw w\<rparr> = w" for w :: world by simp
  ultimately show ?thesis
    by (simp add: keeps_def on_gw_def attach_human_def case_prod_beta split: option.split)
qed

lemma run_keeps: "keeps I (run_on k n i c t)"
  unfolding run_on_def
proof (intro keeps_bind keeps_intros yield_keeps)
  have same: "w\<lparr>w_gw := w_gw w\<rparr> = w" for w :: world by simp
  show "keeps I (on_gw (\<lambda>g. (gw_run (k_dial k) i c t g, g)))"
    by (simp add: keeps_def on_gw_def same)
qed

lemma push_keeps: "keeps I (push_console_target k n i h p)"
  unfolding push_console_target_def
proof (rule keeps_bind [OF yield_keeps], rule keeps_bind)
  have same: "w\<lparr>w_gw := w_gw w\<rparr> = w" for w :: world by simp
  have "I w \<Longrightarrow> I (w\<lparr>w_gw := set_sess r ((sess_at (w_gw w) r)\<lparr>console_target := Some (h, p)\<rparr>) (w_gw w)\<rparr>)" for w r
    by (rule edits) simp_all
  then show "keeps I (on_gw (set_console_target (k_delivered k) i h p))" for x
    by (auto simp: keeps_def on_gw_def set_console_target_def same Let_def split: option.splits)
  show "keeps I (case x of (ok, ws) \<Rightarrow> modify (\<lambda>w. w\<lparr>w_net := w_net w @ ws\<rparr>))" for x :: "bool \<times> net_write list"
    by (cases x) (auto intro!: keeps_intros net)
qed

lemma client_keeps: "keeps I (tool_client cfg k)"
  unfolding tool_client_def by (intro keeps_intros)

lemma user_keeps: "keeps I (require_user X cfg k allow)"
  unfolding require_user_def by (intro keeps_intros client_keeps on_http_keeps)

lemma reads_keep: "keeps I (the_sess r)" "keeps I (find_sess i)"
  unfolding the_sess_def find_sess_def by (intro keeps_intros)+

lemmas step_keeps = on_http_keeps yield_keeps start_keeps make_keeps drop_keeps attach_keeps run_keeps push_keeps
  client_keeps user_keeps reads_keep on_sess_keeps

lemma state_keeps: "(\<And>c h. r = Unsupported c h \<Longrightarrow> keeps I (f c h)) \<Longrightarrow> (\<And>h p. r = Found h p \<Longrightarrow> keeps I (g h p)) \<Longrightarrow>
   keeps I m \<Longrightarrow> keeps I (case r of Pending \<Rightarrow> m | Unsupported c h \<Rightarrow> f c h | Found h p \<Rightarrow> g h p)"
  by (cases r) simp_all

lemma pair_keeps: "(\<And>a b. keeps I (f a b)) \<Longrightarrow> keeps I (case x of (a, b) \<Rightarrow> f a b)"
  by (cases x) simp

lemma wait_keeps: "keeps I (wait_connected k n i)"
  unfolding wait_connected_def by (intro keeps_intros step_keeps)

lemma target_keeps: "keeps I (ensure_console_target X k n c r j)"
  unfolding ensure_console_target_def
  by (intro keeps_intros step_keeps state_keeps pair_keeps session_edit_intros)

lemma wire_keeps: "keeps I (wire_console X k n c r rc b)"
  unfolding wire_console_def by (intro keeps_intros step_keeps wait_keeps target_keeps)

lemma open_board_keeps: "keeps I (open_board_session X cfg k a)"
  unfolding open_board_session_def Let_def
  by (intro keeps_intros step_keeps wait_keeps wire_keeps pair_keeps session_edit_intros) simp_all

lemma run_in_keeps: "keeps I (run_in_session X cfg k i c t)"
  unfolding run_in_session_def by (intro keeps_intros step_keeps)

lemma device_command_keeps: "keeps I (run_device_command X cfg k i n)"
  unfolding run_device_command_def by (intro keeps_intros step_keeps)

lemma close_keeps: "keeps I (close_board_session X cfg k i)"
  unfolding close_board_session_def close_paired_console_def
  by (intro keeps_intros step_keeps session_edit_intros)

lemma list_keeps: "keeps I (list_board_sessions X cfg k)"
  unfolding list_board_sessions_def by (intro keeps_intros step_keeps)

lemma attach_shell_keeps: "keeps I (attach_shell X cfg k i)"
  unfolding attach_shell_def Let_def by (intro keeps_intros step_keeps)

lemma support_keeps: "keeps I (check_serial_console_support X cfg k h)"
  unfolding check_serial_console_support_def by (intro keeps_intros step_keeps)

lemma open_console_keeps: "keeps I (open_console_session X cfg k dt ds)"
  unfolding open_console_session_def by (intro keeps_intros step_keeps) simp_all

lemma ready_keeps: "keeps I (check_console_ready X cfg k j s i)"
  unfolding check_console_ready_def Let_def
  by (intro keeps_intros step_keeps target_keeps session_edit_intros)

lemma attach_console_keeps: "keeps I (attach_console X cfg k i j)"
  unfolding attach_console_def Let_def
  by (intro keeps_intros step_keeps target_keeps state_keeps session_edit_intros)

lemma close_console_keeps: "keeps I (close_console_session X cfg k i)"
  unfolding close_console_session_def by (intro keeps_intros step_keeps session_edit_intros)

lemma query_keeps: "keeps I (run_query X cfg k q)"
  by (cases q) (simp_all add: whoami_tool_def version_tool_def list_tokens_tool_def list_devices_tool_def get_device_tool_def
    get_device_dictionary_tool_def get_qdl_info_tool_def list_device_types_tool_def list_workers_tool_def list_jobs_tool_def
    get_job_tool_def get_job_definition_tool_def find_boot_template_def get_job_logs_tool_def get_job_results_tool_def
    get_queue_tool_def get_running_tool_def get_lab_health_tool_def validate_job_tool_def devices_resource_def
    job_definition_resource_def job_log_resource_def with_client_def keeps_bind step_keeps)

lemma order_keeps: "keeps I (run_order X cfg k c)"
  by (cases c) (simp_all add: submit_job_tool_def cancel_job_tool_def resubmit_job_tool_def with_client_def keeps_bind step_keeps)

lemma session_keeps: "keeps I (run_session X cfg k c)"
  by (cases c) (simp_all add: open_board_keeps run_in_keeps device_command_keeps close_keeps list_keeps attach_shell_keeps
    support_keeps open_console_keeps ready_keeps attach_console_keeps close_console_keeps)

end

section \<open>Properties of the gateway alone\<close>

locale gateway_law = world_law +
  assumes stores: "I w \<Longrightarrow> I (w\<lparr>w_store := s\<rparr>)"
begin

lemma on_store_keeps: "keeps I (on_store m)"
  by (simp add: keeps_def on_store_def stores case_prod_beta)

lemma sum_keeps: "(\<And>a. x = Inl a \<Longrightarrow> keeps I (f a)) \<Longrightarrow> (\<And>b. x = Inr b \<Longrightarrow> keeps I (g b)) \<Longrightarrow>
   keeps I (case x of Inl a \<Rightarrow> f a | Inr b \<Rightarrow> g b)"
  by (cases x) simp_all

lemma flush_keeps: "keeps I (flush_pending_tokens X c user)"
  unfolding flush_pending_tokens_def by (intro keeps_intros on_store_keeps step_keeps)

lemma create_keeps: "keeps I (create_artifact_upload X cfg sc k d f n ttl j)"
  unfolding create_artifact_upload_def register_token_def
  by (intro keeps_intros on_store_keeps step_keeps flush_keeps sum_keeps pair_keeps)
     (auto split: exc.splits intro!: keeps_intros)

lemma artifact_keeps: "keeps I (run_artifact X cfg sc k d c)"
  by (cases c) (auto simp: create_keeps delete_artifact_def list_artifacts_def
    intro!: keeps_intros on_store_keeps step_keeps flush_keeps)

lemma tool_keeps: "keeps I (run_tool X cfg st k d c)"
  by (cases c) (simp_all add: query_keeps order_keeps session_keeps artifact_keeps keeps_basic)

end

end
