(* ===== verification/SessionProps.thy ===== *)
theory SessionProps
  imports SessionLaw
begin

text \<open>
  What the tools do to sessions: their registry stays sound and no session changes hands; a
  session of another user is out of reach; closing a session releases its board.
\<close>

section \<open>The registry\<close>

definition session_wf :: "board_session \<Rightarrow> bool" where
  "session_wf b \<longleftrightarrow> s_kind b \<in> {''container'', ''console''} \<and> s_status b \<in> {''pending'', ''connected'', ''closed''} \<and>
     s_owner b \<noteq> None \<and> prefix ''s-'' (session_id b)"

definition registry_sound :: "gw \<Rightarrow> bool" where
  "registry_sound g \<longleftrightarrow> dict_ok (reg g) \<and>
     (\<forall>i r. dict_get (reg g) i = Some r \<longrightarrow> r < length (sess g) \<and> session_id (sess_at g r) = i) \<and>
     (\<forall>r < length (sess g). session_wf (sess_at g r))"

definition still_there :: "gw \<Rightarrow> gw \<Rightarrow> bool" where
  "still_there g h \<longleftrightarrow> length (sess g) \<le> length (sess h) \<and> (\<forall>r < length (sess g). same_session (sess_at g r) (sess_at h r))"

lemma same_session_refl [simp]: "same_session b b"
  by (simp add: same_session_def)

lemma same_session_trans: "same_session a b \<Longrightarrow> same_session b c \<Longrightarrow> same_session a c"
  by (simp add: same_session_def)

lemma still_there_refl [simp]: "still_there g g"
  by (simp add: still_there_def)

lemma still_there_trans: "still_there f g \<Longrightarrow> still_there g h \<Longrightarrow> still_there f h"
  unfolding still_there_def by (meson le_trans less_le_trans same_session_trans)

lemma session_wf_edit: "session_wf b \<Longrightarrow> session_edit b c \<Longrightarrow> session_wf c"
  by (auto simp: session_wf_def session_edit_def same_session_def)

lemma sess_at_set_sess: "sess_at (set_sess r b g) q = (if q = r \<and> r < length (sess g) then b else sess_at g q)"
  by (cases "r < length (sess g)") (auto simp: sess_at_def set_sess_def nth_list_update list_update_beyond)

lemma set_sess_simps [simp]: "reg (set_sess r b g) = reg g" "length (sess (set_sess r b g)) = length (sess g)"
  "started (set_sess r b g) = started g"
  by (simp_all add: set_sess_def)

lemma still_there_set: "same_session (sess_at g r) b \<Longrightarrow> still_there g (set_sess r b g)"
  by (simp add: still_there_def sess_at_set_sess)

lemma registry_sound_set:
  "registry_sound g \<Longrightarrow> same_session (sess_at g r) b \<Longrightarrow> (session_wf (sess_at g r) \<Longrightarrow> session_wf b) \<Longrightarrow>
   registry_sound (set_sess r b g)"
  unfolding registry_sound_def by (auto simp: sess_at_set_sess same_session_def)

lemma sess_at_create: "sess_at (snd (create_session d dt kd own g)) q =
   (if q = length (sess g) then new_session (dr_private d) (dr_public d) (dr_hex d) (dr_port d) (dr_now d) dt kd own
    else if q < length (sess g) then sess_at g q else sess_at (snd (create_session d dt kd own g)) q)"
  by (auto simp: create_session_def sess_at_def Let_def nth_append)

lemma create_simps [simp]:
  "length (sess (snd (create_session d dt kd own g))) = Suc (length (sess g))"
  "reg (snd (create_session d dt kd own g)) = dict_set (''s-'' @ take 12 (dr_hex d)) (length (sess g)) (reg g)"
  by (simp_all add: create_session_def new_session_def Let_def)

lemma still_there_create: "still_there g (snd (create_session d dt kd own g))"
  by (simp add: still_there_def sess_at_create)

lemma registry_sound_create:
  assumes "registry_sound g" "kd \<in> {''container'', ''console''}"
  shows "registry_sound (snd (create_session d dt kd (Some user) g))"
proof -
  have "session_wf (new_session (dr_private d) (dr_public d) (dr_hex d) (dr_port d) (dr_now d) dt kd (Some user))"
    using assms(2) by (auto simp: session_wf_def new_session_def)
  moreover have "session_id (new_session (dr_private d) (dr_public d) (dr_hex d) (dr_port d) (dr_now d) dt kd (Some user)) =
      ''s-'' @ take 12 (dr_hex d)"
    by (simp add: new_session_def)
  ultimately show ?thesis
    using assms(1) unfolding registry_sound_def
    by (auto simp: sess_at_create less_Suc_eq split: if_splits)
qed

lemma registry_sound_drop: "registry_sound g \<Longrightarrow> registry_sound (snd (remove_session i g))"
  by (auto simp: registry_sound_def remove_session_def sess_at_def)

lemma still_there_drop: "still_there g (snd (remove_session i g))"
  by (simp add: still_there_def remove_session_def sess_at_def)

text \<open>What may happen while a call waits.\<close>

definition lawful_call :: "call \<Rightarrow> bool" where
  "lawful_call k \<longleftrightarrow> (\<forall>n w. registry_sound (w_gw w) \<longrightarrow>
     registry_sound (w_gw (k_yield k n w)) \<and> still_there (w_gw w) (w_gw (k_yield k n w)))"

definition since :: "gw \<Rightarrow> call \<Rightarrow> world \<Rightarrow> bool" where
  "since g k w \<longleftrightarrow> lawful_call k \<and> registry_sound (w_gw w) \<and> still_there g (w_gw w)"

lemma started_sound [simp]:
  "registry_sound (g\<lparr>started := b\<rparr>) = registry_sound g" "still_there f (g\<lparr>started := b\<rparr>) = still_there f g"
  by (simp_all add: registry_sound_def still_there_def sess_at_def)

interpretation registry: gateway_law "since g k" k for g k
proof unfold_locales
  fix w r b
  assume "since g k w" "session_edit (sess_at (w_gw w) r) b"
  then show "since g k (w\<lparr>w_gw := set_sess r b (w_gw w)\<rparr>)"
    unfolding since_def session_edit_def
    by (auto intro!: registry_sound_set still_there_trans [OF _ still_there_set] session_wf_edit [of "sess_at (w_gw w) r"]
        simp: session_edit_def)
next
  fix w kd d dt user
  assume "since g k w" "kd \<in> {''container'', ''console''}"
  then show "since g k (w\<lparr>w_gw := snd (create_session d dt kd (Some user) (w_gw w))\<rparr>)"
    unfolding since_def
    by (auto intro: registry_sound_create still_there_trans [OF _ still_there_create])
next
  fix w x
  assume "since g k w"
  then show "since g k (w\<lparr>w_gw := snd (remove_session x (w_gw w))\<rparr>)"
    unfolding since_def
    by (auto intro: registry_sound_drop still_there_trans [OF _ still_there_drop])
qed (auto simp: since_def lawful_call_def intro: still_there_trans)

lemma tool_since:
  "lawful_call k \<Longrightarrow> registry_sound (w_gw w) \<Longrightarrow> since (w_gw w) k (snd (run_tool X cfg st k d c w))"
  using registry.tool_keeps [of "w_gw w" k X cfg st d c] by (simp add: keeps_def since_def)

lemma forward_lawful:
  assumes "registry_sound g"
  shows "registry_sound (snd (server_requested h p c g)) \<and> still_there g (snd (server_requested h p c g))"
proof -
  have "registry_sound (set_sess r ((sess_at g r)\<lparr>s_status := ''connected'', tunnel_up := True\<rparr>) g)" for r
    using assms by (rule registry_sound_set) (auto simp: same_session_def session_wf_def)
  moreover have "still_there g (set_sess r ((sess_at g r)\<lparr>s_status := ''connected'', tunnel_up := True\<rparr>) g)" for r
    by (rule still_there_set) (simp add: same_session_def)
  ultimately show ?thesis
    using assms by (auto simp: server_requested_def split: option.splits)
qed

section \<open>A lab for the witnesses\<close>

text \<open>LAVA knows one user, Ann, and accepts whatever she sends; nothing happens while a call waits.\<close>

definition lab_ext :: lava_ext where
  "lab_ext = demo_ext\<lparr>ex_http := (\<lambda>_ q. Inr \<lparr>h_status = 200, h_text = [],
     h_json = Some (obj (if endswith (q_url q) ''whoami/'' then [(''user'', JStr ''ann'')] else []))\<rparr>)\<rparr>"

definition lab_cfg :: config where
  "lab_cfg = demo_cfg\<lparr>cf_ws_url := ''wss://gw.lab/ssh'', cf_gateway_enabled := True\<rparr>"

definition lab_call :: call where
  "lab_call = \<lparr>k_headers = Some demo_headers, k_yield = (\<lambda>n w. w), k_launch = Listening,
     k_console_draw = \<lparr>dr_private = ''P'', dr_public = ''Q'', dr_hex = ''c0'', dr_port = 7001, dr_now = 0\<rparr>,
     k_draw = \<lparr>dr_private = ''P'', dr_public = ''Q'', dr_hex = ''b0'', dr_port = 7000, dr_now = 0\<rparr>,
     k_keys = (''hp'', ''hq''), k_now = 5, k_delivered = True, k_dial = (\<lambda>r. Inl ''no'')\<rparr>"

definition lab_session :: "string \<Rightarrow> string \<Rightarrow> string \<Rightarrow> board_session" where
  "lab_session hex kd own = (new_session ''P'' ''Q'' hex 7000 0 None kd (Some own))\<lparr>s_status := ''connected'', tunnel_up := True\<rparr>"

definition lab_world :: "board_session \<Rightarrow> world" where
  "lab_world b = \<lparr>w_gw = \<lparr>sess = [b], reg = [(session_id b, 0)], started = True\<rparr>,
     w_store = empty_store, w_ups = [], w_http = [], w_net = []\<rparr>"

definition lab_client :: lava_client where
  "lab_client = make_client (lab_cfg\<lparr>cf_token := Some ''abc''\<rparr>)"

definition lab_whoami :: http_req where
  "lab_whoami = \<lparr>q_method = ''GET'', q_url = ''https://lava.lab/api/v0.3/system/whoami/'', q_params = None,
     q_json = None, q_auth = Some ''Token abc'', q_timeout = 30\<rparr>"

definition lab_site :: site where
  "lab_site = \<lparr>st_store = \<lparr>base_url = ''https://gw.lab/mcp/artifacts'', ttl_default = 60, ttl_max = 60,
     max_bytes = 100, min_free_fraction = 0\<rparr>, st_files = [], st_cwd = [], st_mirror = new_mirror [] [] None ''/tmp''\<rparr>"

definition lab_draw :: art_draw where
  "lab_draw = \<lparr>ad_disk = \<lparr>disk_total = 1000, disk_free = 900\<rparr>, ad_now0 = 0, ad_now = 1, ad_id = ''A1'', ad_token = ''tok''\<rparr>"

lemma lab_client_from: "tool_client lab_cfg lab_call w = (Inr lab_client, w)"
proof -
  have "demo_headers \<noteq> []" by (simp add: demo_headers_def)
  then show ?thesis
    by (simp add: tool_client_def lab_call_def client_from_def demo_header header_of_def nonempty_def Let_def act_apply
        lab_client_def) (simp add: lab_cfg_def demo_cfg_def default_config_def)
qed

lemma lab_base: "lc_base lab_client = ''https://lava.lab/api/v0.3/''" "lc_auth lab_client = Some ''Token abc''"
  "lc_timeout lab_client = 30"
  by code_simp+

lemma lab_whoami_url: "urljoin ''https://lava.lab/api/v0.3/'' ''system/whoami/'' = Inr ''https://lava.lab/api/v0.3/system/whoami/''"
  by code_simp

lemma lab_whoami_ends: "endswith ''https://lava.lab/api/v0.3/system/whoami/'' ''whoami/''"
  by code_simp

text \<open>A lab that knows Ann, whatever it says to other requests.\<close>

definition knows_ann :: "lava_ext \<Rightarrow> bool" where
  "knows_ann X \<longleftrightarrow> (\<forall>l q. endswith (q_url q) ''whoami/'' \<longrightarrow>
     ex_http X l q = Inr \<lparr>h_status = 200, h_text = [], h_json = Some (obj [(''user'', JStr ''ann'')])\<rparr>)"

lemma lab_user: "knows_ann X \<Longrightarrow> require_user X lab_cfg lab_call [] w = (Inr ''ann'', w\<lparr>w_http := w_http w @ [lab_whoami]\<rparr>)"
proof -
  assume "knows_ann X"
  then have "on_http (whoami X lab_client) w = (Inr (obj [(''user'', JStr ''ann'')]), w\<lparr>w_http := w_http w @ [lab_whoami]\<rparr>)"
    by (simp add: on_http_def whoami_def get_json_def request_def lab_base lab_whoami_url lab_whoami_def clean_def
        bind_act_def lift_res_def lstrip_if_def knows_ann_def lab_whoami_ends resp_json_def)
  moreover have "lava_username X (obj [(''user'', JStr ''ann'')]) = Some ''ann''"
    by (simp add: lava_username_def obj_def item_of_def List.map_filter_def py_str_def)
  ultimately show ?thesis
    by (simp add: require_user_def bind_act_def lab_client_from enforce_user_allowlist_def lift_res_def ret_def opt_str_def)
qed

lemma lab_knows: "knows_ann lab_ext"
  by (simp add: knows_ann_def lab_ext_def)

lemma lab_fields [simp]: "cf_http_users lab_cfg = []" "cf_ssh_users lab_cfg = []" "cf_ws_url lab_cfg \<noteq> []"
  "k_yield lab_call n w = w" "k_launch lab_call = Listening" "k_delivered lab_call"
  by (simp_all add: lab_cfg_def demo_cfg_def default_config_def lab_call_def)

lemma lab_start: "started (w_gw w) \<Longrightarrow> start_gateway lab_call n w = (Inr (), w)"
  by (simp add: start_gateway_def yield_def on_gw_def ensure_started_def)

lemma lab_sound: "session_wf b \<Longrightarrow> registry_sound (w_gw (lab_world b))"
  by (simp add: lab_world_def registry_sound_def dict_ok_def sess_at_def)

lemma lab_session_wf: "kd \<in> {''container'', ''console''} \<Longrightarrow> session_wf (lab_session hex kd own)"
  by (auto simp: lab_session_def new_session_def session_wf_def)

lemma lab_world_simps [simp]:
  "get_session i (w_gw (lab_world b)) = (if i = session_id b then Some 0 else None)"
  "sess_at (w_gw (lab_world b)) 0 = b" "started (w_gw (lab_world b))"
  by (simp_all add: lab_world_def get_session_def sess_at_def)

lemma lab_lawful: "lawful_call lab_call"
  by (simp add: lawful_call_def)

text \<open>The registry of sessions is well-typed and no session changes hands. Whatever tool is
  called, with whatever arguments, answers of LAVA and outcomes of commands, and whatever lawful
  happens each time the call waits (another call of a tool, a reverse forward that is granted):
  afterwards every identifier is registered once and names an existing session that bears it;
  every session is a container or a console, is pending, connected or closed, and has an owner;
  and every session that was there still has its identifier, keys, port, kind and owner.\<close>

theorem sessions_well_typed:
  assumes "registry_sound (w_gw w)" "lawful_call k"
  shows "registry_sound (w_gw (snd (run_tool X cfg st k d c w))) \<and>
         still_there (w_gw w) (w_gw (snd (run_tool X cfg st k d c w))) \<and>
         registry_sound (snd (server_requested h p conn (w_gw w))) \<and>
         still_there (w_gw w) (snd (server_requested h p conn (w_gw w)))"
  using tool_since [OF assms(2,1), of X cfg st d c] forward_lawful [OF assms(1), of h p conn]
  by (simp add: since_def)

lemma sessions_well_typed_witness:
  "let w = lab_world (lab_session ''b0'' ''container'' ''ann'');
       v = snd (run_tool lab_ext lab_cfg lab_site lab_call lab_draw (Session (OpenConsole None [])) w)
   in registry_sound (w_gw w) \<and> registry_sound (w_gw v) \<and> still_there (w_gw w) (w_gw v)"
  using sessions_well_typed [OF lab_sound [OF lab_session_wf, of "''container''" "''b0''" "''ann''"] lab_lawful, where X = lab_ext
      and cfg = lab_cfg and st = lab_site and d = lab_draw and c = "Session (OpenConsole None [])"] lab_sound [OF lab_session_wf, of "''container''" "''b0''" "''ann''"]
  by (simp add: Let_def)

section \<open>Closing a board session\<close>

definition idle :: "call \<Rightarrow> bool" where
  "idle k \<longleftrightarrow> (\<forall>n w. k_yield k n w = w)"

lemma idle_start: "idle k \<Longrightarrow> started (w_gw w) \<Longrightarrow> start_gateway k n w = (Inr (), w)"
  by (simp add: start_gateway_def yield_def on_gw_def ensure_started_def idle_def)

lemma session_runs [simp]:
  "the_sess r w = (Inr (sess_at (w_gw w) r), w)" "find_sess i w = (Inr (get_session i (w_gw w)), w)"
  "on_sess r e w = (Inr (), w\<lparr>w_gw := set_sess r (e (sess_at (w_gw w) r)) (w_gw w)\<rparr>)"
  "drop_sess i w = (Inr (get_session i (w_gw w)), w\<lparr>w_gw := snd (remove_session i (w_gw w))\<rparr>)"
  by (simp_all add: the_sess_def find_sess_def on_sess_def drop_sess_def on_gw_def gets_def modify_def
      remove_session_def get_session_def)

lemma get_session_simps [simp]:
  "get_session i (set_sess r b g) = get_session i g"
  "get_session i (snd (remove_session j g)) = (if i = j then None else get_session i g)"
  "sess_at (snd (remove_session j g)) = sess_at g" "sess (snd (remove_session j g)) = sess g"
  "started (snd (remove_session j g)) = started g"
  by (auto simp: get_session_def remove_session_def sess_at_def)

text \<open>Closing the console that belongs to a board session: the world it leaves.\<close>

definition console_closed :: "string option \<Rightarrow> gw \<Rightarrow> gw" where
  "console_closed con g = (case nonempty con of
      None \<Rightarrow> g
    | Some ci \<Rightarrow> (case get_session ci g of
        None \<Rightarrow> snd (remove_session ci g)
      | Some rc \<Rightarrow> set_sess rc ((revoke_human_keys (sess_at g rc))\<lparr>s_status := ''closed''\<rparr>) (snd (remove_session ci g))))"

lemma close_paired: "close_paired_console con w = (Inr (), w\<lparr>w_gw := console_closed con (w_gw w)\<rparr>)"
  by (cases "nonempty con")
     (auto simp: close_paired_console_def console_closed_def ret_def bind_act_at split: option.splits)

lemma sess_at_drop [simp]: "sess_at (snd (remove_session j g)) r = sess_at g r"
  by simp

text \<open>Closing by somebody who may, without anything in between.\<close>

definition after_drop :: "string \<Rightarrow> nat \<Rightarrow> gw \<Rightarrow> gw" where
  "after_drop i r g = (let b = revoke_human_keys (sess_at g r) in
     console_closed (console_session_id b) (set_sess r b (snd (remove_session i g))))"

lemma close_run:
  assumes user: "require_user X cfg k (cf_http_users cfg) w = (Inr u, w1)"
    and s: "get_session i (w_gw w1) = Some r" "s_owner (sess_at (w_gw w1) r) \<in> {None, Some u}"
      "started (w_gw w1)" "idle k" "r < length (sess (w_gw w1))"
    and c: "client_from cfg (k_headers k) = Inr c" and j: "truthy (s_job_id (sess_at (w_gw w1) r))"
    and ans: "cancel_job X c (s_job_id (sess_at (w_gw w1) r)) (w_http w1) = (ans, l)"
  shows "close_board_session X cfg k i w = (let b = sess_at (w_gw w1) r; g = after_drop i r (w_gw w1); v = w1\<lparr>w_gw := g, w_http := l\<rparr> in
    case ans of
      Inl e \<Rightarrow> (Inl e, v)
    | Inr a \<Rightarrow> (Inr (obj [(''closed'', JBool True), (''job_id'', s_job_id b), (''cancel'', a),
          (''console_session_closed'', jopt JStr (console_session_id b))]),
        v\<lparr>w_gw := set_sess r ((sess_at g r)\<lparr>s_status := ''closed''\<rparr>) g\<rparr>))"
proof -
  have own: "require_owner (sess_at (w_gw w1) r) u = Inr ()"
    using s(2) by (auto simp: require_owner_def)
  have b: "sess_at (set_sess r x (snd (remove_session i (w_gw w1)))) r = x" for x
    using s(5) by (simp add: sess_at_set_sess)
  have start: "start_gateway k 0 w1 = (Inr (), w1)" using s(3,4) by (rule idle_start [rotated])
  have run: "on_http (cancel_job X c (s_job_id (sess_at (w_gw w1) r))) (w1\<lparr>w_gw := g\<rparr>) = (ans, w1\<lparr>w_gw := g, w_http := l\<rparr>)" for g
    by (simp add: on_http_def ans)
  show ?thesis
    unfolding close_board_session_def
    by (cases ans)
       (simp_all add: bind_act_at user start s(1) own b close_paired j c tool_client_def lift_res_def ret_def Let_def
          revoke_human_keys_def after_drop_def run)
qed

lemma only_http: "keeps (\<lambda>v. w_gw v = g \<and> w_store v = s \<and> w_net v = n) (on_http m)"
  by (simp add: keeps_def on_http_def case_prod_beta)

lemma user_frame:
  assumes "require_user X cfg k al w = (x, w1)"
  shows "w_gw w1 = w_gw w" "w_store w1 = w_store w" "w_net w1 = w_net w"
proof -
  have "keeps (\<lambda>v. w_gw v = w_gw w \<and> w_store v = w_store w \<and> w_net v = w_net w) (require_user X cfg k al)"
    unfolding require_user_def tool_client_def by (intro keeps_intros only_http)
  from keepsD [OF this _ assms] show "w_gw w1 = w_gw w" "w_store w1 = w_store w" "w_net w1 = w_net w" by simp_all
qed

lemma console_closed_get: "get_session x (console_closed con g) = (if nonempty con = Some x then None else get_session x g)"
  by (auto simp: console_closed_def split: option.splits)

lemma console_closed_other:
  assumes "registry_sound g" "r < length (sess g)" "nonempty con \<noteq> Some (session_id (sess_at g r)) \<or> get_session (session_id (sess_at g r)) g = None"
  shows "sess_at (console_closed con g) r = sess_at g r"
proof -
  have "get_session ci g \<noteq> Some r" if "nonempty con = Some ci" for ci
    using assms that unfolding registry_sound_def get_session_def by auto
  then show ?thesis
    by (auto simp: console_closed_def sess_at_set_sess split: option.splits)
qed

lemma console_closed_console:
  "nonempty con = Some ci \<Longrightarrow> get_session ci g = Some rc \<Longrightarrow> rc < length (sess g) \<Longrightarrow>
   human_keys (sess_at (console_closed con g) rc) = [] \<and> s_status (sess_at (console_closed con g) rc) = ''closed''"
  by (simp add: console_closed_def sess_at_set_sess revoke_human_keys_def)

text \<open>C37: Closing releases the board, or loses it. Somebody who may closes a session with a job,
  and nothing happens in between: the session and its console leave the registry and no human key
  of theirs opens anything any more, and LAVA is asked to cancel the job. When LAVA agrees the
  session is closed. When it does not the error is the caller's, the session is gone all the same
  though it is not closed, and closing it again, by anybody, answers that it is unknown without
  asking LAVA for anything: the job keeps the board.\<close>

theorem close_contract:
  assumes user: "require_user X cfg k (cf_http_users cfg) w = (Inr u, w1)"
    and s: "get_session i (w_gw w1) = Some r" "s_owner (sess_at (w_gw w1) r) \<in> {None, Some u}"
      "started (w_gw w1)" "idle k" "registry_sound (w_gw w1)"
    and c: "client_from cfg (k_headers k) = Inr c" and j: "truthy (s_job_id (sess_at (w_gw w1) r))"
    and ans: "cancel_job X c (s_job_id (sess_at (w_gw w1) r)) (w_http w1) = (ans, l)"
    and run: "close_board_session X cfg k i w = (res, v)"
  shows "get_session i (w_gw v) = None \<and> human_keys (sess_at (w_gw v) r) = [] \<and> w_http v = l \<and>
    (\<forall>ci rc. console_session_id (sess_at (w_gw w1) r) = Some ci \<and> ci \<notin> {[], i} \<and> get_session ci (w_gw w1) = Some rc \<longrightarrow>
       get_session ci (w_gw v) = None \<and> human_keys (sess_at (w_gw v) rc) = [] \<and> s_status (sess_at (w_gw v) rc) = ''closed'') \<and>
    (case ans of
       Inr a \<Rightarrow> (\<exists>con. res = Inr (obj [(''closed'', JBool True), (''job_id'', s_job_id (sess_at (w_gw w1) r)), (''cancel'', a), con])) \<and>
         s_status (sess_at (w_gw v) r) = ''closed''
     | Inl e \<Rightarrow> res = Inl e \<and> s_status (sess_at (w_gw v) r) = s_status (sess_at (w_gw w1) r) \<and>
         (\<forall>k2 u2 v2. require_user X cfg k2 (cf_http_users cfg) v = (Inr u2, v2) \<longrightarrow>
            close_board_session X cfg k2 i v = (Inr not_closed, v2)))"
proof -
  have r: "r < length (sess (w_gw w1))" "session_id (sess_at (w_gw w1) r) = i"
    using s(1,5) by (auto simp: registry_sound_def get_session_def)
  let ?b = "revoke_human_keys (sess_at (w_gw w1) r)" and ?con = "console_session_id (sess_at (w_gw w1) r)"
  let ?g = "set_sess r ?b (snd (remove_session i (w_gw w1)))"
  have con: "console_session_id ?b = ?con" by (simp add: revoke_human_keys_def)
  have snd_g: "registry_sound ?g"
    using s(5) r by (intro registry_sound_set registry_sound_drop)
      (auto simp: same_session_def session_wf_def revoke_human_keys_def)
  have at_g: "sess_at ?g r = ?b" "get_session i ?g = None" using r by (simp_all add: sess_at_set_sess)
  have after: "after_drop i r (w_gw w1) = console_closed ?con ?g"
    by (simp add: after_drop_def con Let_def)
  have at: "sess_at (console_closed ?con ?g) r = ?b"
    using console_closed_other [OF snd_g, of r ?con] r at_g by (simp add: revoke_human_keys_def)
  have gone: "get_session i (console_closed ?con ?g) = None" by (simp add: console_closed_get at_g)
  have len: "length (sess (console_closed ?con ?g)) = length (sess (w_gw w1))"
    by (auto simp: console_closed_def split: option.splits)
  have paired: "get_session ci (console_closed ?con ?g) = None \<and> rc \<noteq> r \<and>
      human_keys (sess_at (console_closed ?con ?g) rc) = [] \<and> s_status (sess_at (console_closed ?con ?g) rc) = ''closed''"
    if "?con = Some ci" "ci \<notin> {[], i}" "get_session ci (w_gw w1) = Some rc" for ci rc
  proof -
    have "nonempty ?con = Some ci" using that(1,2) by (simp add: nonempty_def)
    moreover have "get_session ci ?g = Some rc" using that(2,3) by simp
    moreover have "rc < length (sess ?g)" "rc \<noteq> r"
      using s(5) that(2,3) r(2) by (auto simp: registry_sound_def get_session_def)
    ultimately show ?thesis using console_closed_console [of ?con ci ?g rc] by (simp add: console_closed_get)
  qed
  have again: "close_board_session X cfg k2 i v2 = (Inr not_closed, v3)"
    if "require_user X cfg k2 (cf_http_users cfg) v2 = (Inr u2, v3)" "get_session i (w_gw v2) = None" for k2 u2 v2 v3
    using that user_frame [OF that(1)] by (simp add: close_board_session_def bind_act_at ret_def)
  note eq = close_run [OF user s(1,2,3,4) r(1) c j ans]
  show ?thesis
  proof (cases ans)
    case (Inl e)
    then have v: "v = w1\<lparr>w_gw := console_closed ?con ?g, w_http := l\<rparr>" "res = Inl e"
      using eq run by (simp_all add: after Let_def)
    then show ?thesis using Inl gone at paired again by (auto simp: revoke_human_keys_def)
  next
    case (Inr a)
    let ?h = "set_sess r (?b\<lparr>s_status := ''closed''\<rparr>) (console_closed ?con ?g)"
    have v: "v = w1\<lparr>w_gw := ?h, w_http := l\<rparr>"
      and res: "\<exists>con. res = Inr (obj [(''closed'', JBool True), (''job_id'', s_job_id (sess_at (w_gw w1) r)), (''cancel'', a), con])"
      using eq run Inr by (auto simp: after at Let_def)
    have "sess_at ?h r = ?b\<lparr>s_status := ''closed''\<rparr>" using r len by (simp add: sess_at_set_sess)
    moreover have "rc \<noteq> r \<Longrightarrow> sess_at ?h rc = sess_at (console_closed ?con ?g) rc" for rc by (simp add: sess_at_set_sess)
    ultimately show ?thesis using v res Inr gone paired by (auto simp: revoke_human_keys_def)
  qed
qed

text \<open>A lab that refuses to cancel.\<close>

definition stubborn_ext :: lava_ext where
  "stubborn_ext = lab_ext\<lparr>ex_http := (\<lambda>l q. if endswith (q_url q) ''cancel/''
     then Inr \<lparr>h_status = 403, h_text = ''no'', h_json = None\<rparr> else ex_http lab_ext l q)\<rparr>"

definition busy_session :: board_session where
  "busy_session = (lab_session ''b0'' ''container'' ''ann'')\<lparr>s_job_id := JInt 42\<rparr>"

lemma stubborn_knows: "knows_ann stubborn_ext"
proof -
  have "endswith u ''whoami/'' \<Longrightarrow> \<not> endswith u ''cancel/''" for u :: string
    using prefix_same_cases [of "rev ''whoami/''" "rev u" "rev ''cancel/''"] by (auto simp: endswith_def)
  then show ?thesis using lab_knows by (simp add: knows_ann_def stubborn_ext_def)
qed

lemma cancel_url: "urljoin ''https://lava.lab/api/v0.3/'' ''jobs/42/cancel/'' = Inr ''https://lava.lab/api/v0.3/jobs/42/cancel/''"
  by code_simp

lemma cancel_ends: "endswith ''https://lava.lab/api/v0.3/jobs/42/cancel/'' ''cancel/''"
  by code_simp

lemma job_42_path: "job_path X (JInt 42) ''cancel/'' = ''jobs/42/cancel/''"
  by (simp add: job_path_def py_str_def) code_simp

lemma cancel_refused: "\<exists>e l. cancel_job stubborn_ext lab_client (JInt 42) lg = (Inl e, l)"
  by (simp add: cancel_job_def job_42_path request_def lab_base cancel_url lstrip_if_def bind_act_def lift_res_def
      stubborn_ext_def cancel_ends Let_def)

lemma lab_client_eq: "client_from lab_cfg (k_headers lab_call) = Inr lab_client"
  using lab_client_from [of "undefined"] by (simp add: tool_client_def lift_res_def)

lemma close_contract_witness:
  "\<exists>e v. close_board_session stubborn_ext lab_cfg lab_call ''s-b0'' (lab_world busy_session) = (Inl e, v) \<and>
     get_session ''s-b0'' (w_gw v) = None \<and> s_status (sess_at (w_gw v) 0) = ''connected''"
proof -
  let ?w = "lab_world busy_session" and ?w1 = "(lab_world busy_session)\<lparr>w_http := w_http (lab_world busy_session) @ [lab_whoami]\<rparr>"
  obtain e l where "cancel_job stubborn_ext lab_client (JInt 42) (w_http ?w1) = (Inl e, l)"
    using cancel_refused [of "w_http ?w1"] by blast
  then have a: "cancel_job stubborn_ext lab_client (s_job_id (sess_at (w_gw ?w1) 0)) (w_http ?w1) = (Inl e, l)"
    by (simp add: busy_session_def)
  obtain res v where run: "close_board_session stubborn_ext lab_cfg lab_call ''s-b0'' ?w = (res, v)" by fastforce
  have b: "session_id busy_session = ''s-b0''" "s_owner busy_session = Some ''ann''" "session_wf busy_session"
      "s_status busy_session = ''connected''"
    by (simp_all add: busy_session_def lab_session_def new_session_def session_wf_def)
  have "get_session ''s-b0'' (w_gw v) = None \<and> res = Inl e \<and> s_status (sess_at (w_gw v) 0) = ''connected''"
    using close_contract [OF _ _ _ _ _ _ lab_client_eq _ a run, of "''ann''"] lab_user [OF stubborn_knows, of ?w] b
      lab_sound [OF b(3)] by (simp add: idle_def busy_session_def)
  then show ?thesis using run by blast
qed

section \<open>Sessions of other users\<close>

fun subject :: "session_call \<Rightarrow> string option" where
  "subject (RunIn i c t) = Some i"
| "subject (DeviceCommand i n) = Some i"
| "subject (CloseBoard i) = Some i"
| "subject (AttachShell i) = Some i"
| "subject (AttachConsole i j) = Some i"
| "subject (CloseConsole i) = Some i"
| "subject _ = None"

fun attaches :: "session_call \<Rightarrow> bool" where
  "attaches (AttachShell i) = True"
| "attaches (AttachConsole i j) = True"
| "attaches _ = False"

definition foreign :: "string \<Rightarrow> string \<Rightarrow> world \<Rightarrow> bool" where
  "foreign u i v \<longleftrightarrow> (\<exists>r own. get_session i (w_gw v) = Some r \<and> s_owner (sess_at (w_gw v) r) = Some own \<and> own \<noteq> u)"

lemma foreignE:
  assumes "foreign u i v"
  obtains r m where "get_session i (w_gw v) = Some r" "require_owner (sess_at (w_gw v) r) u = Inl (PermissionError m)"
  using assms by (auto simp: foreign_def require_owner_def)



text \<open>C38: Asking whether a console is writable ignores whose it is. Anybody with a token of the
  LAVA server, whoever they are and whoever owns the console, can name a console session that has
  no job yet: the call takes no notice of the owner and asks nobody who is calling, ties the
  session to a job of the caller's choice, and has its proxy connect to the console of the board
  that job runs on.\<close>

theorem readiness_check_ignores_owner:
  assumes c: "client_from cfg (k_headers k) = Inr c" and k: "idle k" "k_delivered k"
    and s: "get_session i (w_gw w) = Some r" "r < length (sess (w_gw w))" "session_id (sess_at (w_gw w) r) = i" "i \<noteq> []"
      "s_kind (sess_at (w_gw w) r) = ''console''" "s_job_id (sess_at (w_gw w) r) = JNull"
      "console_target (sess_at (w_gw w) r) = None" "s_status (sess_at (w_gw w) r) = ''connected''" "started (w_gw w)"
    and lava: "get_job_logs X c (JInt j) None None (w_http w) = (Inr logs, l1)"
      "get_job X c (JInt j) l1 = (Inr (JDict job), l2)"
      "discover_console_target X c (JInt j) l2 = (Inr (Found h p), l3)"
  shows "\<exists>view v. check_console_ready X cfg k j sentinel (Some i) w = (Inr view, v) \<and>
     sess_at (w_gw v) r = (sess_at (w_gw w) r)\<lparr>s_job_id := JInt j, console_target := Some (h, p)\<rparr> \<and>
     w_net v = w_net w @ [(reverse_port (sess_at (w_gw w) r), setport_line h p)] \<and> w_http v = l3"
proof -
  let ?b = "(sess_at (w_gw w) r)\<lparr>s_job_id := JInt j, console_target := Some (h, p)\<rparr>"
  let ?g = "set_sess r (sess_at (w_gw w) r\<lparr>s_job_id := JInt j\<rparr>) (w_gw w)"
  have y: "yield k n v = (Inr (), v)" for n v using k(1) by (simp add: yield_def idle_def act_apply)
  have start: "start_gateway k 0 v = (Inr (), v)" if "started (w_gw v)" for v
    using k(1) that by (rule idle_start)
  have field: "\<exists>x. py_get (JDict job) key JNull = Inr x" for key
    by (auto simp: py_get_def split: option.splits)
  then obtain st he where f: "py_get (JDict job) ''state'' JNull = Inr st" "py_get (JDict job) ''health'' JNull = Inr he"
    by metis
  show ?thesis
    using s k(2)
    by (simp add: check_console_ready_def bind_act_at tool_client_def c lift_res_def on_http_def lava f Let_def nonempty_def
        start adopt_job_def sess_at_set_sess ensure_console_target_def y push_console_target_def on_gw_def set_console_target_def
        modify_def ret_def)
qed

text \<open>A job on a board whose console is behind ser2net.\<close>

definition wired_ext :: lava_ext where
  "wired_ext = lab_ext\<lparr>
     ex_http := (\<lambda>l q. Inr \<lparr>h_status = 200, h_text = [], h_json = Some (obj [(''actual_device'', JStr ''b1'')])\<rparr>),
     ex_load := (\<lambda>_. Inr (obj [(''commands'', obj [(''connect'', JStr ''telnet ser2net 7095'')])]))\<rparr>"

lemma wired_urls:
  "urljoin ''https://lava.lab/api/v0.3/'' ''jobs/7/logs/'' = Inr ''https://lava.lab/api/v0.3/jobs/7/logs/''"
  "urljoin ''https://lava.lab/api/v0.3/'' ''jobs/7/'' = Inr ''https://lava.lab/api/v0.3/jobs/7/''"
  "urljoin ''https://lava.lab/api/v0.3/'' ''devices/b1/dictionary/'' = Inr ''https://lava.lab/api/v0.3/devices/b1/dictionary/''"
  by code_simp+

lemma wired_path: "job_path X (JInt 7) ''logs/'' = ''jobs/7/logs/''" "job_path X (JInt 7) [] = ''jobs/7/''"
  by (simp_all add: job_path_def py_str_def) code_simp+

lemma wired_connect: "bind_res (load_dict wired_ext []) connect_command = Inr (Some ''telnet ser2net 7095'')"
  by (simp add: load_dict_def wired_ext_def py_or_def) code_simp

lemma wired_endpoint: "ser2net_endpoint ''telnet ser2net 7095'' = Some (''ser2net'', ''7095'')"
  by code_simp

lemmas wired_defs = request_def lab_base wired_urls wired_path lstrip_if_def bind_act_at lift_res_def ret_def Let_def get_json_def resp_json_def

lemma wired_logs: "\<exists>l. get_job_logs wired_ext lab_client (JInt 7) None None lg = (Inr [], l)"
  by (simp add: get_job_logs_def wired_defs) (simp add: wired_ext_def)

lemma wired_job: "\<exists>l. get_job wired_ext lab_client (JInt 7) lg = (Inr (obj [(''actual_device'', JStr ''b1'')]), l)"
  by (simp add: get_job_def wired_defs) (simp add: wired_ext_def)

lemma wired_console: "\<exists>l. discover_console_target wired_ext lab_client (JInt 7) lg = (Inr (Found ''ser2net'' ''7095''), l)"
proof -
  obtain l where job: "get_job wired_ext lab_client (JInt 7) lg = (Inr (obj [(''actual_device'', JStr ''b1'')]), l)"
    using wired_job by blast
  have "\<exists>l2. console_connection_command wired_ext lab_client ''b1'' l = (Inr (Some ''telnet ser2net 7095''), l2)"
    by (simp add: console_connection_command_def get_device_dictionary_def wired_defs wired_connect)
       (simp add: wired_ext_def wired_connect [unfolded wired_ext_def])
  then show ?thesis
    by (auto simp: discover_console_target_def try_act_def bind_act_at job lift_res_def ret_def obj_def py_get_def item_of_def
        py_str_def wired_endpoint opt_str_def)
qed

lemma readiness_check_ignores_owner_witness:
  "let w = lab_world (lab_session ''c0'' ''console'' ''bob'') in
   \<exists>view v. check_console_ready wired_ext lab_cfg lab_call 7 [] (Some ''s-c0'') w = (Inr view, v) \<and>
     s_owner (sess_at (w_gw w) 0) = Some ''bob'' \<and> s_job_id (sess_at (w_gw v) 0) = JInt 7 \<and>
     console_target (sess_at (w_gw v) 0) = Some (''ser2net'', ''7095'')"
proof -
  let ?w = "lab_world (lab_session ''c0'' ''console'' ''bob'')"
  obtain l1 where l1: "get_job_logs wired_ext lab_client (JInt 7) None None (w_http ?w) = (Inr [], l1)"
    using wired_logs by blast
  obtain l2 where l2: "get_job wired_ext lab_client (JInt 7) l1 = (Inr (JDict [(JStr ''actual_device'', JStr ''b1'')]), l2)"
    using wired_job [of l1] by (auto simp: obj_def)
  obtain l3 where l3: "discover_console_target wired_ext lab_client (JInt 7) l2 = (Inr (Found ''ser2net'' ''7095''), l3)"
    using wired_console by blast
  have "idle lab_call" by (simp add: idle_def)
  then have "\<exists>view v. check_console_ready wired_ext lab_cfg lab_call 7 [] (Some ''s-c0'') ?w = (Inr view, v) \<and>
      sess_at (w_gw v) 0 = (sess_at (w_gw ?w) 0)\<lparr>s_job_id := JInt 7, console_target := Some (''ser2net'', ''7095'')\<rparr> \<and>
      w_net v = w_net ?w @ [(reverse_port (sess_at (w_gw ?w) 0), setport_line ''ser2net'' ''7095'')] \<and> w_http v = l3"
    by (intro readiness_check_ignores_owner [OF lab_client_eq _ _ _ _ _ _ _ _ _ _ _ l1 l2 l3])
       (simp_all add: lab_session_def new_session_def lab_world_def sess_at_def get_session_def)
  then show ?thesis by (auto simp: Let_def lab_session_def new_session_def)
qed

section \<open>Opening a board session\<close>


text \<open>A lab with a board that takes jobs.\<close>

definition open_ext :: lava_ext where
  "open_ext = lab_ext\<lparr>ex_http := (\<lambda>l q. if endswith (q_url q) ''whoami/'' then ex_http lab_ext l q
     else Inr \<lparr>h_status = 200, h_text = [],
       h_json = Some (obj [(''count'', JInt 1), (''results'', JList []), (''job_ids'', JList [JInt 42])])\<rparr>)\<rparr>"

definition open_request :: job_request where
  "open_request = \<lparr>jr_device_type = ''rpi'', jr_tags = None, jr_image = None, jr_minutes = 60, jr_downloads = [], jr_private = True\<rparr>"

lemma open_knows: "knows_ann open_ext"
  using lab_knows by (simp add: knows_ann_def open_ext_def)

lemma open_urls:
  "urljoin ''https://lava.lab/api/v0.3/'' ''devices/'' = Inr ''https://lava.lab/api/v0.3/devices/''"
  "urljoin ''https://lava.lab/api/v0.3/'' ''jobs/'' = Inr ''https://lava.lab/api/v0.3/jobs/''"
  by code_simp+

lemma open_other: "\<not> endswith ''https://lava.lab/api/v0.3/devices/'' ''whoami/''" "\<not> endswith ''https://lava.lab/api/v0.3/jobs/'' ''whoami/''"
  by code_simp+

lemma open_allows: "\<exists>l. require_remote_access_device open_ext lab_client t g lg = (Inr (), l)"
proof (cases "g = []")
  case False
  have "\<exists>l. list_devices open_ext lab_client 1 fs lg = (Inr (obj [(''count'', JInt 1), (''results'', JList [])]), l)" for fs
    by (simp add: list_devices_def list_page_def wired_defs open_urls) (simp add: open_ext_def open_other obj_def item_of_def)
  then obtain l where "list_devices open_ext lab_client 1 [(''device_type'', JStr t), (''tags__name'', JStr g)] lg =
      (Inr (obj [(''count'', JInt 1), (''results'', JList [])]), l)" by blast
  then show ?thesis using False
    by (simp add: require_remote_access_device_def bind_act_at lift_res_def py_get_def obj_def item_of_def)
qed (simp add: require_remote_access_device_def ret_def)

lemma open_submits: "\<exists>r l. submit_job open_ext lab_client y lg = (Inr r, l) \<and> first_job r = Inr (JInt 42)"
  by (simp add: submit_job_def wired_defs open_urls)
     (simp add: open_ext_def open_other obj_def first_job_def py_get_def item_of_def)


end
