(* ===== verification/ArtifactThms.thy ===== *)
theory ArtifactThms
  imports ArtifactSpec SessionProps
begin

text \<open>
  Uploads and their tokens at the LAVA server: what a reservation discloses, what becomes of a
  token whose artifact is gone; and the routes and a reservation at work on a small store.
\<close>

section \<open>Tokens whose artifact is gone\<close>

definition api_client :: "lava_client \<Rightarrow> bool" where
  "api_client c \<longleftrightarrow> (\<exists>sc n bs. lc_base c = base_addr sc n bs \<and> sc \<in> {''http'', ''https''} \<and> plain_host n \<and> list_all plain_seg bs)"

lemma delete_remote_token_run:
  assumes "api_client c" "plain_seg n"
  shows "\<exists>res. delete_remote_token X c n lg = (res, lg @ [call_request c (DeleteToken n)]) \<and>
    (res = Inr () \<or> (\<exists>m. res = Inl (LavaError m)))"
proof -
  obtain sc h bs where b: "lc_base c = base_addr sc h bs" "sc \<in> {''http'', ''https''}" "plain_host h" "list_all plain_seg bs"
    using assms(1) by (auto simp: api_client_def)
  have u: "urljoin (lc_base c) (slashed [''remote-artifact-tokens'', n]) = Inr (lc_base c @ slashed [''remote-artifact-tokens'', n])"
    using urljoin_plain [OF b(2-4), of "[''remote-artifact-tokens'', n]"] assms(2) by (simp add: b(1))
  have "lstrip_char CHR ''/'' (slashed [''remote-artifact-tokens'', n]) = slashed [''remote-artifact-tokens'', n]"
    by (rule lstrip_if_id) (simp add: slashed_def)
  then show ?thesis using u
    by (auto simp: delete_remote_token_def request_def bind_act_def lift_res_def ret_def Let_def call_request_def slashed_simps
        split: sum.splits)
qed

lemma delete_tokens_run:
  "api_client c \<Longrightarrow> list_all plain_seg ns \<Longrightarrow>
     delete_tokens X c ns lg = (Inr (), lg @ map (\<lambda>n. call_request c (DeleteToken n)) ns)"
proof (induction ns arbitrary: lg)
  case (Cons n ns)
  obtain res where r: "delete_remote_token X c n lg = (res, lg @ [call_request c (DeleteToken n)])"
      "res = Inr () \<or> (\<exists>m. res = Inl (LavaError m))"
    using delete_remote_token_run [of c n X lg] Cons.prems by auto
  then show ?case using Cons by (auto simp: bind_act_def try_act_def ret_def)
qed (simp add: ret_def)

text \<open>A token is deleted at LAVA once, or never. When a user calls, every token queued for the
  user is asked to be deleted in exactly one request, nobody else's is touched, and the queue
  keeps none of them, whatever LAVA answers: a refusal or a failing connection is neither
  reported nor tried again.\<close>

lemma failed_delete_forgotten:
  assumes c: "api_client c"
    and names: "\<And>n. (u, n) \<in> set (pending (w_store w)) \<Longrightarrow> plain_seg n"
  shows "\<exists>w1. flush_pending_tokens X c u w = (Inr (), w1) \<and>
    w_http w1 = w_http w @ map (\<lambda>(own, n). call_request c (DeleteToken n)) (filter (\<lambda>p. fst p = u) (pending (w_store w))) \<and>
    pending (w_store w1) = filter (\<lambda>p. fst p \<noteq> u) (pending (w_store w)) \<and>
    view (w_store w1) = view (w_store w) \<and> w_gw w1 = w_gw w"
proof -
  let ?ns = "map snd (filter (\<lambda>p. fst p = u) (pending (w_store w)))"
  have "list_all plain_seg ?ns" using names by (auto simp: list_all_iff)
  from delete_tokens_run [OF c this] show ?thesis
    by (simp add: flush_pending_tokens_def bind_act_def on_store_def on_http_def take_pending_eq case_prod_beta comp_def
        view_def live_def obj_at_def [abs_def] fun_eq_iff)
qed

lemma lab_api_client: "api_client lab_client"
proof -
  have "lava_url ''https'' ''lava.lab'' [] (cf_url demo_cfg)" by (rule demo_url)
  then have "lc_base (make_client demo_cfg) = base_addr ''https'' ''lava.lab'' ([] @ [''api'', cf_api_version demo_cfg])"
    by (rule make_client_base)
  moreover have "lc_base lab_client = lc_base (make_client demo_cfg)"
    by (simp add: lab_client_def make_client_def lab_cfg_def demo_cfg_def)
  moreover have "list_all plain_seg [''api'', cf_api_version demo_cfg]"
    by (simp add: demo_cfg_def default_config_def plain_seg_def plain_char_def is_alpha_def is_digit_def)
  moreover have "plain_host ''lava.lab''" using demo_url by (simp add: lava_url_def)
  ultimately show ?thesis unfolding api_client_def by fastforce
qed

definition queue_world :: world where
  "queue_world = (lab_world busy_session)\<lparr>w_store := empty_store\<lparr>pending := [(''ann'', ''t1''), (''bob'', ''t2'')]\<rparr>\<rparr>"

lemma failed_delete_forgotten_witness:
  "\<exists>w1. flush_pending_tokens stubborn_ext lab_client ''ann'' queue_world = (Inr (), w1) \<and>
     pending (w_store w1) = [(''bob'', ''t2'')] \<and> length (w_http w1) = 1"
proof -
  have "plain_seg n" if "(''ann'', n) \<in> set (pending (w_store queue_world))" for n
    using that by (auto simp: queue_world_def plain_seg_def plain_char_def is_alpha_def is_digit_def)
  then have "\<exists>w1. flush_pending_tokens stubborn_ext lab_client ''ann'' queue_world = (Inr (), w1) \<and>
      w_http w1 = w_http queue_world @ map (\<lambda>(own, n). call_request lab_client (DeleteToken n))
        (filter (\<lambda>p. fst p = ''ann'') (pending (w_store queue_world))) \<and>
      pending (w_store w1) = filter (\<lambda>p. fst p \<noteq> ''ann'') (pending (w_store queue_world)) \<and>
      view (w_store w1) = view (w_store queue_world) \<and> w_gw w1 = w_gw queue_world"
    by (rule failed_delete_forgotten [OF lab_api_client])
  then show ?thesis by (auto simp: queue_world_def lab_world_def)
qed

section \<open>Reserving\<close>

lemma add_remote_token_run:
  assumes "api_client c"
  shows "\<exists>res. add_remote_token X c n t lg = (res, lg @ [call_request c (AddToken n t)]) \<and> (res = Inr () \<or> (\<exists>m. res = Inl (LavaError m)))"
proof -
  obtain sc h bs where b: "lc_base c = base_addr sc h bs" "sc \<in> {''http'', ''https''}" "plain_host h" "list_all plain_seg bs"
    using assms by (auto simp: api_client_def)
  have u: "urljoin (lc_base c) (slashed [''remote-artifact-tokens'']) = Inr (lc_base c @ slashed [''remote-artifact-tokens''])"
    using urljoin_plain [OF b(2-4), of "[''remote-artifact-tokens'']"] by (simp add: b(1))
  have "lstrip_char CHR ''/'' (slashed [''remote-artifact-tokens'']) = slashed [''remote-artifact-tokens'']"
    by (rule lstrip_if_id) (simp add: slashed_def)
  then show ?thesis using u
    by (auto simp: add_remote_token_def request_def bind_act_def lift_res_def ret_def Let_def call_request_def slashed_simps
        split: sum.splits)
qed

lemma register_token_request:
  assumes "api_client c" "register_token X c a token w = (Inr ok_reg, w1)"
  shows "w_http w1 = w_http w @ [call_request c (AddToken (token_name_of a) token)] \<and>
    ok_reg = (fst (add_remote_token X c (token_name_of a) token (w_http w)) = Inr ())"
proof -
  obtain res where "add_remote_token X c (token_name_of a) token (w_http w) =
      (res, w_http w @ [call_request c (AddToken (token_name_of a) token)])" "res = Inr () \<or> (\<exists>m. res = Inl (LavaError m))"
    using add_remote_token_run [OF assms(1)] by blast
  then show ?thesis using assms(2)
    by (auto simp: register_token_def try_act_def bind_act_at on_http_def on_store_def modify_def ret_def)
qed



text \<open>A reservation at LAVA ends with an answer: no refusal of a token leaves the tool.\<close>

lemma flush_run:
  assumes "api_client c" "\<And>n. (u, n) \<in> set (pending (w_store w)) \<Longrightarrow> plain_seg n"
  shows "\<exists>wf. flush_pending_tokens X c u w = (Inr (), wf)"
proof -
  have "list_all plain_seg (map snd (filter (\<lambda>p. fst p = u) (pending (w_store w))))" using assms(2) by (auto simp: list_all_iff)
  from delete_tokens_run [OF assms(1) this] show ?thesis
    by (simp add: flush_pending_tokens_def bind_act_at on_store_def on_http_def take_pending_eq)
qed

lemma register_token_answers: "api_client c \<Longrightarrow> \<exists>b w1. register_token X c a token w = (Inr b, w1)"
proof -
  assume "api_client c"
  then obtain res l where "add_remote_token X c (token_name_of a) token (w_http w) = (res, l)"
      "res = Inr () \<or> (\<exists>m. res = Inl (LavaError m))"
    using add_remote_token_run by blast
  then show ?thesis by (auto simp: register_token_def try_act_def bind_act_at on_http_def on_store_def modify_def ret_def)
qed

lemma create_upload_answers:
  assumes user: "require_user X cfg k (cf_http_users cfg) w = (Inr u, w0)"
    and c: "client_from cfg (k_headers k) = Inr c" "api_client c"
    and names: "\<And>n. (u, n) \<in> set (pending (w_store w0)) \<Longrightarrow> plain_seg n"
  shows "\<exists>v w1. create_artifact_upload X cfg sc k d fname n ttl bj w = (Inr v, w1)"
proof -
  obtain wf where f: "flush_pending_tokens X c u w0 = (Inr (), wf)" using flush_run [OF c(2) names] by blast
  note ev = create_artifact_upload_def bind_act_at user tool_client_def lift_res_def c(1) f try_act_def on_store_def create_art_eq
    Let_def ret_def gets_def
  show ?thesis
  proof (cases "check_admission sc (ad_disk d) n")
    case (Inl e)
    then show ?thesis using check_admission_error [OF Inl] by (auto simp: ev)
  next
    case (Inr x)
    then show ?thesis
      by (simp add: ev split: prod.split sum.split) (metis register_token_answers [OF c(2)] Pair_inject sum.distinct(1))
  qed
qed

section \<open>At work\<close>

definition lab_store :: store_cfg where
  "lab_store = st_store lab_site"

definition lab_idle :: world where
  "lab_idle = lab_world (lab_session ''b0'' ''container'' ''ann'')"

lemma lab_store_ok: "store_ok lab_store (w_store lab_idle)" "w_store lab_idle = empty_store" "0 \<le> max_bytes lab_store"
proof -
  show "w_store lab_idle = empty_store" by (simp add: lab_idle_def lab_world_def)
  show "0 \<le> max_bytes lab_store" by (simp add: lab_store_def lab_site_def)
  from init_sys_ok [OF this] show "store_ok lab_store (w_store lab_idle)"
    by (simp add: sys_ok_def init_sys_def lab_idle_def lab_world_def)
qed

lemma lab_admits: "check_admission lab_store (ad_disk lab_draw) 3 = Inr ()"
  by (simp add: lab_store_def lab_site_def lab_draw_def check_admission_def headroom_bytes_def trunc_def Let_def)

lemma lab_reserves:
  assumes "knows_ann X"
  obtains v w1 where "create_artifact_upload X lab_cfg lab_store lab_call lab_draw ''k.img'' n None None lab_idle = (Inr v, w1)"
proof -
  let ?w0 = "lab_idle\<lparr>w_http := w_http lab_idle @ [lab_whoami]\<rparr>"
  have user: "require_user X lab_cfg lab_call (cf_http_users lab_cfg) lab_idle = (Inr ''ann'', ?w0)"
    using lab_user [OF assms, of lab_idle] by simp
  have "(''ann'', m) \<notin> set (pending (w_store ?w0))" for m by (simp add: lab_store_ok empty_store_def)
  with create_upload_answers [OF user lab_client_eq lab_api_client] that show ?thesis by blast
qed

lemma lab_ids: "ad_id lab_draw \<notin> known_ids (w_store lab_idle)"
  by (simp add: lab_store_ok known_ids_def empty_store_def)


text \<open>Three bytes go up after \<^verbatim>\<open>Bearer\<close> and come down after \<^verbatim>\<open>Token\<close>.\<close>

definition lab_put :: http_in where
  "lab_put = \<lparr>hi_method = ''PUT'', hi_id = ''A1'', hi_headers = [(''authorization'', ''Bearer tok'')],
     hi_disk = ad_disk lab_draw, hi_now = 2, hi_items = [Chunk (ad_disk lab_draw) ''abc'']\<rparr>"

definition lab_get :: http_in where
  "lab_get = lab_put\<lparr>hi_method := ''GET'', hi_headers := [(''authorization'', ''Token tok'')], hi_now := 3, hi_items := []\<rparr>"


lemma routes_refine_witness:
  "outputs (run_site lab_ext lab_cfg lab_store) [Direct (OpCreate (ad_disk lab_draw) 0 1 ''A1'' ''tok'' ''k.img'' 3 ''ann'' None None), Http lab_put, Http lab_get] lab_idle =
   outputs (abs_site_op lab_ext lab_cfg lab_store) [Direct (OpCreate (ad_disk lab_draw) 0 1 ''A1'' ''tok'' ''k.img'' 3 ''ann'' None None), Http lab_put, Http lab_get] (Map.empty, [])"
proof -
  have "valid_run site_env (\<lambda>x w. snd (run_site lab_ext lab_cfg lab_store x w))
      [Direct (OpCreate (ad_disk lab_draw) 0 1 ''A1'' ''tok'' ''k.img'' 3 ''ann'' None None), Http lab_put, Http lab_get] lab_idle"
    by (simp add: lab_store_ok known_ids_def empty_store_def)
  moreover have "w_http lab_idle = []" by (simp add: lab_idle_def lab_world_def)
  ultimately show ?thesis using routes_refine [OF lab_store_ok(3,2)] by metis
qed

end
