(* ===== verification/Routes.thy ===== *)
theory Routes
  imports ArtifactThms
begin

text \<open>
  The paths the artifact routes of \<^verbatim>\<open>lava_mcp/server.py\<close> are mounted at, beside the MCP
  endpoint, and the way from an address that is handed out back to its artifact. Matching a path
  against a route is the documented matching of Starlette: a parameter is one segment, one
  declared as a path is all the rest.
\<close>

section \<open>Paths\<close>

definition artifact_mount :: "string \<Rightarrow> string" where
  "artifact_mount mcp_path = rstrip_char CHR ''/'' mcp_path @ ''/artifacts''"

text \<open>The two routes: an identifier, or an identifier and a file name. The name is not looked at.\<close>

definition route_artifact :: "string \<Rightarrow> string \<Rightarrow> (string \<times> string option) option" where
  "route_artifact mcp_path path =
     (let base = artifact_mount mcp_path @ ''/'' in
      if \<not> startswith path base then None
      else (let r = drop (length base) path; i = before_char CHR ''/'' r in
        if i = [] then None
        else if CHR ''/'' \<in> set r then Some (i, Some (drop (Suc (length i)) r)) else Some (i, None)))"

text \<open>
  What answers a request: nothing of the program when no route matches or the method is not one
  of theirs (a route for GET takes HEAD as well).
\<close>

definition serve_artifact :: "lava_ext \<Rightarrow> config \<Rightarrow> store_cfg \<Rightarrow> string \<Rightarrow> string \<Rightarrow> http_in \<Rightarrow> reply option tool" where
  "serve_artifact X cfg sc mcp_path path h =
     (case route_artifact mcp_path path of
        Some (i, _) \<Rightarrow>
          if hi_method h \<in> {''GET'', ''HEAD'', ''PUT''}
          then bind_act (artifact_endpoint X cfg sc (h\<lparr>hi_id := i\<rparr>)) (\<lambda>r. ret (Some r))
          else ret None
      | None \<Rightarrow> ret None)"

section \<open>Home\<close>

lemma route_home:
  assumes i: "i \<noteq> []" "CHR ''/'' \<notin> set i"
  shows "route_artifact mcp_path (artifact_mount mcp_path @ ''/'' @ i @ ''/'' @ f) = Some (i, Some f)"
proof -
  have "before_char CHR ''/'' (i @ CHR ''/'' # f) = i"
    using i(2) by (induction i) (auto simp: before_char_def)
  then show ?thesis using i by (simp add: route_artifact_def Let_def)
qed

lemma safe_plain: "safe_char c = plain_char c"
  by (auto simp: safe_char_def plain_char_def)

lemma plain_path: "list_all path_char p \<Longrightarrow> list_all path_char (rstrip_char CHR ''/'' p)"
  using set_rstrip_if [of "\<lambda>x. x = CHR ''/''" p] by (auto simp: list_all_iff)

lemma mount_path:
  assumes "list_all path_char mp"
  shows "\<exists>q. artifact_mount (CHR ''/'' # mp) = CHR ''/'' # q \<and> list_all path_char q"
proof (cases "rstrip_char CHR ''/'' (CHR ''/'' # mp)")
  case Nil
  then show ?thesis by (simp add: artifact_mount_def path_char_def plain_char_def is_alpha_def)
next
  case (Cons c cs)
  have "c = CHR ''/''" using rstrip_if_hd [of "\<lambda>x. x = CHR ''/''" "CHR ''/'' # mp"] Cons by simp
  moreover have "list_all path_char (rstrip_char CHR ''/'' (CHR ''/'' # mp))"
    using assms by (intro plain_path) (simp add: path_char_def)
  ultimately show ?thesis
    using Cons by (simp add: artifact_mount_def path_char_def plain_char_def is_alpha_def)
qed


section \<open>A deployment\<close>

definition hosted_cfg :: config where
  "hosted_cfg = default_config\<lparr>cf_artifacts := True, cf_ws_url := ''wss://lava.lab/mcp/gateway-ssh''\<rparr>"

definition hosted_store :: store_cfg where
  "hosted_store = \<lparr>base_url = ''https://lava.lab/mcp/artifacts'', ttl_default = 21600, ttl_max = 21600,
     max_bytes = 6442450944, min_free_fraction = 1 / 10\<rparr>"

lemma hosted_open: "open_store hosted_cfg ''/mcp'' = Inr (Some hosted_store)"
proof -
  have "urlparse ''wss://lava.lab/mcp/gateway-ssh'' [] = Inr \<lparr>u_scheme = ''wss'', u_netloc = ''lava.lab'',
      u_path = ''/mcp/gateway-ssh'', u_params = [], u_query = [], u_fragment = []\<rparr>"
    using urlparse_addr [of "''wss''" "''lava.lab''" "''mcp/gateway-ssh''"]
    by (simp add: plain_host_def path_char_def plain_char_def is_alpha_def is_digit_def)
  then show ?thesis
    by (simp add: open_store_def artifact_base_url_def hosted_cfg_def hosted_store_def default_config_def rstrip_if_id)
qed

definition kernel_art :: artifact where
  "kernel_art = \<lparr>artifact_id = ''A1'', filename = safe_filename ''../boot/k 1.img'', a_owner = ''ann'', token_hash = [],
     size_declared = 3, created = 0, expires = 60, a_state = ''await_upload'', size_actual = None, bind_job_id = None,
     lava_token_name = None\<rparr>"


text \<open>
  With one exception: a declared name such as \<^verbatim>\<open>_..\<close> is kept as \<^verbatim>\<open>..\<close>, and who resolves dot
  segments before asking, as most clients do, asks for a path that no route has.
\<close>

lemma dot_name_lost:
  "urljoin ''https://lava.lab/'' (''/mcp/artifacts/A1/'' @ safe_filename ''_..'') = Inr ''https://lava.lab/mcp/artifacts/'' \<and>
   route_artifact ''/mcp'' ''/mcp/artifacts/'' = None"
  by code_simp

end
