(* ===== verification/QueryProps.thy ===== *)
theory QueryProps
  imports SessionProps ArtifactThms
begin

text \<open>
  What a server that is started read-only can be made to send, and what the search for a
  boot template finds.
\<close>

section \<open>Requests that change nothing\<close>

fun read_call :: "lava_call \<Rightarrow> bool" where
  "read_call (SubmitJob d) = False"
| "read_call (CancelJob j) = False"
| "read_call (ResubmitJob j) = False"
| "read_call (AddToken n t) = False"
| "read_call (DeleteToken n) = False"
| "read_call k = True"

lemma slashed_inj: "list_all plain_seg a \<Longrightarrow> list_all plain_seg b \<Longrightarrow> slashed a = slashed b \<Longrightarrow> a = b"
  by (metis append1_eq_conv plain_words split_slashed)

text \<open>With ordinary arguments no order looks like a question.\<close>

lemma orders_differ:
  assumes "read_call x" "plain_call x" "\<not> read_call y" "plain_call y"
  shows "call_request c x \<noteq> call_request c y"
proof
  assume eq: "call_request c x = call_request c y"
  have "fst (api_line x) = fst (api_line y)"
    using arg_cong [OF eq, of q_method] by (simp add: call_request_def case_prod_beta)
  moreover have "fst (snd (api_line x)) = fst (snd (api_line y))"
    using arg_cong [OF eq, of q_url] api_line_plain [OF assms(2)] api_line_plain [OF assms(4)]
    by (intro slashed_inj) (simp_all add: call_request_def case_prod_beta)
  ultimately show False using assms(1,3) by (cases y; cases x) simp_all
qed

definition question :: "lava_client \<Rightarrow> http_req \<Rightarrow> bool" where
  "question c q \<longleftrightarrow> (\<exists>x. read_call x \<and> plain_call x \<and> q = call_request c x)"

definition only_asks :: "lava_client \<Rightarrow> http_req list \<Rightarrow> http_req list \<Rightarrow> bool" where
  "only_asks c l0 l \<longleftrightarrow> (\<exists>qs. l = l0 @ qs \<and> list_all (question c) qs)"

lemma only_asks_refl [simp]: "only_asks c l l"
  by (simp add: only_asks_def)

lemma only_asks_snoc: "only_asks c l0 l \<Longrightarrow> question c q \<Longrightarrow> only_asks c l0 (l @ [q])"
proof -
  assume "only_asks c l0 l" "question c q"
  then obtain qs where "l = l0 @ qs" "list_all (question c) qs" by (auto simp: only_asks_def)
  with \<open>question c q\<close> show ?thesis unfolding only_asks_def by (intro exI [of _ "qs @ [q]"]) simp
qed

lemma call_asks:
  assumes "api_client c" "read_call x" "plain_call x"
  shows "keeps (only_asks c l0) (run_call X c x)"
proof -
  obtain sc h bs where b: "lc_base c = base_addr sc h bs" "sc \<in> {''http'', ''https''}" "plain_host h" "list_all plain_seg bs"
    using assms(1) by (auto simp: api_client_def)
  have "one_request X (call_request c x) (run_call X c x)" by (rule run_call_one [OF b assms(3)])
  moreover have "question c (call_request c x)" using assms(2,3) by (auto simp: question_def)
  ultimately show ?thesis by (auto simp: keeps_def one_request_def intro: only_asks_snoc)
qed

section \<open>The questions a tool asks\<close>

fun query_call :: "lava_ext \<Rightarrow> query \<Rightarrow> lava_call" where
  "query_call X QWhoami = Whoami"
| "query_call X QVersion = Version"
| "query_call X QTokens = ListTokens"
| "query_call X (QDevices dt h s n) = ListDevices n [(''device_type'', jopt JStr dt), (''health'', jopt JStr h), (''state'', jopt JStr s)]"
| "query_call X (QDevice d) = GetDevice d"
| "query_call X (QDictionary d) = DeviceDictionary d False"
| "query_call X (QQdl d) = QdlInfo d"
| "query_call X (QTypes n) = ListDeviceTypes n []"
| "query_call X QWorkers = ListWorkers 100"
| "query_call X (QJobs s h u dt md n) = ListJobs n ([(''state'', jopt JStr s), (''health'', jopt JStr h), (''submitter'', jopt JStr u),
     (''requested_device_type'', jopt JStr dt)] @ metadata_filters X md)"
| "query_call X (QJob j) = GetJob (JInt j)"
| "query_call X (QDefinition j) = JobDefinition (JInt j)"
| "query_call X (QTemplate u dt n m) = ListJobs n ([(''health'', JStr ''Complete''), (''ordering'', JStr ''-id'')] @
     (case nonempty dt of None \<Rightarrow> [] | Some t \<Rightarrow> [(''device_type'', JStr t)]))"
| "query_call X (QLogs j lo hi) = JobLogs (JInt j) lo hi"
| "query_call X (QResults j n) = JobResults (JInt j) n"
| "query_call X QQueue = DashQueue"
| "query_call X QRunning = DashRunning"
| "query_call X QHealth = DashHealth"
| "query_call X (QValidate t) = ValidateJob t"
| "query_call X RDevices = ListDevices 500 []"
| "query_call X (RDefinition j) = JobDefinition (JStr j)"
| "query_call X (RLog j) = JobLogs (JStr j) None None"

fun searches :: "query \<Rightarrow> bool" where
  "searches (QTemplate u dt n m) = True"
| "searches q = False"

lemma query_reads: "read_call (query_call X q)"
  by (cases q) simp_all

lemma bind_ret [simp]: "bind_act m ret = m"
  by (auto simp: bind_act_def ret_def fun_eq_iff split: prod.splits sum.splits)

lemma query_run:
  "\<not> searches q \<Longrightarrow> q \<noteq> QTokens \<Longrightarrow> run_query X cfg k q = with_client cfg k (\<lambda>c. run_call X c (query_call X q))"
  by (cases q) (simp_all add: whoami_tool_def version_tool_def list_devices_tool_def get_device_tool_def
    get_device_dictionary_tool_def get_qdl_info_tool_def list_device_types_tool_def list_workers_tool_def list_jobs_tool_def
    get_job_tool_def get_job_definition_tool_def get_job_logs_tool_def get_job_results_tool_def
    get_queue_tool_def get_running_tool_def get_lab_health_tool_def validate_job_tool_def devices_resource_def
    job_definition_resource_def job_log_resource_def text_act_def map_act_def)

text \<open>The jobs a search reads are those LAVA lists, under the names it gives them.\<close>

definition listed_jobs :: "jval \<Rightarrow> exc + jval list" where
  "listed_jobs page = bind_res (py_get page ''results'' (JList [])) (\<lambda>rs. py_iter (py_or rs (JList [])))"

definition numbers_jobs :: "lava_ext \<Rightarrow> lava_client \<Rightarrow> bool" where
  "numbers_jobs X c \<longleftrightarrow> (\<forall>n fs lg page l rows row j.
     list_jobs X c n fs lg = (Inr page, l) \<longrightarrow> listed_jobs page = Inr rows \<longrightarrow> row \<in> set rows \<longrightarrow>
     py_get row ''id'' JNull = Inr j \<longrightarrow> j = JNull \<or> plain_id j)"

lemma scan_asks:
  assumes "api_client c" "\<And>row j. row \<in> set rows \<Longrightarrow> py_get row ''id'' JNull = Inr j \<Longrightarrow> j = JNull \<or> plain_id j"
  shows "keeps (only_asks c l0) (scan_jobs X c target rows)"
  using assms(2)
proof (induction rows)
  case (Cons row rows)
  have IH: "keeps (only_asks c l0) (scan_jobs X c target rows)"
    by (rule Cons.IH) (use Cons.prems in auto)
  have job: "keeps (only_asks c l0) (get_job X c j)" if "plain_id j" for j
    using call_asks [OF assms(1), of "GetJob j" l0 X] that by simp
  show ?case
  proof (cases "py_get row ''id'' JNull")
    case (Inl e)
    then show ?thesis by (simp add: lift_res_def bind_act_def keeps_def)
  next
    case (Inr j)
    have "j = JNull \<or> plain_id j" by (rule Cons.prems [OF _ Inr]) simp
    then show ?thesis using Inr IH job
      by (auto simp: bind_act_lift intro!: keeps_intros IH job split: option.splits prod.splits)
  qed
qed (simp add: keeps_basic)


lemma search_asks:
  assumes "api_client c" "numbers_jobs X c"
  shows "keeps (only_asks c l0) (find_templates X c target dt limit)"
proof -
  let ?fs = "[(''health'', JStr ''Complete''), (''ordering'', JStr ''-id'')] @
    (case nonempty dt of None \<Rightarrow> [] | Some t \<Rightarrow> [(''device_type'', JStr t)])"
  have page: "keeps (only_asks c l0) (list_jobs X c limit ?fs)"
    using call_asks [OF assms(1), of "ListJobs limit ?fs" l0 X] by simp
  show ?thesis
    unfolding keeps_def
  proof (intro allI impI)
    fix lg assume lg: "only_asks c l0 lg"
    obtain r l where ask: "list_jobs X c limit ?fs lg = (r, l)" by fastforce
    have l: "only_asks c l0 l" using page lg ask by (auto simp: keeps_def dest: spec [of _ lg])
    show "only_asks c l0 (snd (find_templates X c target dt limit lg))"
    proof (cases r)
      case (Inl e)
      then show ?thesis using ask l by (simp add: find_templates_def bind_act_at)
    next
      case (Inr page)
      show ?thesis
      proof (cases "listed_jobs page")
        case (Inl e)
        then show ?thesis using ask l \<open>r = Inr page\<close>
          by (simp add: find_templates_def bind_act_at listed_jobs_def lift_res_def)
      next
        case rows: (Inr rows)
        have "keeps (only_asks c l0) (scan_jobs X c target rows)"
          using scan_asks [OF assms(1)] assms(2) ask Inr rows unfolding numbers_jobs_def by blast
        then have "keeps (only_asks c l0) (bind_act (scan_jobs X c target rows) (\<lambda>(scanned, ts). ret (scanned, rank_templates ts)))"
          by (intro keeps_bind) (auto intro: keeps_intros)
        then show ?thesis using ask l Inr rows
          by (simp add: find_templates_def bind_act_at listed_jobs_def lift_res_def keeps_def)
      qed
    qed
  qed
qed

lemma query_asks:
  assumes "api_client c" "plain_call (query_call X q)" "searches q \<Longrightarrow> numbers_jobs X c"
    and c: "client_from cfg (k_headers k) = Inr c"
  shows "\<exists>qs. w_http (snd (run_query X cfg k q w)) = w_http w @ qs \<and> list_all (question c) qs"
proof -
  have asks: "keeps (only_asks c l0) (run_call X c (query_call X q))" for l0
    by (rule call_asks [OF assms(1) query_reads assms(2)])
  have "\<exists>g. (\<forall>l0. keeps (only_asks c l0) (g c)) \<and> run_query X cfg k q = with_client cfg k g"
  proof (cases "searches q \<or> q = QTokens")
    case False
    then have "run_query X cfg k q = with_client cfg k (\<lambda>c. run_call X c (query_call X q))" by (simp add: query_run)
    then show ?thesis using asks by (intro exI [of _ "\<lambda>c. run_call X c (query_call X q)"]) simp
  next
    case True
    then show ?thesis
    proof
      assume "searches q"
      then obtain u dt n m where q: "q = QTemplate u dt n m" by (cases q) auto
      show ?thesis unfolding q run_query.simps find_boot_template_def
        using search_asks [OF assms(1) assms(3)] \<open>searches q\<close>
        by (intro exI conjI allI refl keeps_bind) (auto intro: keeps_intros)
    next
      assume q: "q = QTokens"
      show ?thesis unfolding q run_query.simps list_tokens_tool_def
        using asks q by (intro exI conjI allI refl keeps_bind) (auto intro: keeps_intros)
    qed
  qed
  then obtain g where g: "\<And>l0. keeps (only_asks c l0) (g c)" "run_query X cfg k q = with_client cfg k g" by blast
  then have "only_asks c (w_http w) (w_http (snd (run_query X cfg k q w)))"
    using g(1) [of "w_http w"] unfolding keeps_def
    by (simp add: g(2) with_client_def tool_client_def c lift_res_def bind_act_at on_http_def case_prod_beta)
  then show ?thesis by (auto simp: only_asks_def)
qed


section \<open>A read-only server\<close>

text \<open>Calls with ordinary names, on a LAVA that gives its jobs ordinary ids.\<close>

fun plain_tool :: "lava_ext \<Rightarrow> lava_client \<Rightarrow> world \<Rightarrow> tool_call \<Rightarrow> bool" where
  "plain_tool X c w (Query q) = (plain_call (query_call X q) \<and> (searches q \<longrightarrow> numbers_jobs X c))"
| "plain_tool X c w (Artifact a) = (\<forall>(u, n) \<in> set (pending (w_store w)). plain_seg n)"
| "plain_tool X c w t = True"

text \<open>Deleting a token that was queued for somebody.\<close>

definition queued_deletion :: "lava_client \<Rightarrow> world \<Rightarrow> http_req \<Rightarrow> bool" where
  "queued_deletion c w q \<longleftrightarrow> (\<exists>u n. (u, n) \<in> set (pending (w_store w)) \<and> q = call_request c (DeleteToken n))"

lemma whoami_asks:
  assumes "api_client c" "client_from cfg (k_headers k) = Inr c"
  shows "only_asks c (w_http w) (w_http (snd (require_user X cfg k al w)))"
proof -
  have "only_asks c (w_http w) (snd (whoami X c (w_http w)))"
    using call_asks [OF assms(1), of Whoami "w_http w" X] by (simp add: keeps_def)
  then show ?thesis
    by (auto simp: require_user_def bind_act_def tool_client_def assms(2) lift_res_def on_http_def ret_def
        split: prod.splits sum.splits)
qed

lemma list_artifacts_sends:
  assumes c: "api_client c" "client_from cfg (k_headers k) = Inr c"
    and names: "\<forall>(u, n) \<in> set (pending (w_store w)). plain_seg n"
  shows "\<exists>qs. w_http (snd (list_artifacts X cfg k w)) = w_http w @ qs \<and> (\<forall>q \<in> set qs. question c q \<or> queued_deletion c w q)"
proof -
  obtain r w1 where user: "require_user X cfg k (cf_http_users cfg) w = (r, w1)" by fastforce
  obtain qs where qs: "w_http w1 = w_http w @ qs" "list_all (question c) qs"
    using whoami_asks [OF c, of w X "cf_http_users cfg"] by (auto simp: only_asks_def user)
  show ?thesis
  proof (cases r)
    case (Inl e)
    then show ?thesis using user qs by (auto simp: list_artifacts_def bind_act_def list_all_iff)
  next
    case (Inr u)
    have store: "w_store w1 = w_store w" using user_frame(2) user by simp
    let ?ns = "map snd (filter (\<lambda>p. fst p = u) (pending (w_store w)))"
    have "list_all plain_seg ?ns" using names by (auto simp: list_all_iff)
    from delete_tokens_run [OF c(1) this] have
      "w_http (snd (list_artifacts X cfg k w)) = w_http w1 @ map (\<lambda>n. call_request c (DeleteToken n)) ?ns"
      by (simp add: list_artifacts_def bind_act_at user Inr tool_client_def c(2) lift_res_def flush_pending_tokens_def
          on_store_def on_http_def take_pending_eq store gets_def case_prod_beta)
    then show ?thesis using qs
      by (intro exI [of _ "qs @ map (\<lambda>n. call_request c (DeleteToken n)) ?ns"])
         (fastforce simp: list_all_iff queued_deletion_def)
  qed
qed

lemma query_frame:
  "w_gw (snd (run_query X cfg k q w)) = w_gw w \<and> w_net (snd (run_query X cfg k q w)) = w_net w"
proof -
  have "keeps (\<lambda>v. w_gw v = w_gw w \<and> w_store v = w_store w \<and> w_net v = w_net w) (with_client cfg k f)" for f :: "lava_client \<Rightarrow> jval lava"
    unfolding with_client_def tool_client_def by (intro keeps_intros only_http)
  moreover obtain f where "run_query X cfg k q = with_client cfg k f"
  proof (cases "searches q \<or> q = QTokens")
    case True
    then show ?thesis using that by (cases q) (simp_all add: find_boot_template_def list_tokens_tool_def)
  next
    case False
    then show ?thesis using that query_run by blast
  qed
  ultimately show ?thesis by (simp add: keeps_def)
qed

definition aside :: "world \<Rightarrow> world \<Rightarrow> bool" where
  "aside w v \<longleftrightarrow> w_gw v = w_gw w \<and> w_net v = w_net w"

lemma aside_keeps: "keeps (aside w) (on_http m)" "keeps (aside w) (on_store n)"
  by (simp_all add: keeps_def on_http_def on_store_def case_prod_beta aside_def)

lemma aside_user: "keeps (aside w) (require_user X cfg k al)"
  unfolding keeps_def
proof (intro allI impI)
  fix v assume "aside w v"
  then show "aside w (snd (require_user X cfg k al v))"
    using user_frame [of X cfg k al v "fst (require_user X cfg k al v)" "snd (require_user X cfg k al v)"] by (simp add: aside_def)
qed

lemma list_artifacts_frame: "aside w (snd (list_artifacts X cfg k w))"
proof -
  have "keeps (aside w) (list_artifacts X cfg k)"
    unfolding list_artifacts_def flush_pending_tokens_def tool_client_def by (intro keeps_intros aside_keeps aside_user)
  then show ?thesis by (simp add: keeps_def aside_def)
qed




section \<open>What a search finds\<close>

text \<open>The file name counts five points: a path that shares enough of its segments outweighs it.\<close>

lemma filename_outweighed:
  "url_match_score ''https://h/a/b/c/d/e/x.img'' ''https://h/a/b/c/d/e/y.img'' = Inr 7"
  "url_match_score ''https://h/a/b/c/d/e/x.img'' ''https://k/x.img'' = Inr 6"
  by code_simp+

text \<open>
  What becomes of one URL: the best-scoring of a job's URLs, and that only a positive score
  makes the job a template.
\<close>

definition scores :: "string \<Rightarrow> string \<Rightarrow> int \<Rightarrow> bool" where
  "scores target u n \<longleftrightarrow> url_match_score target u = Inr n"

definition template_for :: "lava_ext \<Rightarrow> string \<Rightarrow> jval \<times> jval \<Rightarrow> boot_template \<Rightarrow> bool" where
  "template_for X target j t \<longleftrightarrow> (case j of (jid, job) \<Rightarrow>
     bt_job t = jid \<and> definition_of job = Inr (bt_definition t) \<and> py_get job ''requested_device_type'' JNull = Inr (bt_device t) \<and>
     0 < bt_score t \<and> (\<exists>urls. deploy_urls X (bt_definition t) = Inr urls \<and> bt_url t \<in> set urls \<and> scores target (bt_url t) (bt_score t) \<and>
       (\<forall>u \<in> set urls. \<exists>n \<le> bt_score t. scores target u n)))"

definition no_template :: "lava_ext \<Rightarrow> string \<Rightarrow> jval \<times> jval \<Rightarrow> bool" where
  "no_template X target j \<longleftrightarrow> (\<exists>defn urls. definition_of (snd j) = Inr defn \<and> deploy_urls X defn = Inr urls \<and>
     (\<forall>u \<in> set urls. \<exists>n \<le> 0. scores target u n))"

lemma best_url_max:
  assumes "best_url target us b = Inr (u, n)" "scores target (fst b) (snd b)"
  shows "u \<in> insert (fst b) (set us) \<and> scores target u n \<and> (\<forall>v \<in> insert (fst b) (set us). \<exists>m \<le> n. scores target v m)"
  using assms
proof (induction target us b rule: best_url.induct)
  case (1 target b)
  then show ?case by (cases b) auto
next
  case (2 target v vs b)
  then obtain k where k: "url_match_score target v = Inr k"
    by (cases "url_match_score target v") auto
  let ?b = "if snd b < k then (v, k) else b"
  have run: "best_url target vs ?b = Inr (u, n)" using 2(2) k by simp
  have sc: "scores target (fst ?b) (snd ?b)" using 2(3) k by (simp add: scores_def)
  note IH = 2(1) [OF run sc]
  have small: "k \<le> snd ?b" "snd b \<le> snd ?b" by simp_all
  obtain m where m: "m \<le> n" "scores target (fst ?b) m" using IH by blast
  then have "snd ?b \<le> n" using sc by (simp add: scores_def)
  then have "k \<le> n" "snd b \<le> n" using small by linarith+
  then show ?case using IH k 2(3) by (auto simp: scores_def split: if_splits)
qed

lemma template_of_result:
  assumes "template_of X target jid job = Inr r"
  shows "case r of Some t \<Rightarrow> template_for X target (jid, job) t | None \<Rightarrow> no_template X target (jid, job)"
proof -
  obtain defn urls where d: "definition_of job = Inr defn" "deploy_urls X defn = Inr urls"
    using assms by (auto simp: template_of_def bind_res_Inr_iff)
  show ?thesis
  proof (cases urls)
    case Nil
    then show ?thesis using assms d by (simp add: template_of_def no_template_def)
  next
    case (Cons u us)
    obtain n where n: "url_match_score target u = Inr n"
      using assms d Cons by (cases "url_match_score target u") (auto simp: template_of_def)
    obtain v m where b: "best_url target us (u, n) = Inr (v, m)"
      using assms d Cons n by (cases "best_url target us (u, n)") (auto simp: template_of_def)
    have best: "v \<in> set urls \<and> scores target v m \<and> (\<forall>x \<in> set urls. \<exists>k \<le> m. scores target x k)"
      using best_url_max [OF b] n Cons by (simp add: scores_def)
    show ?thesis
    proof (cases "m \<le> 0")
      case True
      then have "r = None" using assms d Cons n b by (simp add: template_of_def)
      moreover have "no_template X target (jid, job)"
        unfolding no_template_def using best d True by (intro exI [of _ defn] exI [of _ urls]) (auto intro: order_trans)
      ultimately show ?thesis by simp
    next
      case False
      then obtain dt where "py_get job ''requested_device_type'' JNull = Inr dt"
        "r = Some \<lparr>bt_job = jid, bt_device = dt, bt_url = v, bt_score = m, bt_definition = defn\<rparr>"
        using assms d Cons n b by (auto simp: template_of_def simp: bind_res_Inr_iff)
      then show ?thesis using best d False by (auto simp: template_for_def)
    qed
  qed
qed


text \<open>A LAVA whose answers depend on the request alone, and the jobs of a page it lets be read.\<close>

definition same_answers :: "lava_ext \<Rightarrow> bool" where
  "same_answers X \<longleftrightarrow> (\<forall>lg q. ex_http X lg q = ex_http X [] q)"

fun readable :: "lava_ext \<Rightarrow> lava_client \<Rightarrow> jval list \<Rightarrow> (jval \<times> jval) list" where
  "readable X c [] = []"
| "readable X c (row # rows) = (case py_get row ''id'' JNull of
      Inl e \<Rightarrow> readable X c rows
    | Inr j \<Rightarrow> if j = JNull then readable X c rows
        else (case fst (get_job X c j []) of Inl e \<Rightarrow> readable X c rows | Inr job \<Rightarrow> (j, job) # readable X c rows))"

lemma get_job_steady: "same_answers X \<Longrightarrow> fst (get_job X c j lg) = fst (get_job X c j [])"
proof -
  assume "same_answers X"
  then have "ex_http X lg q = ex_http X [] q" for q by (simp add: same_answers_def)
  then show ?thesis
    by (cases "urljoin (lc_base c) (lstrip_char CHR ''/'' (job_path X j []))")
       (simp_all add: get_job_def get_json_def request_def bind_act_lift bind_act_at lift_res_def Let_def bind_act_def
        split: sum.splits)
qed

definition verdict :: "lava_ext \<Rightarrow> string \<Rightarrow> jval \<times> jval \<Rightarrow> boot_template option \<Rightarrow> bool" where
  "verdict X target j r \<longleftrightarrow> (case r of Some t \<Rightarrow> template_for X target j t | None \<Rightarrow> no_template X target j)"

lemma scan_result:
  assumes "same_answers X" "scan_jobs X c target rows lg = (Inr (n, ts), l)"
  shows "n = length (readable X c rows) \<and>
    (\<exists>rs. list_all2 (verdict X target) (readable X c rows) rs \<and> ts = List.map_filter (\<lambda>r. r) rs)"
  using assms(2)
proof (induction rows arbitrary: lg n ts l)
  case Nil
  then show ?case by (simp add: ret_def List.map_filter_def)
next
  case (Cons row rows)
  obtain j where j: "py_get row ''id'' JNull = Inr j"
    using Cons.prems by (cases "py_get row ''id'' JNull") (auto simp: bind_act_at lift_res_def)
  show ?case
  proof (cases "j = JNull")
    case True
    then show ?thesis using Cons.IH [of lg n ts l] Cons.prems j by (simp add: bind_act_at lift_res_def)
  next
    case False
    obtain r l1 where r: "get_job X c j lg = (r, l1)" by fastforce
    have r0: "fst (get_job X c j []) = r" using get_job_steady [OF assms(1), of c j lg] r by simp
    show ?thesis
    proof (cases r)
      case (Inl e)
      then show ?thesis using Cons.IH [of l1 n ts l] Cons.prems j False r r0
        by (simp add: bind_act_at lift_res_def try_act_def ret_def)
    next
      case (Inr job)
      obtain t where t: "template_of X target j job = Inr t"
        using Cons.prems j False r Inr
        by (cases "template_of X target j job") (auto simp: bind_act_at lift_res_def try_act_def ret_def)
      obtain m us where s: "scan_jobs X c target rows l1 = (Inr (m, us), l)" "n = Suc m"
          "ts = (case t of None \<Rightarrow> us | Some b \<Rightarrow> b # us)"
        using Cons.prems j False r Inr t
        by (auto simp: bind_act_at lift_res_def try_act_def ret_def bind_act_def split: prod.splits sum.splits)
      obtain rs where rs: "m = length (readable X c rows)" "list_all2 (verdict X target) (readable X c rows) rs"
          "us = List.map_filter (\<lambda>r. r) rs"
        using Cons.IH [OF s(1)] by blast
      have "verdict X target (j, job) t"
        using template_of_result [OF t] by (simp add: verdict_def)
      then show ?thesis using rs s j False r0 Inr
        by (intro conjI exI [of _ "t # rs"]) (auto simp: List.map_filter_def split: option.splits)
    qed
  qed
qed

text \<open>C40: The search for a boot template is exact. On a LAVA whose answers depend on the request
  alone, a search that answers has looked at every job of the page that has an id and can be read,
  and counts them. Each of them either has no deploy URL with a positive score, or yields one entry,
  with its own id, device type and definition and the URL of it that no other of its URLs beats,
  under that URL's score. The entries come by falling score, those of equal score in the order LAVA
  listed them, and the caller gets the first of them.\<close>

theorem templates_ranked:
  assumes steady: "same_answers X"
    and page: "list_jobs X c limit ([(''health'', JStr ''Complete''), (''ordering'', JStr ''-id'')] @
        (case nonempty dt of None \<Rightarrow> [] | Some t \<Rightarrow> [(''device_type'', JStr t)])) lg = (Inr page, l1)"
      "listed_jobs page = Inr rows"
    and run: "find_templates X c target dt limit lg = (Inr (n, ts), l)"
  shows "n = length (readable X c rows) \<and> sorted_wrt (\<lambda>a b. bt_score b \<le> bt_score a) ts \<and>
    (\<exists>rs. list_all2 (verdict X target) (readable X c rows) rs \<and>
      (\<forall>s. filter (\<lambda>t. bt_score t = s) ts = filter (\<lambda>t. bt_score t = s) (List.map_filter (\<lambda>r. r) rs)))"
proof -
  obtain us where us: "scan_jobs X c target rows l1 = (Inr (n, us), l)" "ts = rank_templates us"
    using run page
    by (auto simp: find_templates_def listed_jobs_def bind_act_at lift_res_def ret_def bind_act_def split: prod.splits sum.splits)
  obtain rs where rs: "n = length (readable X c rows)" "list_all2 (verdict X target) (readable X c rows) rs"
      "us = List.map_filter (\<lambda>r. r) rs"
    using scan_result [OF steady us(1)] by blast
  have "sorted (map (\<lambda>t. - bt_score t) ts)" by (simp add: us(2) rank_templates_def)
  then have "sorted_wrt (\<lambda>a b. bt_score b \<le> bt_score a) ts" by (simp add: sorted_map)
  moreover have "filter (\<lambda>t. bt_score t = s) ts = filter (\<lambda>t. bt_score t = s) us" for s
    using sort_key_stable [of "\<lambda>t. - bt_score t" "- s" us] by (simp add: us(2) rank_templates_def)
  ultimately show ?thesis using rs by blast
qed


text \<open>One finished job, which deployed the very file that is asked for.\<close>

definition find_ext :: lava_ext where
  "find_ext = lab_ext\<lparr>ex_http := (\<lambda>_ q. Inr \<lparr>h_status = 200, h_text = [], h_json = Some (
       if endswith (q_url q) ''/jobs/'' then obj [(''count'', JInt 1), (''results'', JList [obj [(''id'', JInt 7)]])]
       else obj [(''original_definition'', JStr ''d'')])\<rparr>),
     ex_load := (\<lambda>_. Inr (obj [(''actions'', JList [obj [(''deploy'', obj [(''url'', JStr ''https://h/a/x.img'')])]])]))\<rparr>"

lemma find_urls:
  "urljoin ''https://lava.lab/api/v0.3/'' ''jobs/'' = Inr ''https://lava.lab/api/v0.3/jobs/''"
  "urljoin ''https://lava.lab/api/v0.3/'' ''jobs/7/'' = Inr ''https://lava.lab/api/v0.3/jobs/7/''"
  "endswith ''https://lava.lab/api/v0.3/jobs/'' ''/jobs/''" "\<not> endswith ''https://lava.lab/api/v0.3/jobs/7/'' ''/jobs/''"
  by code_simp+

lemma find_score: "url_match_score ''https://h/a/x.img'' ''https://h/a/x.img'' = Inr 9"
  by code_simp

lemma find_deploys: "deploy_urls find_ext (JStr ''d'') = Inr [''https://h/a/x.img'']"
  by (simp add: deploy_urls_def find_ext_def) code_simp

lemma find_page: "\<exists>l. list_jobs find_ext lab_client 25 ([(''health'', JStr ''Complete''), (''ordering'', JStr ''-id'')] @
    (case nonempty None of None \<Rightarrow> [] | Some t \<Rightarrow> [(''device_type'', JStr t)])) [] =
    (Inr (obj [(''count'', JInt 1), (''results'', JList [obj [(''id'', JInt 7)]])]), l)"
  by (simp add: list_jobs_def list_page_def wired_defs find_urls) (simp add: find_ext_def find_urls obj_def item_of_def)

lemma find_job: "\<exists>l. get_job find_ext lab_client (JInt 7) lg = (Inr (obj [(''original_definition'', JStr ''d'')]), l)"
  by (simp add: get_job_def wired_defs find_urls wired_path) (simp add: find_ext_def find_urls)

lemma templates_ranked_witness:
  "\<exists>t l. find_templates find_ext lab_client ''https://h/a/x.img'' None 25 [] = (Inr (1, [t]), l) \<and>
     bt_job t = JInt 7 \<and> bt_score t = 9"
proof -
  obtain l1 where page: "list_jobs find_ext lab_client 25 ([(''health'', JStr ''Complete''), (''ordering'', JStr ''-id'')] @
      (case nonempty None of None \<Rightarrow> [] | Some t \<Rightarrow> [(''device_type'', JStr t)])) [] =
      (Inr (obj [(''count'', JInt 1), (''results'', JList [obj [(''id'', JInt 7)]])]), l1)" using find_page by blast
  have rows: "listed_jobs (obj [(''count'', JInt 1), (''results'', JList [obj [(''id'', JInt 7)]])]) = Inr [obj [(''id'', JInt 7)]]"
    by (simp add: listed_jobs_def) code_simp
  obtain l2 where job: "get_job find_ext lab_client (JInt 7) l1 = (Inr (obj [(''original_definition'', JStr ''d'')]), l2)"
    using find_job by blast
  have doc: "definition_of (obj [(''original_definition'', JStr ''d'')]) = Inr (JStr ''d'')"
      "py_get (obj [(''original_definition'', JStr ''d'')]) ''requested_device_type'' JNull = Inr JNull"
      "py_get (obj [(''id'', JInt 7)]) ''id'' JNull = Inr (JInt 7)"
    by code_simp+
  obtain t where t: "template_of find_ext ''https://h/a/x.img'' (JInt 7) (obj [(''original_definition'', JStr ''d'')]) = Inr (Some t)"
    by (simp add: template_of_def doc find_deploys find_score)
  have run: "find_templates find_ext lab_client ''https://h/a/x.img'' None 25 [] = (Inr (1, [t]), l2)"
    using page rows
    by (simp add: find_templates_def bind_act_at listed_jobs_def lift_res_def ret_def try_act_def doc job t rank_templates_def)
  have steady: "same_answers find_ext" by (simp add: same_answers_def find_ext_def)
  obtain rs where rs: "list_all2 (verdict find_ext ''https://h/a/x.img'') (readable find_ext lab_client [obj [(''id'', JInt 7)]]) rs"
      "\<And>s. filter (\<lambda>t. bt_score t = s) [t] = filter (\<lambda>t. bt_score t = s) (List.map_filter (\<lambda>r. r) rs)"
    using templates_ranked [OF steady page rows run] by blast
  obtain l3 where "get_job find_ext lab_client (JInt 7) [] = (Inr (obj [(''original_definition'', JStr ''d'')]), l3)"
    using find_job by blast
  then obtain r where r: "rs = [r]" "verdict find_ext ''https://h/a/x.img'' (JInt 7, obj [(''original_definition'', JStr ''d'')]) r"
    using rs(1) doc(3) by (auto simp: list_all2_Cons1)
  have "r = Some t" using rs(2) [of "bt_score t"] r(1) by (cases r) (auto simp: List.map_filter_def split: if_splits)
  then have "bt_job t = JInt 7 \<and> bt_score t = 9"
    using r(2) find_deploys by (auto simp: verdict_def template_for_def doc scores_def find_score elim: sym [THEN subst])
  then show ?thesis using run by blast
qed

end
