(* ===== verification/ServerSys.thy ===== *)
theory ServerSys
  imports QueryProps
begin

text \<open>
  The whole server: calls of tools, requests to the artifact routes, uploads in flight and
  reverse forwards, in any order, with any of them happening wherever a call waits.
\<close>

section \<open>What can happen\<close>

definition store_part :: "world \<Rightarrow> store_sys" where
  "store_part w = \<lparr>sys_store = w_store w, sys_uploads = w_ups w\<rparr>"

definition in_store :: "store_cfg \<Rightarrow> store_event \<Rightarrow> world \<Rightarrow> world" where
  "in_store sc e w = (let y = store_step sc e (store_part w) in w\<lparr>w_store := sys_store y, w_ups := sys_uploads y\<rparr>)"

fun transfers :: "store_event \<Rightarrow> bool" where
  "transfers (EvBegin now i d n) = True"
| "transfers (EvChunk k d c) = True"
| "transfers (EvFinish k) = True"
| "transfers (EvBreak k) = True"
| "transfers e = False"

text \<open>A reservation draws an identifier that was never used.\<close>

fun fresh_draw :: "art_draw \<Rightarrow> tool_call \<Rightarrow> world \<Rightarrow> bool" where
  "fresh_draw d (Artifact (CreateUpload f n ttl j)) w = (ad_id d \<notin> known_ids (w_store w))"
| "fresh_draw d c w = True"

text \<open>
  From one state of the server to a later one. A call may wait, and what happens then leads from
  the state it waits in to a later one, in the same sense. An upload is a sequence of events; a
  request that does not upload is one step.
\<close>

inductive later :: "lava_ext \<Rightarrow> config \<Rightarrow> site \<Rightarrow> world \<Rightarrow> world \<Rightarrow> bool" for X cfg st where
  same: "later X cfg st w w"
| tool: "later X cfg st w v \<Longrightarrow> (\<And>n u. later X cfg st u (k_yield k n u)) \<Longrightarrow> fresh_draw d c v \<Longrightarrow>
    later X cfg st w (snd (run_tool X cfg st k d c v))"
| download: "later X cfg st w v \<Longrightarrow> hi_method h \<noteq> ''PUT'' \<Longrightarrow>
    later X cfg st w (snd (artifact_endpoint X cfg (st_store st) h v))"
| transfer: "later X cfg st w v \<Longrightarrow> transfers e \<Longrightarrow> later X cfg st w (in_store (st_store st) e v)"
| forward: "later X cfg st w v \<Longrightarrow>
    later X cfg st w (v\<lparr>w_gw := snd (server_requested host prt conn (w_gw v))\<rparr>)"

section \<open>What always holds\<close>

definition stores_ok :: "store_cfg \<Rightarrow> world \<Rightarrow> bool" where
  "stores_ok sc w \<longleftrightarrow> sys_ok sc (store_part w)"

definition quiet :: "store_cfg \<Rightarrow> call \<Rightarrow> bool" where
  "quiet sc k \<longleftrightarrow> (\<forall>n w. stores_ok sc w \<longrightarrow> stores_ok sc (k_yield k n w))"

lemma stores_frame [simp]:
  "stores_ok sc (w\<lparr>w_gw := g\<rparr>) = stores_ok sc w" "stores_ok sc (w\<lparr>w_http := l\<rparr>) = stores_ok sc w"
  "stores_ok sc (w\<lparr>w_net := n\<rparr>) = stores_ok sc w"
  by (simp_all add: stores_ok_def store_part_def)

lemma stores_sound: "sound_step sc (w_store w) s \<Longrightarrow> stores_ok sc w \<Longrightarrow> stores_ok sc (w\<lparr>w_store := s\<rparr>)"
  using sound_stepD_store [of sc "store_part w" s] by (simp add: stores_ok_def store_part_def)

interpretation stored_files: world_law "\<lambda>w. quiet sc k \<and> stores_ok sc w" k for sc k
  by unfold_locales (simp_all add: quiet_def)

lemma on_store_sound:
  "(\<And>s. sound_step sc s (snd (m s))) \<Longrightarrow> keeps (\<lambda>w. quiet sc k \<and> stores_ok sc w) (on_store m)"
  unfolding keeps_def on_store_def by (auto simp: case_prod_beta intro: stores_sound)

lemma flush_sound: "keeps (\<lambda>w. quiet sc k \<and> stores_ok sc w) (flush_pending_tokens X c u)"
  unfolding flush_pending_tokens_def
  by (intro keeps_intros on_store_sound stored_files.on_http_keeps) (simp add: case_prod_beta sound_take_pending)

lemma delete_sound: "keeps (\<lambda>w. quiet sc k \<and> stores_ok sc w) (delete_artifact X cfg k i)"
  unfolding delete_artifact_def
  by (intro keeps_intros on_store_sound stored_files.step_keeps flush_sound) (simp add: case_prod_beta sound_delete)


text \<open>
  A reservation changes the store at one point, before which its identifier must be unused:
  computations that lead from one property to another.
\<close>

definition leads :: "('s \<Rightarrow> bool) \<Rightarrow> ('s \<Rightarrow> bool) \<Rightarrow> ('s, 'e, 'a) act \<Rightarrow> bool" where
  "leads J I m \<longleftrightarrow> (\<forall>s. J s \<longrightarrow> I (snd (m s)))"

lemma leads_before: "keeps J m \<Longrightarrow> (\<And>x. leads J I (f x)) \<Longrightarrow> (\<And>s. J s \<Longrightarrow> I s) \<Longrightarrow> leads J I (bind_act m f)"
  by (auto simp: leads_def keeps_def bind_act_def split: prod.splits sum.splits)

lemma leads_after: "leads J I m \<Longrightarrow> (\<And>x. keeps I (f x)) \<Longrightarrow> leads J I (bind_act m f)"
  by (auto simp: leads_def keeps_def bind_act_def split: prod.splits sum.splits)

lemma leads_try: "leads J I m \<Longrightarrow> (\<And>e n. h e = Some n \<Longrightarrow> keeps I n) \<Longrightarrow> leads J I (try_act m h)"
  by (auto simp: leads_def keeps_def try_act_def split: prod.splits sum.splits option.splits)

definition unused :: "store_cfg \<Rightarrow> call \<Rightarrow> string \<Rightarrow> world \<Rightarrow> bool" where
  "unused sc k i w \<longleftrightarrow> (quiet sc k \<and> stores_ok sc w) \<and> i \<notin> known_ids (w_store w)"

lemma unused_http: "keeps (unused sc k i) (on_http m)"
  by (simp add: keeps_def on_http_def case_prod_beta unused_def)

lemma unused_flush: "keeps (unused sc k i) (flush_pending_tokens X c u)"
proof -
  have "keeps (unused sc k i) (on_store (\<lambda>s. case take_pending u s of (ns, t) \<Rightarrow> (Inr ns, t)))"
    using stores_sound [OF sound_take_pending]
    by (simp add: keeps_def unused_def on_store_def case_prod_beta known_ids_def)
  then show ?thesis unfolding flush_pending_tokens_def by (intro keeps_intros unused_http)
qed

lemma unused_user: "keeps (unused sc k i) (require_user X cfg k al)"
  unfolding require_user_def tool_client_def by (intro keeps_intros unused_http)

lemma create_leads:
  "leads (unused sc k i) (\<lambda>w. quiet sc k \<and> stores_ok sc w)
     (on_store (create_art sc d now0 now i token fname n own ttl bj))"
  unfolding leads_def on_store_def
  by (auto simp: case_prod_beta unused_def known_ids_def intro!: stores_sound sound_create)

lemma register_sound: "keeps (\<lambda>w. quiet sc k \<and> stores_ok sc w) (register_token X c a token)"
  unfolding register_token_def
  by (intro keeps_intros stored_files.on_http_keeps on_store_sound)
     (auto simp: modify_def sound_token_name split: exc.splits intro: keeps_intros)

lemma create_sound:
  "leads (unused sc k (ad_id d)) (\<lambda>w. quiet sc k \<and> stores_ok sc w) (create_artifact_upload X cfg sc k d fname n ttl bj)"
  unfolding create_artifact_upload_def tool_client_def
proof (rule leads_before [OF unused_user], rule leads_before [OF keeps_basic(4)], rule leads_before [OF unused_flush], rule leads_after)
  show "leads (unused sc k (ad_id d)) (\<lambda>w. quiet sc k \<and> stores_ok sc w)
      (try_act (bind_act (on_store (create_art sc (ad_disk d) (ad_now0 d) (ad_now d) (ad_id d) (ad_token d) fname n u ttl bj))
          (\<lambda>made. ret (Inr made)))
        (\<lambda>e. case e of ArtifactError m reason ds \<Rightarrow> Some (ret (Inl (error_details m reason ds))) | _ \<Rightarrow> None))" for u
    by (intro leads_try leads_after create_leads keeps_basic) (auto split: exc.splits intro: keeps_intros)
  show "keeps (\<lambda>w. quiet sc k \<and> stores_ok sc w) (case made of Inl err \<Rightarrow> ret err
      | Inr (r, token) \<Rightarrow> bind_act (gets (\<lambda>w. obj_at (w_store w) r)) (\<lambda>a.
          bind_act (register_token X c a token) (\<lambda>registered. ret (upload_view sc a token (token_name_of a) registered))))" for c made
    by (auto split: sum.split intro!: keeps_intros register_sound)
qed (simp_all add: unused_def)

lemma list_sound: "keeps (\<lambda>w. quiet sc k \<and> stores_ok sc w) (list_artifacts X cfg k)"
  unfolding list_artifacts_def
  by (intro keeps_intros on_store_sound stored_files.step_keeps flush_sound) (simp add: case_prod_beta list_for_def sound_reap Let_def)

lemma tool_stores:
  assumes "quiet (st_store st) k" "stores_ok (st_store st) w" "fresh_draw d c w"
  shows "stores_ok (st_store st) (snd (run_tool X cfg st k d c w))"
proof -
  have keep: "keeps (\<lambda>w. quiet (st_store st) k \<and> stores_ok (st_store st) w) m \<Longrightarrow> stores_ok (st_store st) (snd (m w))" for m :: "jval tool"
    using assms(1,2) by (simp add: keeps_def)
  show ?thesis
  proof (cases c)
    case (Artifact a)
    show ?thesis
    proof (cases a)
      case (CreateUpload f n ttl j)
      then have "unused (st_store st) k (ad_id d) w" using assms Artifact by (simp add: unused_def)
      then show ?thesis using create_sound [of "st_store st" k d X cfg f n ttl j] Artifact CreateUpload
        by (simp add: leads_def)
    qed (use keep delete_sound list_sound Artifact in simp_all)
  qed (use keep stored_files.query_keeps stored_files.order_keeps stored_files.session_keeps in \<open>simp_all add: keeps_basic assms(2) lift_res_def\<close>)
qed

lemma fetch_sound: "keeps (\<lambda>w. quiet sc k \<and> stores_ok sc w) (get_artifact X cfg h)"
  unfolding get_artifact_def authorized_def
  by (intro keeps_intros on_store_sound stored_files.on_http_keeps)
     (auto simp: case_prod_beta modify_def sound_get sound_delete split: sum.splits intro!: keeps_intros on_store_sound stored_files.on_http_keeps)

lemma fetch_frame: "w_gw (snd (get_artifact X cfg h w)) = w_gw w"
proof -
  have "keeps (aside w) (get_artifact X cfg h)"
    unfolding get_artifact_def authorized_def
    by (intro keeps_intros aside_keeps) (auto split: sum.splits intro!: keeps_intros aside_keeps)
  then show ?thesis by (simp add: keeps_def aside_def)
qed

lemma transfer_sound:
  assumes "stores_ok sc w" "transfers e"
  shows "stores_ok sc (in_store sc e w)"
proof -
  have "store_env e (store_part w)" using assms(2) by (cases e) simp_all
  with assms(1) have "sys_ok sc (store_step sc e (store_part w))"
    unfolding stores_ok_def by (rule store_step_ok)
  moreover have "store_part (w\<lparr>w_store := sys_store y, w_ups := sys_uploads y\<rparr>) = y" for y
    by (simp add: store_part_def)
  ultimately show ?thesis by (simp add: stores_ok_def in_store_def Let_def)
qed

lemma later_stores:
  "later X cfg st w v \<Longrightarrow> stores_ok (st_store st) w \<Longrightarrow> stores_ok (st_store st) v"
proof (induction rule: later.induct)
  case (tool w v k d c)
  then have "quiet (st_store st) k" by (simp add: quiet_def)
  with tool show ?case by (intro tool_stores) simp_all
next
  case (download w v h)
  have "quiet (st_store st) k \<and> stores_ok (st_store st) v \<longrightarrow> stores_ok (st_store st) (snd (get_artifact X cfg h v))" for k
    using fetch_sound [of "st_store st" k X cfg h] by (simp add: keeps_def)
  from this [of lab_call] download show ?case by (simp add: artifact_endpoint_def quiet_def)
qed (simp_all add: transfer_sound)

lemma later_sessions:
  "later X cfg st w v \<Longrightarrow> registry_sound (w_gw w) \<Longrightarrow> registry_sound (w_gw v) \<and> still_there (w_gw w) (w_gw v)"
proof (induction rule: later.induct)
  case (tool w v k d c)
  then have "lawful_call k" by (simp add: lawful_call_def)
  with tool show ?case using tool_since [of k v X cfg st d c] by (auto simp: since_def intro: still_there_trans)
next
  case (forward w v host prt conn)
  then show ?case using forward_lawful by (auto intro: still_there_trans)
qed (auto simp: artifact_endpoint_def fetch_frame in_store_def Let_def)

text \<open>C33: The whole server keeps its invariants. Take any run: tools called by anybody with any
  arguments, answers of LAVA and outcomes of commands; uploads beginning, going on, ending and
  breaking; downloads; reverse forwards; and, wherever a call waits, any such run again. If the
  state it starts in is sound so is the one it ends in: the registry of sessions is well-typed,
  registry, sidecars, blobs and partial files of the artifacts agree and no file exceeds the cap,
  uploads in flight included; and every session that was there still has its identifier, keys,
  port, kind and owner.\<close>

theorem server_invariant:
  assumes "later X cfg st w v" "stores_ok (st_store st) w" "registry_sound (w_gw w)"
  shows "stores_ok (st_store st) v \<and> registry_sound (w_gw v) \<and> still_there (w_gw w) (w_gw v)"
  using later_stores [OF assms(1,2)] later_sessions [OF assms(1,3)] by blast


lemma server_invariant_witness:
  "\<exists>v. later lab_ext lab_cfg lab_site lab_idle v \<and> sess (w_gw v) \<noteq> [] \<and> stores_ok lab_store v \<and> registry_sound (w_gw v)"
proof -
  let ?v = "in_store (st_store lab_site) (EvBegin 2 ''A1'' (ad_disk lab_draw) None)
    (snd (run_tool lab_ext lab_cfg lab_site lab_call lab_draw (Artifact (CreateUpload ''k.img'' 3 None None)) lab_idle))"
  have "later lab_ext lab_cfg lab_site u (k_yield lab_call n u)" for n u by (simp add: later.same)
  moreover have "fresh_draw lab_draw (Artifact (CreateUpload ''k.img'' 3 None None)) lab_idle" using lab_ids by simp
  ultimately have run: "later lab_ext lab_cfg lab_site lab_idle ?v"
    by (intro later.transfer later.tool later.same) simp_all
  have st: "stores_ok (st_store lab_site) lab_idle"
    using init_sys_ok [OF lab_store_ok(3)]
    by (simp add: stores_ok_def store_part_def lab_store_def init_sys_def lab_idle_def lab_world_def)
  have "registry_sound (w_gw lab_idle)"
    unfolding lab_idle_def by (rule lab_sound, rule lab_session_wf) simp
  from server_invariant [OF run st this] have v: "stores_ok (st_store lab_site) ?v" "registry_sound (w_gw ?v)"
      "still_there (w_gw lab_idle) (w_gw ?v)" by blast+
  from v(3) have "sess (w_gw ?v) \<noteq> []" by (auto simp: still_there_def lab_idle_def lab_world_def)
  then show ?thesis using run v by (intro exI [of _ ?v]) (simp add: lab_store_def)
qed

section \<open>A board that dials in\<close>

text \<open>C34: A session whose board dials in serves. Whoever holds a session's private key, as its job
  does, connects from an admitted address, offers the key under the session's identifier and asks
  for a forward of the session's port on loopback: the key is accepted, the forward granted, the
  session counts as connected and the wait for it ends. From then on its owner's commands are run
  over exactly that port, as the container's user and with the session's key, and what comes back
  is the answer.\<close>

theorem dialled_session_serves:
  assumes reg: "registry_sound (w_gw w)" "get_session i (w_gw w) = Some r" "started (w_gw w)"
    and b: "b = sess_at (w_gw w) r" "s_kind b = ''container''" "s_owner b \<in> {None, Some u}"
    and peer: "connection_made nets peer new_conn = (c0, False)"
    and key: "imp (public_key b) = Some key"
    and offer: "validate_public_key imp now i key (w_gw w) (snd (begin_auth i c0)) = (accepted, c1)"
    and ask: "server_requested host (reverse_port b) c1 (w_gw w) = (granted, g)" "host \<in> set loopback_hosts"
    and call: "idle k" "require_user X cfg k (cf_http_users cfg) (w\<lparr>w_gw := g\<rparr>) = (Inr u, w1)"
  shows "accepted \<and> granted \<and> s_status (sess_at g r) = ''connected'' \<and>
    wait_connected k n i (w\<lparr>w_gw := g\<rparr>) = (Inr True, w\<lparr>w_gw := g\<rparr>) \<and>
    run_in_session X cfg k i cmd t (w\<lparr>w_gw := g\<rparr>) =
      (case k_dial k \<lparr>sr_port = reverse_port b, sr_user = container_user b, sr_key = private_key b,
          sr_command = cmd, sr_timeout = of_int t\<rparr> of
         Inl m \<Rightarrow> Inl (GatewayError (''command failed in session '' @ i @ '': '' @ m))
       | Inr res \<Rightarrow> Inr (run_view res), w1)"
proof -
  have r: "r < length (sess (w_gw w))" "session_id b = i"
    using reg(1,2) b(1) by (auto simp: registry_sound_def get_session_def)
  have c0: "c_allowed c0" using peer by (auto simp: connection_made_def Let_def split: if_splits)
  have acc: "accepted" "c1 = (snd (begin_auth i c0))\<lparr>c_session := Some r, c_role := Some ''agent''\<rparr>"
    using offer c0 reg(2) key b(1) by (auto simp: validate_public_key_def begin_auth_def key_matches_def Let_def)
  let ?b = "b\<lparr>s_status := ''connected'', tunnel_up := True\<rparr>"
  have g: "granted" "g = set_sess r ?b (w_gw w)"
    using ask c0 b(1) acc(2) by (auto simp: server_requested_def begin_auth_def)
  have at: "sess_at g r = ?b" "get_session i g = Some r" "started g"
    using g(2) r(1) reg(2,3) by (simp_all add: sess_at_set_sess)
  have y: "yield k n x = (Inr (), x)" for n x using call(1) by (simp add: yield_def idle_def act_apply)
  have w1: "w_gw w1 = g" using user_frame(1) [OF call(2)] by simp
  have start: "start_gateway k 0 w1 = (Inr (), w1)" using call(1) at(3) w1 by (intro idle_start) simp_all
  have own: "require_owner ?b u = Inr ()" using b(3) by (auto simp: require_owner_def)
  have same: "w1\<lparr>w_gw := g\<rparr> = w1" using w1 by (metis world.surjective world.update_convs(1))
  have "run_in_session X cfg k i cmd t (w\<lparr>w_gw := g\<rparr>) =
      (case k_dial k \<lparr>sr_port = reverse_port b, sr_user = container_user b, sr_key = private_key b,
          sr_command = cmd, sr_timeout = of_int t\<rparr> of
         Inl m \<Rightarrow> Inl (GatewayError (''command failed in session '' @ i @ '': '' @ m))
       | Inr res \<Rightarrow> Inr (run_view res), w1)"
    using at own b(2) same
    by (auto simp: run_in_session_def bind_act_at call(2) w1 lift_res_def start run_on_def on_gw_def gw_run_def y ret_def
        split: sum.split)
  moreover have "wait_connected k n i (w\<lparr>w_gw := g\<rparr>) = (Inr True, w\<lparr>w_gw := g\<rparr>)"
    using at by (simp add: wait_connected_def bind_act_at y ret_def)
  ultimately show ?thesis using acc(1) g(1) at(1) by simp
qed

text \<open>Ann's board dials in from inside the lab.\<close>

lemma dialled_session_serves_witness:
  "let b = (lab_session ''b0'' ''container'' ''ann'')\<lparr>s_status := ''pending'', tunnel_up := False\<rparr>; w = lab_world b;
       (c0, _) = connection_made [] (Some ''127.0.0.1'') new_conn;
       (accepted, c1) = validate_public_key Some 0 ''s-b0'' ''Q'' (w_gw w) (snd (begin_auth ''s-b0'' c0));
       (granted, g) = server_requested ''localhost'' 7000 c1 (w_gw w)
   in accepted \<and> granted \<and> s_status (sess_at g 0) = ''connected'' \<and>
      (\<exists>w1. run_in_session lab_ext lab_cfg lab_call ''s-b0'' ''id'' 5 (w\<lparr>w_gw := g\<rparr>) =
         (Inl (GatewayError ''command failed in session s-b0: no''), w1))"
proof -
  let ?b = "(lab_session ''b0'' ''container'' ''ann'')\<lparr>s_status := ''pending'', tunnel_up := False\<rparr>" and ?w = "lab_world ((lab_session ''b0'' ''container'' ''ann'')\<lparr>s_status := ''pending'', tunnel_up := False\<rparr>)"
  have wf: "registry_sound (w_gw ?w)"
    by (rule lab_sound) (simp add: lab_session_def new_session_def session_wf_def)
  have peer: "connection_made [] (Some ''127.0.0.1'') new_conn = (new_conn\<lparr>c_allowed := True\<rparr>, False)"
    by (simp add: connection_made_def ip_allowed_def Let_def)
  obtain accepted c1 where offer: "validate_public_key Some 0 ''s-b0'' ''Q'' (w_gw ?w) (snd (begin_auth ''s-b0'' (new_conn\<lparr>c_allowed := True\<rparr>))) = (accepted, c1)"
    by fastforce
  obtain granted g where ask: "server_requested ''localhost'' 7000 c1 (w_gw ?w) = (granted, g)" by fastforce
  have b: "session_id ?b = ''s-b0''" "reverse_port ?b = 7000" "public_key ?b = ''Q''" "s_kind ?b = ''container''" "s_owner ?b = Some ''ann''"
    by (simp_all add: lab_session_def new_session_def)
  have get: "get_session ''s-b0'' (w_gw ?w) = Some 0" "sess_at (w_gw ?w) 0 = ?b" "started (w_gw ?w)"
    using b(1) by simp_all
  have user: "require_user lab_ext lab_cfg lab_call (cf_http_users lab_cfg) (?w\<lparr>w_gw := g\<rparr>) =
      (Inr ''ann'', (?w\<lparr>w_gw := g\<rparr>)\<lparr>w_http := w_http (?w\<lparr>w_gw := g\<rparr>) @ [lab_whoami]\<rparr>)"
    using lab_user [OF lab_knows, of "?w\<lparr>w_gw := g\<rparr>"] by simp
  have idle: "idle lab_call" by (simp add: idle_def)
  have pre: "s_kind ?b = ''container''" "s_owner ?b \<in> {None, Some ''ann''}" "Some (public_key ?b) = Some ''Q''"
      "server_requested ''localhost'' (reverse_port ?b) c1 (w_gw ?w) = (granted, g)" "''localhost'' \<in> set loopback_hosts"
    using b ask by (simp_all add: loopback_hosts_def)
  note serves = dialled_session_serves [OF wf get(1,3) get(2) [symmetric] pre(1,2) peer pre(3) offer pre(4,5) idle user,
      where cmd = "''id''" and t = 5 and n = 0]
  show ?thesis
    using serves peer offer ask by (auto simp: Let_def lab_call_def)
qed

end
