(* ===== verification/Spec2Isabelle.thy ===== *)
theory Spec2Isabelle
  imports StoreThms GatewaySys ConsoleProxy SourceProps Cmdline Routes ServerSys
begin

text \<open>
  A verification development for \<^verbatim>\<open>lava-mcp\<close>, a server that lets agents work with the
  boards of a LAVA lab: ask LAVA things, run jobs, hold a board open and work in a container
  beside it or on its serial console, and park files that jobs can fetch.

  \<^bold>\<open>The program.\<close> \<^verbatim>\<open>lava_mcp/cmdline.py\<close> and \<^verbatim>\<open>config.py\<close> make the
  configuration and start the server. \<^verbatim>\<open>server.py\<close> offers the tools; most pass a question on to
  LAVA through \<^verbatim>\<open>client.py\<close>. The interactive tools keep sessions in the gateway,
  \<^verbatim>\<open>gateway.py\<close>, an SSH rendezvous: the job of a session (built by \<^verbatim>\<open>jobs.py\<close>) dials
  in with the session's key and holds a reverse forward, over which commands and people reach the
  board. For a serial console the job runs \<^verbatim>\<open>interactive/ser2net-proxy/console-proxy.py\<close>, which
  the server tells, over the same tunnel, which endpoint to relay. The artifact tools and HTTP routes
  keep files in \<^verbatim>\<open>artifacts.py\<close>. \<^verbatim>\<open>source.py\<close> mirrors the LAVA source for reading.

  \<^bold>\<open>How it is modelled.\<close> Code that changes state is a computation on an explicit state that
  returns a value or an exception (\<open>act\<close> of Prelude, over \<open>exc\<close>); mutable objects that are shared
  are positions in a list (artifacts in \<open>objs\<close>, sessions in \<open>sess\<close>, inodes of open files). What comes
  from outside is an argument: clock, random draws, disk usage, environment, the answers of LAVA (a
  function of the requests before and the request), YAML reading and writing, how launching and
  dialling end. Where a coroutine waits, whatever else happens first is an argument (\<open>k_yield\<close>)
  or, for uploads, connections, the console and the mirror, the model is a machine whose events are
  the stretches between two waits. Dictionaries keep insertion order; strings are lists of
  characters below 256, the em dash being three bytes (PyStr).

  \<^bold>\<open>Theories and what they show.\<close>
  \<^item> Prelude, PyStr, PyVal, Sha256: computations, dictionaries, the strings and values of Python, the
    hash; the locales \<open>keyed_store\<close>, \<open>machine\<close>, \<open>monotone_machine\<close> and \<open>simulation\<close>.
  \<^item> Artifacts, Uploads (\<^verbatim>\<open>artifacts.py\<close>): \<open>store\<close> with registry, objects, token queue and a
    file system with open inodes. StoreInv: the invariant of registry, files and uploads in flight, kept
    by each step. StoreSpec: the map from identifiers to metadata and bytes that the store implements.
    StoreProps, StoreThms: the cap, exact uploads, clean refusals, restart, no revival, tokens.
  \<^item> IPAddr, Gateway (\<^verbatim>\<open>gateway.py\<close>): addresses and allowlist, sessions and their registry,
    every callback of a connection. GatewaySys: any interleaving of connections and operations; who
    gets a forward or a tunnel, and with which key; what a close ends and what it does not; whom the
    WebSocket bridge lets in.
  \<^item> ConsoleProxy (\<^verbatim>\<open>console-proxy.py\<close>): reader, watchers, control line and the read-only gate, which
    equals a search over all that was printed.
  \<^item> Config, Cmdline (\<^verbatim>\<open>config.py\<close>, \<^verbatim>\<open>cmdline.py\<close>): environment, the words of the command
    line as \<^verbatim>\<open>argparse\<close> reads them, precedence and start-up; that flags and variables say the same.
  \<^item> Url, Client (\<^verbatim>\<open>client.py\<close>): \<^verbatim>\<open>urllib.parse\<close> and all operations; that requests stay
    on the host and speak the API, and what a hostile device name does.
  \<^item> Jobs (\<^verbatim>\<open>jobs.py\<close>): the interactive job and the downloads action.
  \<^item> Source, SourceProps (\<^verbatim>\<open>source.py\<close>): rounds of the mirror and reads over a tree with links.
  \<^item> ServerUtil, SessionTools, ConsoleTools, ArtifactTools, QueryTools, Server (\<^verbatim>\<open>server.py\<close>):
    the helpers and every tool, resource and route, over the state \<open>world\<close> of the whole server; which
    of them a configuration offers, and what a call runs (\<open>run_tool\<close>).
  \<^item> SessionLaw: the locales \<open>world_law\<close> and \<open>gateway_law\<close>: a property that requests, waiting and the
    few ways of changing a session keep is kept by every handler. SessionProps: ownership, opening,
    closing, the readiness check.
  \<^item> ArtifactSpec, ArtifactThms: the routes implement a specification over the abstract store; a
    reservation, its token, and the round trip from reservation to download. Routes: the paths they are
    mounted at, and that an address handed out leads back to its artifact.
  \<^item> QueryProps: a server started read-only only asks; the search for a boot template is exact.
  \<^item> ServerSys: runs of the whole server, where any run may happen inside each wait of a call; its
    invariant; and a session from dialling in to running commands.

  \<^bold>\<open>Bounds and fuel.\<close> No definition uses fuel. Two loops are not structural: the search for a
  fresh label (\<open>fresh_label\<close>, measured by the taken labels not shorter than the candidate) and the
  resolution of links (\<open>realpath_loop\<close>, measured by the links not yet seen); both are proved to end. The
  endless loops of the program (the console, the mirror) are machines run on lists of events. Numbers of
  Python are \<open>int\<close> and \<open>rat\<close>; words occur in addresses and in the hash.

  \<^bold>\<open>Not modelled, and why.\<close> FastMCP, Starlette, asyncssh, \<^verbatim>\<open>requests\<close>, PyYAML, git and the
  ser2net daemon are outside the repository: they are arguments or events. Logging, the fixed text of the
  server's instructions, help and tool descriptions, threads and their locks (a tool or a
  callback runs from one wait to the next without interruption) and back-pressure of sockets are left
  out. Floats are rationals; their printing is an argument. The PUT route runs its upload in one go
  (\<open>put_artifact\<close>); uploads cut at each chunk are the events of Uploads, which ServerSys interleaves
  with everything else.
\<close>

end
